(* ===== verification/Prelude.thy ===== *)
theory Prelude
  imports Main "HOL-Library.AList" "HOL-Library.Char_ord" "HOL-Library.List_Lexorder"
    "HOL-Library.Word"
begin

text \<open>
  Shared vocabulary of the development: Go maps as association lists, SQL tables as lists of
  rows, the string routines of the Go standard library that the program calls, and the small
  state-and-error combinators in which the operations are written.
\<close>

named_theorems io_simps \<open>unfolding of the state-and-error combinators\<close>
named_theorems table_simps \<open>facts about the SQL table operations\<close>

section \<open>Basic types\<close>

text \<open>
  \<^verbatim>\<open>time.Time\<close>: nanoseconds since Go's zero time, so \<^verbatim>\<open>IsZero\<close> is \<open>t = 0\<close>. Columns of
  type \<^verbatim>\<open>timestamptz\<close> keep whole microseconds (\<open>pg_time\<close>).
\<close>

type_synonym time = int
type_synonym int64 = "64 word"
type_synonym byte = "8 word"

abbreviation second_ns :: time where "second_ns \<equiv> 1000000000"
abbreviation minute_ns :: time where "minute_ns \<equiv> 60000000000"

definition pg_time :: "time \<Rightarrow> time" where
  "pg_time t = t - t mod 1000"

lemma pg_time_idem [simp]: "pg_time (pg_time t) = pg_time t"
  by (simp add: pg_time_def mod_diff_left_eq)

lemma pg_time_le: "pg_time t \<le> t"
  by (simp add: pg_time_def)

text \<open>A \<^verbatim>\<open>BIGINT\<close> column refuses the increment of its largest value; Go's \<^verbatim>\<open>int64\<close> wraps.\<close>

definition bigint_succ :: "int64 \<Rightarrow> int64 option" where
  "bigint_succ v = (if sint v = 2 ^ 63 - 1 then None else Some (v + 1))"

lemma sint_bound64: "sint (v :: int64) < 2 ^ 63"
  using sint_lt [of v] by simp

lemma sint_lower64: "- (2 ^ 63) \<le> sint (v :: int64)"
  using sint_ge [of v] by simp

lemma sint_Suc64: "sint (v :: int64) \<noteq> 2 ^ 63 - 1 \<Longrightarrow> sint (v + 1) = sint v + 1"
proof -
  assume "sint v \<noteq> 2 ^ 63 - 1"
  then have "sint v + 1 < 2 ^ 63" and "- (2 ^ 63) \<le> sint v + 1"
    using sint_bound64 [of v] sint_lower64 [of v] by auto
  then show ?thesis
    by (simp add: sint_word_ariths signed_take_bit_int_eq_self)
qed

section \<open>Go maps\<close>

type_synonym 'v gomap = "(string \<times> 'v) list"

definition mget :: "'v gomap \<Rightarrow> string \<Rightarrow> 'v option" where
  "mget m k = map_of m k"

definition mput :: "string \<Rightarrow> 'v \<Rightarrow> 'v gomap \<Rightarrow> 'v gomap" where
  "mput k v m = AList.update k v m"

definition mdel :: "string \<Rightarrow> 'v gomap \<Rightarrow> 'v gomap" where
  "mdel k m = AList.delete k m"

definition mkeys :: "'v gomap \<Rightarrow> string list" where
  "mkeys m = map fst m"

definition mvalues :: "'v gomap \<Rightarrow> 'v list" where
  "mvalues m = map snd m"

lemma mkeys_simps [simp]: "mkeys [] = []" "mkeys ((k, v) # m) = k # mkeys m"
  by (simp_all add: mkeys_def)

lemma mget_Nil [simp]: "mget [] k = None"
  by (simp add: mget_def)

lemma mget_Cons [simp]: "mget ((k', v) # m) k = (if k = k' then Some v else mget m k)"
  by (simp add: mget_def)

lemma mget_mput [simp]: "mget (mput k v m) k' = (if k' = k then Some v else mget m k')"
  by (simp add: mget_def mput_def update_conv')

lemma mget_mdel [simp]: "mget (mdel k m) k' = (if k' = k then None else mget m k')"
  by (simp add: mget_def mdel_def delete_conv')

lemma mget_mput_mdel: "mget (mdel k (mput k v m)) k' = (if k' = k then None else mget m k')"
  by simp

lemma mdel_mput_fresh: "mget m k = None \<Longrightarrow> mdel k (mput k v m) = m"
  by (induction m) (auto simp: mget_def mdel_def mput_def split: if_splits)

lemma mput_neq_Nil [simp]: "mput k v m \<noteq> []"
  by (cases m) (auto simp: mput_def)

lemma distinct_mput [simp, intro]: "distinct (mkeys m) \<Longrightarrow> distinct (mkeys (mput k v m))"
  by (simp add: mkeys_def mput_def distinct_update)

lemma distinct_mdel [simp, intro]: "distinct (mkeys m) \<Longrightarrow> distinct (mkeys (mdel k m))"
  by (simp add: mkeys_def mdel_def distinct_delete)

lemma set_mkeys_mput [simp]: "set (mkeys (mput k v m)) = insert k (set (mkeys m))"
  by (simp add: mkeys_def mput_def dom_update)

lemma mget_in_set: "mget m k = Some v \<Longrightarrow> (k, v) \<in> set m"
  by (simp add: mget_def map_of_SomeD)

lemma in_set_mget: "distinct (mkeys m) \<Longrightarrow> (k, v) \<in> set m \<Longrightarrow> mget m k = Some v"
  by (simp add: mget_def mkeys_def)

lemma list_all_mget: "distinct (mkeys m) \<Longrightarrow> list_all (\<lambda>(k, v). P k v) m \<longleftrightarrow> (\<forall>k v. mget m k = Some v \<longrightarrow> P k v)"
  by (fastforce simp: list_all_iff dest: mget_in_set in_set_mget)

section \<open>SQL tables\<close>

text \<open>
  A table is the list of its rows. \<open>sql_update\<close> and \<open>sql_delete\<close> are
  \<^verbatim>\<open>UPDATE ... WHERE\<close> and \<^verbatim>\<open>DELETE ... WHERE\<close>, \<open>sql_count\<close> their \<^verbatim>\<open>RowsAffected\<close>;
  \<open>sql_conflict\<close> is the test of \<^verbatim>\<open>INSERT ... ON CONFLICT DO NOTHING\<close> on a unique key.
\<close>

definition sql_update :: "('r \<Rightarrow> bool) \<Rightarrow> ('r \<Rightarrow> 'r) \<Rightarrow> 'r list \<Rightarrow> 'r list" where
  "sql_update P f t = map (\<lambda>r. if P r then f r else r) t"

definition sql_delete :: "('r \<Rightarrow> bool) \<Rightarrow> 'r list \<Rightarrow> 'r list" where
  "sql_delete P t = filter (\<lambda>r. \<not> P r) t"

definition sql_count :: "('r \<Rightarrow> bool) \<Rightarrow> 'r list \<Rightarrow> nat" where
  "sql_count P t = length (filter P t)"

definition sql_conflict :: "('r \<Rightarrow> 'k) \<Rightarrow> 'k \<Rightarrow> 'r list \<Rightarrow> bool" where
  "sql_conflict key k t = list_ex (\<lambda>r. key r = k) t"

lemma sql_conflict_iff [table_simps]: "sql_conflict key k t \<longleftrightarrow> k \<in> key ` set t"
  by (auto simp: sql_conflict_def list_ex_iff)

lemma set_sql_update [table_simps]:
  "set (sql_update P f t) = (\<lambda>r. if P r then f r else r) ` set t"
  by (simp add: sql_update_def)

lemma set_sql_delete [table_simps]: "set (sql_delete P t) = {r \<in> set t. \<not> P r}"
  by (auto simp: sql_delete_def)

lemma length_sql_update [simp]: "length (sql_update P f t) = length t"
  by (simp add: sql_update_def)

lemma map_sql_update [table_simps]:
  "(\<And>r. P r \<Longrightarrow> key (f r) = key r) \<Longrightarrow> map key (sql_update P f t) = map key t"
  by (simp add: sql_update_def)

lemma sql_update_none: "(\<And>r. r \<in> set t \<Longrightarrow> \<not> P r) \<Longrightarrow> sql_update P f t = t"
  by (simp add: sql_update_def map_idI)

lemma distinct_sql_delete:
  "distinct (map key t) \<Longrightarrow> distinct (map key (sql_delete P t))"
  by (simp add: sql_delete_def distinct_map_filter)

lemma distinct_key_unique:
  "distinct (map key t) \<Longrightarrow> r \<in> set t \<Longrightarrow> r' \<in> set t \<Longrightarrow> key r = key r' \<Longrightarrow> r = r'"
  by (simp add: distinct_map inj_on_def)

lemma sql_count_zero: "sql_count P t = 0 \<longleftrightarrow> (\<forall>r \<in> set t. \<not> P r)"
  by (simp add: sql_count_def filter_empty_conv)

lemma sql_count_pos: "0 < sql_count P t \<longleftrightarrow> (\<exists>r \<in> set t. P r)"
  using sql_count_zero [of P t] by auto

lemma sql_count_key_le_one:
  assumes "distinct (map key t)" and "\<And>r. P r \<Longrightarrow> key r = k"
  shows "sql_count P t \<le> 1"
proof -
  have "distinct (filter P t)" "distinct (map key (filter P t))"
    using assms(1) by (auto simp: distinct_map inj_on_def)
  moreover have "set (map key (filter P t)) \<subseteq> {k}" using assms(2) by auto
  ultimately have "card (set (map key (filter P t))) \<le> 1"
    by (metis card_mono card.empty card_insert_disjoint empty_iff finite.intros One_nat_def)
  then show ?thesis
    using distinct_card [OF \<open>distinct (map key (filter P t))\<close>] by (simp add: sql_count_def)
qed

lemma find_sql_update:
  "(\<And>r. Q (if P r then f r else r) = Q r) \<Longrightarrow>
   find Q (sql_update P f t) = map_option (\<lambda>r. if P r then f r else r) (find Q t)"
  by (induction t) (auto simp: sql_update_def)

lemma find_append: "find Q (xs @ ys) = (case find Q xs of None \<Rightarrow> find Q ys | Some r \<Rightarrow> Some r)"
  by (induction xs) auto

lemma find_SomeD: "find Q t = Some r \<Longrightarrow> r \<in> set t \<and> Q r"
  by (auto simp: find_Some_iff)

lemma find_NoneD: "find Q t = None \<Longrightarrow> r \<in> set t \<Longrightarrow> \<not> Q r"
  by (auto simp: find_None_iff)

lemma find_unique:
  assumes "distinct (map key t)" and "r \<in> set t" and "Q r" and "\<And>r'. Q r' \<Longrightarrow> key r' = key r"
  shows "find Q t = Some r"
proof -
  obtain r' where r': "find Q t = Some r'"
    using assms(2,3) by (metis find_None_iff not_None_eq)
  then have "r' \<in> set t" "Q r'" by (auto dest: find_SomeD)
  with assms have "r' = r" by (metis distinct_key_unique)
  with r' show ?thesis by simp
qed

section \<open>Strings of the Go standard library\<close>

definition has_prefix :: "string \<Rightarrow> string \<Rightarrow> bool" where
  "has_prefix s p \<longleftrightarrow> take (length p) s = p"

definition trim_prefix :: "string \<Rightarrow> string \<Rightarrow> string" where
  "trim_prefix s p = (if has_prefix s p then drop (length p) s else s)"

definition trim_right :: "string \<Rightarrow> char \<Rightarrow> string" where
  "trim_right s c = rev (dropWhile (\<lambda>x. x = c) (rev s))"

text \<open>
  \<^verbatim>\<open>strings.Split(s, sep)\<close> and \<^verbatim>\<open>strings.SplitN(s, sep, 2)\<close> for a one-byte separator.
\<close>

fun split_on :: "char \<Rightarrow> string \<Rightarrow> string list" where
  "split_on c [] = [[]]"
| "split_on c (x # xs) =
     (if x = c then [] # split_on c xs
      else case split_on c xs of [] \<Rightarrow> [[x]] | y # ys \<Rightarrow> (x # y) # ys)"

definition split2 :: "char \<Rightarrow> string \<Rightarrow> string list" where
  "split2 c s = (if c \<in> set s then [takeWhile (\<lambda>x. x \<noteq> c) s, tl (dropWhile (\<lambda>x. x \<noteq> c) s)] else [s])"

text \<open>
  \<^verbatim>\<open>strings.TrimSpace(s) == ""\<close>: every rune is white space. \<open>space_len\<close> is the length in
  bytes of the white-space rune that begins a UTF-8 string, 0 if it begins with none
  (\<^verbatim>\<open>unicode.IsSpace\<close>: tab to carriage return, space, U+0085, U+00A0, U+1680, U+2000 to U+200A,
  U+2028, U+2029, U+202F, U+205F, U+3000).
\<close>

fun space_len :: "nat list \<Rightarrow> nat" where
  "space_len [] = 0"
| "space_len (a # rest) =
     (if a = 32 \<or> (9 \<le> a \<and> a \<le> 13) then 1
      else case rest of
        [] \<Rightarrow> 0
      | b # rest' \<Rightarrow>
         (if a = 194 \<and> (b = 133 \<or> b = 160) then 2
          else case rest' of
            [] \<Rightarrow> 0
          | d # _ \<Rightarrow>
             (if (a = 225 \<and> b = 154 \<and> d = 128)
               \<or> (a = 226 \<and> b = 128 \<and> ((128 \<le> d \<and> d \<le> 138) \<or> d = 168 \<or> d = 169 \<or> d = 175))
               \<or> (a = 226 \<and> b = 129 \<and> d = 159)
               \<or> (a = 227 \<and> b = 128 \<and> d = 128) then 3 else 0)))"

function all_space :: "nat list \<Rightarrow> bool" where
  "all_space bs = (if bs = [] then True
     else if space_len bs = 0 then False else all_space (drop (space_len bs) bs))"
  by pat_completeness auto
termination
  by (relation "measure length") auto

declare all_space.simps [simp del]

definition blank :: "string \<Rightarrow> bool" where
  "blank s = all_space (map of_char s)"

lemma blank_Nil [simp]: "blank []"
  by (simp add: blank_def all_space.simps)

lemma not_blank_visible:
  "s \<noteq> [] \<Longrightarrow> 33 \<le> (of_char (hd s) :: nat) \<Longrightarrow> (of_char (hd s) :: nat) < 128 \<Longrightarrow> \<not> blank s"
  by (cases s) (auto simp: blank_def all_space.simps [of "_ # _"] split: list.splits)

text \<open>Lower-case hexadecimal, as \<^verbatim>\<open>hex.EncodeToString\<close> and the verb \<^verbatim>\<open>%x\<close> on bytes print it.\<close>

definition hex_digit :: "nat \<Rightarrow> char" where
  "hex_digit n = ''0123456789abcdef'' ! (n mod 16)"

definition hex_byte :: "byte \<Rightarrow> string" where
  "hex_byte b = [hex_digit (unat b div 16), hex_digit (unat b mod 16)]"

definition hex_encode :: "byte list \<Rightarrow> string" where
  "hex_encode bs = concat (map hex_byte bs)"

definition is_hex :: "char \<Rightarrow> bool" where
  "is_hex c \<longleftrightarrow> c \<in> set ''0123456789abcdef''"

lemma is_hex_digit [simp]: "is_hex (hex_digit n)"
proof -
  have "n mod 16 < length ''0123456789abcdef''" by simp
  then show ?thesis unfolding is_hex_def hex_digit_def by (rule nth_mem)
qed

lemma length_hex_encode [simp]: "length (hex_encode bs) = 2 * length bs"
  by (induction bs) (auto simp: hex_encode_def hex_byte_def)

lemma hex_encode_is_hex: "c \<in> set (hex_encode bs) \<Longrightarrow> is_hex c"
  by (auto simp: hex_encode_def hex_byte_def)

lemma hex_encode_Nil [simp]: "hex_encode [] = []"
  by (simp add: hex_encode_def)

lemma hex_encode_Cons [simp]: "hex_encode (b # bs) = hex_byte b @ hex_encode bs"
  by (simp add: hex_encode_def)

lemma hex_encode_append [simp]: "hex_encode (xs @ ys) = hex_encode xs @ hex_encode ys"
  by (simp add: hex_encode_def)

text \<open>The verb \<^verbatim>\<open>%q\<close>; bytes from 128 on are taken as parts of printable runes.\<close>

definition quote_char :: "char \<Rightarrow> string" where
  "quote_char c =
     (let n = (of_char c :: nat) in
      if c = CHR 0x22 \<or> c = CHR 0x5C then [CHR 0x5C, c]
      else if n = 7 then [CHR 0x5C, CHR ''a''] else if n = 8 then [CHR 0x5C, CHR ''b'']
      else if n = 9 then [CHR 0x5C, CHR ''t''] else if n = 10 then [CHR 0x5C, CHR ''n'']
      else if n = 11 then [CHR 0x5C, CHR ''v''] else if n = 12 then [CHR 0x5C, CHR ''f'']
      else if n = 13 then [CHR 0x5C, CHR ''r'']
      else if n < 32 \<or> n = 127 then [CHR 0x5C, CHR ''x'', hex_digit (n div 16), hex_digit (n mod 16)]
      else [c])"

definition go_quote :: "string \<Rightarrow> string" where
  "go_quote s = [CHR 0x22] @ concat (map quote_char s) @ [CHR 0x22]"

section \<open>Operations with state and errors\<close>

text \<open>
  An operation takes the state and returns its result and the new state. The result is a sum:
  \<open>Inl\<close> the Go error, \<open>Inr\<close> the value. \<open>io_bind\<close> is the sequence "call; return the error if
  there is one; go on with the value".
\<close>

type_synonym ('s, 'e, 'a) io = "'s \<Rightarrow> ('e + 'a) \<times> 's"

definition io_return :: "'a \<Rightarrow> ('s, 'e, 'a) io" where
  "io_return x s = (Inr x, s)"

definition io_fail :: "'e \<Rightarrow> ('s, 'e, 'a) io" where
  "io_fail e s = (Inl e, s)"

definition io_bind :: "('s, 'e, 'a) io \<Rightarrow> ('a \<Rightarrow> ('s, 'e, 'b) io) \<Rightarrow> ('s, 'e, 'b) io" where
  "io_bind m f s = (case m s of (Inl e, s') \<Rightarrow> (Inl e, s') | (Inr x, s') \<Rightarrow> f x s')"

text \<open>Run \<open>m\<close>; when it fails, run the cleanup \<open>h\<close> (a \<^verbatim>\<open>defer\<close> whose own error is dropped).\<close>

definition io_on_error :: "('s, 'e, 'a) io \<Rightarrow> ('s, 'e, 'b) io \<Rightarrow> ('s, 'e, 'a) io" where
  "io_on_error m h s = (case m s of (Inl e, s') \<Rightarrow> (Inl e, snd (h s')) | (Inr x, s') \<Rightarrow> (Inr x, s'))"

text \<open>A call whose error is looked at (\<open>io_try\<close>) or dropped, \<^verbatim>\<open>_, _ = ...\<close> (\<open>io_ignore\<close>).\<close>

definition io_try :: "('s, 'e, 'a) io \<Rightarrow> ('s, 'e, 'e + 'a) io" where
  "io_try m s = (case m s of (r, s') \<Rightarrow> (Inr r, s'))"

definition io_ignore :: "('s, 'e, 'a) io \<Rightarrow> ('s, 'e, unit) io" where
  "io_ignore m s = (Inr (), snd (m s))"

text \<open>A loop over a list whose body never fails.\<close>

fun io_each :: "('a \<Rightarrow> ('s, 'e, unit) io) \<Rightarrow> 'a list \<Rightarrow> ('s, 'e, unit) io" where
  "io_each f [] = io_return ()"
| "io_each f (x # xs) = io_bind (f x) (\<lambda>_. io_each f xs)"

text \<open>
  A loop on a ticker: one pass of the body, then \<^verbatim>\<open>select\<close> between the end of the context and the next tick. The signals
  that arrive are a list; a tick carries what the rest of the program did to the state since the last pass. The
  result says whether the loop has returned or, at the end of the list, still waits.
\<close>

datatype 's signal = Cancelled | Tick "'s \<Rightarrow> 's"

fun ticker_loop :: "('s, 'e, unit) io \<Rightarrow> 's signal list \<Rightarrow> ('s, 'e, bool) io" where
  "ticker_loop body [] = io_bind body (\<lambda>_. io_return False)"
| "ticker_loop body (Cancelled # signals) = io_bind body (\<lambda>_. io_return True)"
| "ticker_loop body (Tick others # signals) = io_bind body (\<lambda>_ s. ticker_loop body signals (others s))"

lemmas io_defs [io_simps] = io_return_def io_fail_def

lemma io_bind_Inl [simp]: "m s = (Inl e, s') \<Longrightarrow> io_bind m f s = (Inl e, s')"
  by (simp add: io_bind_def)

lemma io_bind_Inr [simp]: "m s = (Inr x, s') \<Longrightarrow> io_bind m f s = f x s'"
  by (simp add: io_bind_def)

lemma io_bind_InrE:
  assumes "io_bind m f s = (Inr y, t)"
  obtains x u where "m s = (Inr x, u)" and "f x u = (Inr y, t)"
  using assms by (auto simp: io_bind_def split: prod.splits sum.splits)

lemma io_bind_InlE:
  assumes "io_bind m f s = (Inl e, t)"
  obtains "m s = (Inl e, t)" | x u where "m s = (Inr x, u)" and "f x u = (Inl e, t)"
  using assms by (auto simp: io_bind_def split: prod.splits sum.splits)

lemma io_bindE:
  assumes "io_bind m f s = (r, t)"
  obtains (error) e where "m s = (Inl e, t)" and "r = Inl e"
    | (ok) x u where "m s = (Inr x, u)" and "f x u = (r, t)"
  using assms by (auto simp: io_bind_def split: prod.splits sum.splits)

lemma io_tryE:
  assumes "io_bind (io_try m) f w = (r, w')"
  obtains x u where "m w = (x, u)" and "f x u = (r, w')"
  using assms by (auto simp: io_bind_def io_try_def split: prod.splits)

lemma io_on_errorE:
  assumes "io_on_error m h s = (r, t)"
  obtains (error) e u where "m s = (Inl e, u)" and "r = Inl e" and "t = snd (h u)"
    | (ok) x where "m s = (Inr x, t)" and "r = Inr x"
  using assms by (auto simp: io_on_error_def split: prod.splits sum.splits)

text \<open>The laws of sequencing.\<close>

lemma io_bind_assoc: "io_bind (io_bind m f) g = io_bind m (\<lambda>x. io_bind (f x) g)"
  by (rule ext) (simp add: io_bind_def split: prod.splits sum.splits)

lemma io_bind_return: "io_bind (io_return x) f = f x"
  by (rule ext) (simp add: io_bind_def io_simps)

lemma io_bind_cong: "(\<And>x. f x = g x) \<Longrightarrow> io_bind m f = io_bind m g"
  by (rule arg_cong [where f = "io_bind m"]) (rule ext)

lemma io_bind_if: "io_bind (if c then m else m') f = (if c then io_bind m f else io_bind m' f)"
  by simp

lemma io_bind_sum: "io_bind (case r of Inl e \<Rightarrow> l e | Inr x \<Rightarrow> h x) f = (case r of Inl e \<Rightarrow> io_bind (l e) f | Inr x \<Rightarrow> io_bind (h x) f)"
  by (simp split: sum.split)

lemma io_each_returns: "(\<And>x s. \<exists>t. f x s = (Inr (), t)) \<Longrightarrow> \<exists>t. io_each f xs s = (Inr (), t)"
proof (induction xs arbitrary: s)
  case (Cons x xs)
  obtain t where "f x s = (Inr (), t)" using Cons.prems by blast
  with Cons show ?case by simp
qed (simp add: io_simps)

text \<open>A loop whose body always returns ends with its context, and follows whatever its passes and the ticks follow.\<close>

lemma ticker_loop_ends:
  assumes "\<And>s. \<exists>t. body s = (Inr (), t)"
  shows "fst (ticker_loop body signals s) = Inr (Cancelled \<in> set signals)"
proof (induction signals arbitrary: s)
  case Nil
  from assms [of s] show ?case by (auto simp: io_simps)
next
  case (Cons x signals)
  from assms [of s] Cons show ?case by (cases x) (auto simp: io_simps)
qed

lemma ticker_loop_path:
  assumes body: "\<And>s r t. body s = (r, t) \<Longrightarrow> R s t" and others: "\<And>f s. Tick f \<in> set signals \<Longrightarrow> R s (f s)"
    and trans: "\<And>s t u. R s t \<Longrightarrow> R t u \<Longrightarrow> R s u"
  shows "R s (snd (ticker_loop body signals s))"
  using others
proof (induction signals arbitrary: s)
  case Nil
  then show ?case using body by (auto simp: io_bind_def io_simps split: prod.split sum.split)
next
  case (Cons x signals)
  obtain r t where t: "body s = (r, t)" by force
  show ?case
  proof (cases r)
    case (Inl e)
    with t body [OF t] show ?thesis by (cases x) simp_all
  next
    case (Inr y)
    show ?thesis
    proof (cases x)
      case Cancelled
      with t Inr body [OF t] show ?thesis by (simp add: io_simps)
    next
      case (Tick f)
      have "R t (f t)" using Cons.prems Tick by simp
      moreover have "R (f t) (snd (ticker_loop body signals (f t)))" using Cons by simp
      ultimately have "R s (snd (ticker_loop body signals (f t)))" using trans [OF body [OF t]] trans [of t "f t"] by blast
      then show ?thesis using t Inr Tick by simp
    qed
  qed
qed

text \<open>An invariant that every part of a sequence keeps is kept by the sequence.\<close>

definition io_keeps :: "('s \<Rightarrow> bool) \<Rightarrow> ('s, 'e, 'a) io \<Rightarrow> bool" where
  "io_keeps I m \<longleftrightarrow> (\<forall>s. I s \<longrightarrow> I (snd (m s)))"

lemma io_keepsI [intro?]: "(\<And>s r t. I s \<Longrightarrow> m s = (r, t) \<Longrightarrow> I t) \<Longrightarrow> io_keeps I m"
  unfolding io_keeps_def by (metis prod.collapse)

lemma io_keepsD: "io_keeps I m \<Longrightarrow> I s \<Longrightarrow> m s = (r, t) \<Longrightarrow> I t"
  by (metis io_keeps_def snd_conv)

lemma io_keeps_bind:
  assumes "io_keeps I m" and "\<And>x. io_keeps I (f x)"
  shows "io_keeps I (io_bind m f)"
proof
  fix s r t
  assume "I s" and "io_bind m f s = (r, t)"
  with assms show "I t"
    unfolding io_bind_def io_keeps_def
    by (auto split: prod.splits sum.splits) (metis snd_conv)+
qed

lemma io_keeps_return [simp]: "io_keeps I (io_return x)"
  by (simp add: io_keeps_def io_return_def)

lemma io_keeps_fail [simp]: "io_keeps I (io_fail e)"
  by (simp add: io_keeps_def io_fail_def)

end
