(* ===== verification/Core_Model.thy ===== *)
theory Core_Model
  imports Prelude
begin

text \<open>
  \<^verbatim>\<open>internal/core\<close>: the errors, the data model and the payment lifecycle. A struct is a record
  whose fields keep the Go names behind a short prefix; \<^verbatim>\<open>map[string]any\<close> is an association
  list of JSON values; a pointer that may be nil is an \<open>option\<close>.
\<close>

section \<open>Errors (\<^verbatim>\<open>core/errors.go\<close>)\<close>

text \<open>
  The sentinel errors, any other error with its text, and \<^verbatim>\<open>fmt.Errorf\<close> with \<^verbatim>\<open>%w\<close>, which keeps
  the wrapped error between the text before and the text after it. \<open>Panic\<close> is a run-time panic
  (a call through a nil interface), which no \<^verbatim>\<open>error\<close> value carries.
\<close>

datatype go_error =
    ErrInvalid | ErrNotFound | ErrConflict | ErrInProgress | ErrUnauthorized | ErrUnsupported
  | ErrInsufficientBalance | ErrProviderRejected
  | ErrOther string
  | ErrWrap string go_error string
  | Panic

fun err_text :: "go_error \<Rightarrow> string" where
  "err_text ErrInvalid = ''invalid request''"
| "err_text ErrNotFound = ''not found''"
| "err_text ErrConflict = ''conflict''"
| "err_text ErrInProgress = ''operation in progress''"
| "err_text ErrUnauthorized = ''unauthorized''"
| "err_text ErrUnsupported = ''operation not supported''"
| "err_text ErrInsufficientBalance = ''insufficient balance''"
| "err_text ErrProviderRejected = ''provider rejected request''"
| "err_text (ErrOther t) = t"
| "err_text (ErrWrap pre e post) = pre @ err_text e @ post"
| "err_text Panic = ''panic''"

text \<open>\<^verbatim>\<open>errors.Is(err, target)\<close>: the error itself or one it wraps.\<close>

fun errors_is :: "go_error \<Rightarrow> go_error \<Rightarrow> bool" where
  "errors_is (ErrWrap pre e post) target = (ErrWrap pre e post = target \<or> errors_is e target)"
| "errors_is e target = (e = target)"

lemma errors_is_refl [simp]: "errors_is e e"
  by (cases e) auto

type_synonym ('s, 'a) go_io = "('s, go_error, 'a) io"

section \<open>The data model (\<^verbatim>\<open>core/model.go\<close>)\<close>

datatype json = JNull | JBool bool | JNum string | JStr string | JArr "json list"
  | JObj "(string \<times> json) list"

type_synonym jmap = "json gomap"

text \<open>The type assertions \<^verbatim>\<open>x, _ := m[key].(string)\<close> and their kin: the zero value on a mismatch.\<close>

definition as_string :: "json option \<Rightarrow> string" where
  "as_string v = (case v of Some (JStr s) \<Rightarrow> s | _ \<Rightarrow> '''')"

definition as_bool :: "json option \<Rightarrow> bool" where
  "as_bool v = (case v of Some (JBool b) \<Rightarrow> b | _ \<Rightarrow> False)"

definition as_map :: "json option \<Rightarrow> jmap" where
  "as_map v = (case v of Some (JObj m) \<Rightarrow> m | _ \<Rightarrow> [])"

lemma as_simps [simp]:
  "as_string (Some (JStr s)) = s" "as_string None = ''''"
  "as_bool (Some (JBool b)) = b" "as_bool None = False"
  "as_map (Some (JObj m)) = m" "as_map None = []"
  by (simp_all add: as_string_def as_bool_def as_map_def)

record create_payment =
  cp_MerchantID :: string
  cp_AccountID :: string
  cp_ExternalID :: string
  cp_Amount :: string
  cp_Currency :: string
  cp_PaymentMethod :: string
  cp_Rail :: string
  cp_DestinationMode :: string
  cp_Description :: string
  cp_Customer :: jmap
  cp_SuccessURL :: string
  cp_CancelURL :: string
  cp_ExpirationDate :: time
  cp_Metadata :: jmap

record provider_binding =
  pb_BindingID :: string
  pb_EntityType :: string
  pb_EntityID :: string
  pb_ExternalEntityType :: string
  pb_ExternalEntityID :: string

record route_request =
  rq_RequestID :: string
  rq_TransactionID :: string
  rq_AccountID :: string
  rq_MerchantID :: string
  rq_Operation :: string
  rq_Amount :: string
  rq_Currency :: string
  rq_DestinationCurrency :: string
  rq_MarketCountry :: string
  rq_PaymentMethod :: string
  rq_CustomerHasDocument :: bool
  rq_Rail :: string
  rq_DestinationMode :: string
  rq_RequiredFeatures :: "string list"

record route_decision =
  rd_RouteDecisionID :: string
  rd_RequestID :: string
  rd_TransactionID :: string
  rd_Status :: string
  rd_ConnectorID :: string
  rd_Provider :: string
  rd_ProviderConnectionID :: string
  rd_Rail :: string
  rd_DestinationMode :: string
  rd_Binding :: "provider_binding option"
  rd_PolicyVersion :: string
  rd_DecidedAt :: time
  rd_ReasonCodes :: "string list"

record payment =
  pay_TransactionID :: string
  pay_MerchantID :: string
  pay_AccountID :: string
  pay_ExternalID :: string
  pay_Status :: string
  pay_Amount :: string
  pay_Currency :: string
  pay_PaymentMethod :: string
  pay_Description :: string
  pay_CreationDate :: time
  pay_ExpirationDate :: time
  pay_ActionURL :: string
  pay_Customer :: jmap
  pay_Metadata :: jmap
  pay_PaymentData :: jmap
  pay_ProviderPaymentID :: string
  pay_ProviderReference :: string
  pay_Route :: route_decision
  pay_Version :: int64
  pay_Origin :: string

text \<open>The zero values of the structs, which Go returns beside an error.\<close>

definition zero_route :: route_decision where
  "zero_route = \<lparr>rd_RouteDecisionID = '''', rd_RequestID = '''', rd_TransactionID = '''',
     rd_Status = '''', rd_ConnectorID = '''', rd_Provider = '''', rd_ProviderConnectionID = '''',
     rd_Rail = '''', rd_DestinationMode = '''', rd_Binding = None, rd_PolicyVersion = '''',
     rd_DecidedAt = 0, rd_ReasonCodes = []\<rparr>"

definition zero_payment :: payment where
  "zero_payment = \<lparr>pay_TransactionID = '''', pay_MerchantID = '''', pay_AccountID = '''',
     pay_ExternalID = '''', pay_Status = '''', pay_Amount = '''', pay_Currency = '''',
     pay_PaymentMethod = '''', pay_Description = '''', pay_CreationDate = 0,
     pay_ExpirationDate = 0, pay_ActionURL = '''', pay_Customer = [], pay_Metadata = [],
     pay_PaymentData = [], pay_ProviderPaymentID = '''', pay_ProviderReference = '''',
     pay_Route = zero_route, pay_Version = 0, pay_Origin = ''''\<rparr>"

record payment_list_options =
  plo_Limit :: int
  plo_Cursor :: string

record payment_page =
  pp_Data :: "payment list"
  pp_HasMore :: bool
  pp_NextCursor :: string

record create_refund =
  cr_ExternalID :: string
  cr_Amount :: string
  cr_Reason :: string
  cr_Metadata :: jmap

record refund =
  rf_RefundID :: string
  rf_TransactionID :: string
  rf_ExternalID :: string
  rf_Status :: string
  rf_Amount :: string
  rf_Currency :: string
  rf_Reason :: string
  rf_CreationDate :: time
  rf_CompletionDate :: "time option"
  rf_ProviderReference :: string
  rf_Failure :: jmap
  rf_Metadata :: jmap
  rf_MerchantID :: string
  rf_AccountID :: string
  rf_ProviderPaymentID :: string
  rf_Route :: route_decision
  rf_BalanceDebited :: bool
  rf_ProviderSubmitted :: bool
  rf_ResourceVersion :: int64
  rf_NextAttemptAt :: time
  rf_OperationalStatus :: string

record money =
  mo_Amount :: string
  mo_Currency :: string

record payout_destination =
  de_Country :: string
  de_Currency :: string
  de_Amount :: string
  de_Beneficiary :: jmap
  de_Rail :: jmap

record create_payout =
  cpo_MerchantID :: string
  cpo_ExternalID :: string
  cpo_Source :: money
  cpo_Destination :: payout_destination
  cpo_Remitter :: jmap
  cpo_Description :: string
  cpo_Metadata :: jmap

record payout =
  po_PayoutID :: string
  po_ExternalID :: string
  po_Source :: money
  po_Destination :: payout_destination
  po_Pricing :: jmap
  po_Remitter :: jmap
  po_Description :: string
  po_Status :: string
  po_BankSystemTrxID :: string
  po_CreationDate :: time
  po_ConfirmationDate :: "time option"
  po_FailureDate :: "time option"
  po_CancellationDate :: "time option"
  po_ReversalDate :: "time option"
  po_Failure :: jmap
  po_Metadata :: jmap
  po_AccountID :: string
  po_MerchantID :: string
  po_ProviderPayoutID :: string
  po_Route :: route_decision
  po_BalanceDebited :: bool
  po_ProviderSubmitted :: bool
  po_ResourceVersion :: int64
  po_NextAttemptAt :: time
  po_OperationalStatus :: string

definition zero_payout :: payout where
  "zero_payout = \<lparr>po_PayoutID = '''', po_ExternalID = '''', po_Source = \<lparr>mo_Amount = '''', mo_Currency = ''''\<rparr>,
     po_Destination = \<lparr>de_Country = '''', de_Currency = '''', de_Amount = '''', de_Beneficiary = [], de_Rail = []\<rparr>,
     po_Pricing = [], po_Remitter = [], po_Description = '''', po_Status = '''', po_BankSystemTrxID = '''',
     po_CreationDate = 0, po_ConfirmationDate = None, po_FailureDate = None, po_CancellationDate = None,
     po_ReversalDate = None, po_Failure = [], po_Metadata = [], po_AccountID = '''', po_MerchantID = '''',
     po_ProviderPayoutID = '''', po_Route = zero_route, po_BalanceDebited = False, po_ProviderSubmitted = False,
     po_ResourceVersion = 0, po_NextAttemptAt = 0, po_OperationalStatus = ''''\<rparr>"

record payout_list_options =
  polo_Limit :: int
  polo_Cursor :: string
  polo_Status :: string
  polo_ExternalID :: string

record payout_page =
  pop_Data :: "payout list"
  pop_HasMore :: bool
  pop_NextCursor :: string

record provider_payment =
  ppm_TransactionID :: string
  ppm_Provider :: string
  ppm_ProviderConnectionID :: string
  ppm_ProviderPaymentID :: string
  ppm_ProviderReference :: string
  ppm_Status :: string
  ppm_ExpiresAt :: time
  ppm_Completion :: jmap

record provider_refund =
  prf_RefundID :: string
  prf_TransactionID :: string
  prf_Provider :: string
  prf_ProviderConnectionID :: string
  prf_ProviderRefundID :: string
  prf_Status :: string
  prf_RawStatus :: string
  prf_Amount :: string
  prf_Currency :: string
  prf_ObservedAt :: time
  prf_ProviderData :: jmap

record provider_payout =
  ppo_PayoutID :: string
  ppo_Provider :: string
  ppo_ProviderConnectionID :: string
  ppo_ProviderPayoutID :: string
  ppo_ProviderReference :: string
  ppo_Status :: string
  ppo_RawStatus :: string
  ppo_Source :: money
  ppo_DestinationAmount :: string
  ppo_DestinationCurrency :: string
  ppo_ObservedAt :: time
  ppo_ProviderData :: jmap

text \<open>
  The webhook body. The program marshals a map to JSON; the model keeps the value that is
  marshalled, with the resource under \<^verbatim>\<open>data.object\<close>.
\<close>

datatype resource = ResPayment payment | ResPayout payout | ResRefund refund

record event_payload =
  ep_eventId :: string
  ep_eventType :: string
  ep_apiVersion :: string
  ep_merchantId :: string
  ep_creationDate :: time
  ep_resourceVersion :: int64
  ep_previousStatus :: "string option"
  ep_object :: resource

record merchant_event =
  me_EventID :: string
  me_EventType :: string
  me_MerchantID :: string
  me_ResourceID :: string
  me_ResourceVersion :: int64
  me_Payload :: "event_payload option"

record provider_event_data =
  ed_Status :: string
  ed_RawStatus :: string
  ed_Amount :: string
  ed_Currency :: string
  ed_ProviderReference :: string
  ed_ProviderData :: jmap

record provider_event =
  ev_EventID :: string
  ev_EventType :: string
  ev_EventVersion :: string
  ev_Source :: string
  ev_OccurredAt :: time
  ev_ObservedAt :: time
  ev_TraceID :: string
  ev_TransactionID :: string
  ev_RefundID :: string
  ev_PayoutID :: string
  ev_Provider :: string
  ev_ProviderConnectionID :: string
  ev_ProviderPaymentID :: string
  ev_ProviderRefundID :: string
  ev_ProviderPayoutID :: string
  ev_Sequence :: "int64 option"
  ev_Data :: provider_event_data

record event_result =
  er_Duplicate :: bool
  er_Changed :: bool
  er_Status :: string

definition zero_result :: event_result where
  "zero_result = \<lparr>er_Duplicate = False, er_Changed = False, er_Status = ''''\<rparr>"

record principal =
  pr_AccountID :: string
  pr_MerchantID :: string
  pr_Scopes :: "string list"

section \<open>The payment lifecycle (\<^verbatim>\<open>core/lifecycle.go\<close>)\<close>

definition PublicStatusFromProvider :: "string \<Rightarrow> string option" where
  "PublicStatusFromProvider status =
     (if status = ''created'' then Some ''started''
      else if status = ''pending'' then Some ''pending''
      else if status = ''confirmed'' then Some ''confirmed''
      else if status = ''rejected'' \<or> status = ''failed'' then Some ''failed''
      else if status = ''cancelled'' then Some ''cancelled''
      else if status = ''expired'' then Some ''expired''
      else None)"

definition PaymentTransitionAllowed :: "string \<Rightarrow> string \<Rightarrow> bool" where
  "PaymentTransitionAllowed current next =
     (if current = next then True
      else if current = ''started'' then
        next = ''pending'' \<or> next = ''confirmed'' \<or> next = ''failed'' \<or> next = ''cancelled'' \<or> next = ''expired''
      else if current = ''pending'' then
        next = ''confirmed'' \<or> next = ''failed'' \<or> next = ''cancelled'' \<or> next = ''expired''
      else if current = ''expired'' then next = ''confirmed''
      else False)"

text \<open>
  The lifecycle as a contract: a rank that every real transition raises. \<^verbatim>\<open>failed\<close>,
  \<^verbatim>\<open>cancelled\<close>, \<^verbatim>\<open>confirmed\<close> and every status the table does not name are final.
\<close>

definition payment_rank :: "string \<Rightarrow> nat" where
  "payment_rank st =
     (if st = ''started'' then 0 else if st = ''pending'' then 1 else if st = ''expired'' then 2 else 3)"

lemma transition_refl [simp]: "PaymentTransitionAllowed s s"
  by (simp add: PaymentTransitionAllowed_def)

lemma transition_rank:
  "PaymentTransitionAllowed s t \<Longrightarrow> s \<noteq> t \<Longrightarrow> payment_rank s < payment_rank t"
  by (auto simp: PaymentTransitionAllowed_def payment_rank_def split: if_splits)

lemma transition_rank_le: "PaymentTransitionAllowed s t \<Longrightarrow> payment_rank s \<le> payment_rank t"
  by (cases "s = t") (auto dest: transition_rank)

lemma transition_trans:
  "PaymentTransitionAllowed s t \<Longrightarrow> PaymentTransitionAllowed t u \<Longrightarrow> PaymentTransitionAllowed s u"
  by (auto simp: PaymentTransitionAllowed_def split: if_splits)

lemma transition_antisym:
  "PaymentTransitionAllowed s t \<Longrightarrow> PaymentTransitionAllowed t s \<Longrightarrow> s = t"
  by (rule ccontr) (auto dest!: transition_rank)

definition final_status :: "string \<Rightarrow> bool" where
  "final_status st \<longleftrightarrow> st \<notin> {''started'', ''pending'', ''expired''}"

lemma final_absorbing: "final_status s \<Longrightarrow> PaymentTransitionAllowed s t \<Longrightarrow> t = s"
  by (auto simp: final_status_def PaymentTransitionAllowed_def split: if_splits)

lemma confirmed_final [simp]: "final_status ''confirmed''"
  by (simp add: final_status_def)

lemma public_status_cases:
  "PublicStatusFromProvider s = Some t \<Longrightarrow>
   t \<in> {''started'', ''pending'', ''confirmed'', ''failed'', ''cancelled'', ''expired''}"
  by (auto simp: PublicStatusFromProvider_def split: if_splits)

section \<open>Request context (\<^verbatim>\<open>core/observability.go\<close>)\<close>

text \<open>A context is the list of its values, the newest first.\<close>

datatype ctx_key = RequestIDKey | TraceparentKey | TraceKey

type_synonym go_context = "(ctx_key \<times> string) list"

definition ctx_value :: "go_context \<Rightarrow> ctx_key \<Rightarrow> string" where
  "ctx_value ctx k = (case map_of ctx k of Some v \<Rightarrow> v | None \<Rightarrow> '''')"

definition WithObservability :: "go_context \<Rightarrow> string \<Rightarrow> string \<Rightarrow> go_context" where
  "WithObservability ctx requestID traceparent =
     (TraceparentKey, traceparent) # (RequestIDKey, requestID) # ctx"

definition RequestID :: "go_context \<Rightarrow> string" where
  "RequestID ctx = ctx_value ctx RequestIDKey"

definition Traceparent :: "go_context \<Rightarrow> string" where
  "Traceparent ctx = ctx_value ctx TraceparentKey"

lemma observability_roundtrip [simp]:
  "RequestID (WithObservability ctx i t) = i" "Traceparent (WithObservability ctx i t) = t"
  by (simp_all add: RequestID_def Traceparent_def ctx_value_def WithObservability_def)

end
