(* ===== verification/Ident.thy ===== *)
theory Ident
  imports Core_Model
begin

unbundle bit_operations_syntax

text \<open>
  Request hashes and deterministic identifiers: \<^verbatim>\<open>requestHash\<close> and \<^verbatim>\<open>deterministicUUID\<close> of
  \<^verbatim>\<open>app/payments.go\<close>, \<^verbatim>\<open>deterministicID\<close> of \<^verbatim>\<open>adapters/postgres/refunds.go\<close>. SHA-256 and
  \<^verbatim>\<open>json.Marshal\<close> are parameters: \<open>sha256\<close> maps a byte string to its 32 digest bytes.
\<close>

type_synonym digest = "string \<Rightarrow> byte list"

definition requestHash :: "digest \<Rightarrow> ('v \<Rightarrow> string) \<Rightarrow> 'v \<Rightarrow> string" where
  "requestHash sha256 marshal v = hex_encode (sha256 (marshal v))"

text \<open>The version and variant bits of the first 16 digest bytes, then the five groups in \<^verbatim>\<open>%x\<close>.\<close>

definition uuid_bits :: "byte list \<Rightarrow> byte list" where
  "uuid_bits h =
     (let b = take 16 h;
          b = b[6 := (b ! 6 AND 0x0f) OR 0x40];
          b = b[8 := (b ! 8 AND 0x3f) OR 0x80]
      in b)"

definition slice :: "nat \<Rightarrow> nat \<Rightarrow> 'a list \<Rightarrow> 'a list" where
  "slice i j xs = take (j - i) (drop i xs)"

definition format_uuid :: "byte list \<Rightarrow> string" where
  "format_uuid b = hex_encode (slice 0 4 b) @ ''-'' @ hex_encode (slice 4 6 b) @ ''-'' @
     hex_encode (slice 6 8 b) @ ''-'' @ hex_encode (slice 8 10 b) @ ''-'' @ hex_encode (slice 10 16 b)"

definition deterministicUUID :: "digest \<Rightarrow> string \<Rightarrow> string" where
  "deterministicUUID sha256 value = format_uuid (uuid_bits (sha256 value))"

definition deterministicID :: "digest \<Rightarrow> string \<Rightarrow> string" where
  "deterministicID sha256 v = format_uuid (uuid_bits (sha256 v))"

section \<open>The identifiers are version 4 UUIDs\<close>

text \<open>The textual form of RFC 4122 for version 4 and the RFC variant.\<close>

definition uuid_v4 :: "string \<Rightarrow> bool" where
  "uuid_v4 s \<longleftrightarrow> length s = 36
     \<and> (\<forall>i < 36. if i \<in> {8, 13, 18, 23} then s ! i = CHR ''-'' else is_hex (s ! i))
     \<and> s ! 14 = CHR ''4'' \<and> s ! 19 \<in> set ''89ab''"

lemma byte_below:
  assumes "list_all (\<lambda>n. P (word_of_nat n :: byte)) [0..<k]" and "unat x < k"
  shows "P x"
proof -
  have "unat x \<in> set [0..<k]" using assms(2) by simp
  with assms(1) have "P (word_of_nat (unat x))" unfolding list_all_iff by blast
  then show "P x" by simp
qed

lemma and_mask_bound: "unat (x AND m) \<le> unat (m :: byte)"
  by (rule word_and_le1 [THEN word_le_nat_alt [THEN iffD1]])

lemma version_nibble [simp]: "hd (hex_byte ((x AND 0x0f) OR 0x40)) = CHR ''4''"
  by (rule byte_below [where k = 16 and P = "\<lambda>w. hd (hex_byte (w OR 0x40)) = CHR ''4''"], code_simp)
     (use and_mask_bound [of x "0x0f"] in simp)

lemma variant_nibble: "hd (hex_byte ((x AND 0x3f) OR 0x80)) \<in> set ''89ab''"
  by (rule byte_below [where k = 64 and P = "\<lambda>w. hd (hex_byte (w OR 0x80)) \<in> set ''89ab''"], code_simp)
     (use and_mask_bound [of x "0x3f"] in simp)

lemma list16:
  assumes "length b = 16"
  shows "b = [b!0, b!1, b!2, b!3, b!4, b!5, b!6, b!7, b!8, b!9, b!10, b!11, b!12, b!13, b!14, b!15]"
  using assms by (auto simp: numeral_eq_Suc length_Suc_conv)

lemma hex_byte_hex [simp]: "is_hex (hex_byte b ! 0)" "is_hex (hex_byte b ! Suc 0)"
  by (simp_all add: hex_byte_def)

lemma format_uuid_16:
  "format_uuid [b0, b1, b2, b3, b4, b5, b6, b7, b8, b9, b10, b11, b12, b13, b14, b15] =
    hex_byte b0 @ hex_byte b1 @ hex_byte b2 @ hex_byte b3 @ ''-'' @ hex_byte b4 @ hex_byte b5 @ ''-'' @
    hex_byte b6 @ hex_byte b7 @ ''-'' @ hex_byte b8 @ hex_byte b9 @ ''-'' @
    hex_byte b10 @ hex_byte b11 @ hex_byte b12 @ hex_byte b13 @ hex_byte b14 @ hex_byte b15"
  by (simp add: format_uuid_def slice_def)

lemma is_hex_literals:
  "is_hex CHR ''4''" "is_hex CHR ''8''" "is_hex CHR ''9''" "is_hex CHR ''a''" "is_hex CHR ''b''"
  by (simp_all add: is_hex_def)

lemma hex_byte_unfold: "hex_byte b = [hex_digit (unat b div 16), hex_digit (unat b mod 16)]"
  by (simp add: hex_byte_def)

lemma all_below_36:
  "(\<forall>i < 36. P i) \<longleftrightarrow> list_all P [0..<36]"
  by (auto simp: list_all_iff)

lemma format_uuid_v4:
  assumes "length b = 16" and "hd (hex_byte (b ! 6)) = CHR ''4''"
    and "hd (hex_byte (b ! 8)) \<in> set ''89ab''"
  shows "uuid_v4 (format_uuid b)"
  using assms(2,3)
  by (subst list16 [OF assms(1)])
     (auto simp: format_uuid_16 uuid_v4_def all_below_36 upt_rec hex_byte_unfold is_hex_literals)

lemma uuid_bits_v4:
  assumes "16 \<le> length h"
  shows "uuid_v4 (format_uuid (uuid_bits h))"
  using assms
  by (intro format_uuid_v4)
     (use variant_nibble [of "h ! 8"] in \<open>simp_all add: uuid_bits_def Let_def\<close>)

lemma deterministicUUID_v4: "length (sha256 v) = 32 \<Longrightarrow> uuid_v4 (deterministicUUID sha256 v)"
  unfolding deterministicUUID_def by (rule uuid_bits_v4) simp

lemma uuid_v4_nonempty: "uuid_v4 s \<Longrightarrow> s \<noteq> ''''"
  by (auto simp: uuid_v4_def)

lemma deterministicID_eq: "deterministicID sha256 v = deterministicUUID sha256 v"
  by (simp add: deterministicID_def deterministicUUID_def)

text \<open>A toy digest for the examples: the first 32 bytes of the padded text.\<close>

definition ex_sha :: digest where
  "ex_sha v = take 32 (map of_char v @ replicate 32 0)"

lemma length_ex_sha [simp]: "length (ex_sha v) = 32"
  by (simp add: ex_sha_def)

section \<open>Properties\<close>

text \<open>
  C31: every identifier that the program derives, for payments, payouts, refunds, route requests
  and merchant events, is a version 4 UUID in the form of RFC 4122, whatever the seed, when the
  digest has 32 bytes; and the two implementations derive the same identifier from one seed.
\<close>

theorem derived_ids_are_uuids:
  assumes "length (sha256 seed) = 32"
  shows "uuid_v4 (deterministicUUID sha256 seed) \<and> deterministicID sha256 seed = deterministicUUID sha256 seed"
  using deterministicUUID_v4 [of sha256 seed] assms deterministicID_eq by simp

theorem derived_ids_are_uuids_witness:
  "uuid_v4 (deterministicUUID ex_sha ''merchant:payment:key'')"
  by (rule derived_ids_are_uuids [THEN conjunct1]) simp

end
