(* ===== verification/Ports.thy ===== *)
theory Ports
  imports Ident
begin

text \<open>
  \<^verbatim>\<open>core/ports.go\<close>: a Go interface is a record of operations. Store operations act on the
  store's state \<open>'s\<close>. Calls that leave the process (router, connectors, ledger, legacy API) are
  answered by functions of the whole call history, so every remote behaviour is an instance; each
  call is recorded in the history with whether it succeeded.
\<close>

section \<open>Calls to other services\<close>

datatype call =
    CallResolve route_request
  | CallCreatePayment route_decision payment string string
  | CallCreateRefund route_decision payment refund string
  | CallGetRefund route_decision refund
  | CallCreatePayout route_decision payout string
  | CallGetPayout route_decision payout
  | CallDebitRefund string string string string
  | CallCreditFailedRefund string string string string
  | CallDebitPayout string string string string
  | CallCreditFailedPayout string string string string
  | CallLegacyCreate string string string create_refund
  | CallLegacyList string string
  | CallLegacyGet string string
  | CallCreditBalance string string string string
  | CallWebhook string string string string

type_synonym history = "(call \<times> bool) list"

record 's world =
  wstore :: 's
  wcalls :: history

definition ext_call :: "call \<Rightarrow> (history \<Rightarrow> go_error + 'a) \<Rightarrow> ('s world, 'a) go_io" where
  "ext_call c answer w =
     (let r = answer (wcalls w) in (r, w\<lparr>wcalls := wcalls w @ [(c, \<not> isl r)]\<rparr>))"

definition on_store :: "('s, 'a) go_io \<Rightarrow> ('s world, 'a) go_io" where
  "on_store m w = (case m (wstore w) of (r, s') \<Rightarrow> (r, w\<lparr>wstore := s'\<rparr>))"

text \<open>\<^verbatim>\<open>fmt.Errorf("...: %w", err)\<close>.\<close>

definition io_wrap :: "string \<Rightarrow> ('s, 'a) go_io \<Rightarrow> ('s, 'a) go_io" where
  "io_wrap pre m s = (case m s of (Inl e, s') \<Rightarrow> (Inl (ErrWrap pre e ''''), s') | (Inr x, s') \<Rightarrow> (Inr x, s'))"

section \<open>The interfaces\<close>

record router =
  ro_Resolve :: "history \<Rightarrow> route_request \<Rightarrow> go_error + route_decision"

record connector =
  co_CreatePayment :: "history \<Rightarrow> route_decision \<Rightarrow> payment \<Rightarrow> string \<Rightarrow> string \<Rightarrow> go_error + provider_payment"
  co_CreateRefund :: "history \<Rightarrow> route_decision \<Rightarrow> payment \<Rightarrow> refund \<Rightarrow> string \<Rightarrow> go_error + provider_refund"
  co_GetRefund :: "history \<Rightarrow> route_decision \<Rightarrow> refund \<Rightarrow> go_error + provider_refund"

record payout_connector =
  pc_CreatePayout :: "history \<Rightarrow> route_decision \<Rightarrow> payout \<Rightarrow> string \<Rightarrow> go_error + provider_payout"
  pc_GetPayout :: "history \<Rightarrow> route_decision \<Rightarrow> payout \<Rightarrow> go_error + provider_payout"

record legacy_refunds =
  lr_Create :: "history \<Rightarrow> string \<Rightarrow> string \<Rightarrow> string \<Rightarrow> create_refund \<Rightarrow> go_error + (refund \<times> bool)"
  lr_List :: "history \<Rightarrow> string \<Rightarrow> string \<Rightarrow> go_error + refund list"
  lr_Get :: "history \<Rightarrow> string \<Rightarrow> string \<Rightarrow> go_error + refund"

record ledger =
  le_DebitConfirmedRefund :: "history \<Rightarrow> string \<Rightarrow> string \<Rightarrow> string \<Rightarrow> string \<Rightarrow> go_error + unit"
  le_CreditFailedRefund :: "history \<Rightarrow> string \<Rightarrow> string \<Rightarrow> string \<Rightarrow> string \<Rightarrow> go_error + unit"

record payout_ledger =
  pl_DebitPayout :: "history \<Rightarrow> string \<Rightarrow> string \<Rightarrow> string \<Rightarrow> string \<Rightarrow> go_error + unit"
  pl_CreditFailedPayout :: "history \<Rightarrow> string \<Rightarrow> string \<Rightarrow> string \<Rightarrow> string \<Rightarrow> go_error + unit"

record 's payment_store =
  st_BeginCreate :: "string \<Rightarrow> string \<Rightarrow> string \<Rightarrow> string \<Rightarrow> ('s, payment \<times> bool) go_io"
  st_CompleteCreate :: "payment \<Rightarrow> merchant_event \<Rightarrow> string \<Rightarrow> ('s, unit) go_io"
  st_ReleaseCreate :: "string \<Rightarrow> string \<Rightarrow> ('s, unit) go_io"
  st_Get :: "string \<Rightarrow> string \<Rightarrow> string \<Rightarrow> ('s, payment) go_io"
  st_List :: "string \<Rightarrow> string \<Rightarrow> payment_list_options \<Rightarrow> ('s, payment_page) go_io"
  st_ApplyProviderEvent :: "provider_event \<Rightarrow> string \<Rightarrow> ('s, event_result) go_io"

record 's payout_store =
  ps_BeginPayout :: "principal \<Rightarrow> string \<Rightarrow> string \<Rightarrow> string \<Rightarrow> ('s, payout \<times> bool) go_io"
  ps_CompletePayout :: "principal \<Rightarrow> string \<Rightarrow> string \<Rightarrow> create_payout \<Rightarrow> route_decision \<Rightarrow> ('s, payout) go_io"
  ps_ReleasePayout :: "string \<Rightarrow> string \<Rightarrow> ('s, unit) go_io"
  ps_GetPayout :: "principal \<Rightarrow> string \<Rightarrow> ('s, payout) go_io"
  ps_ListPayouts :: "principal \<Rightarrow> payout_list_options \<Rightarrow> ('s, payout_page) go_io"
  ps_ClaimPayouts :: "int \<Rightarrow> ('s, payout list) go_io"
  ps_TransitionPayout :: "string \<Rightarrow> string \<Rightarrow> jmap \<Rightarrow> ('s, payout) go_io"

record 's payout_event_store =
  pe_ResolvePayoutProviderEvent :: "provider_event \<Rightarrow> ('s, provider_event) go_io"
  pe_ApplyPayoutProviderEvent :: "provider_event \<Rightarrow> string \<Rightarrow> ('s, event_result) go_io"

record 's refund_store =
  rs_CreateRefund :: "principal \<Rightarrow> string \<Rightarrow> string \<Rightarrow> create_refund \<Rightarrow> ('s, refund \<times> bool) go_io"
  rs_GetRefund :: "principal \<Rightarrow> string \<Rightarrow> ('s, refund) go_io"
  rs_ListRefunds :: "principal \<Rightarrow> string \<Rightarrow> ('s, refund list) go_io"
  rs_ClaimRefunds :: "int \<Rightarrow> ('s, refund list) go_io"
  rs_TransitionRefund :: "string \<Rightarrow> string \<Rightarrow> jmap \<Rightarrow> ('s, refund) go_io"

record 's authenticator =
  au_Authenticate :: "string \<Rightarrow> ('s, principal) go_io"
  au_ResolveMerchant :: "principal \<Rightarrow> string \<Rightarrow> ('s, string) go_io"

section \<open>Lemmas\<close>

lemma ext_call_result [simp]: "fst (ext_call c f w) = f (wcalls w)"
  by (simp add: ext_call_def Let_def)

lemma ext_call_store [simp]: "wstore (snd (ext_call c f w)) = wstore w"
  by (simp add: ext_call_def Let_def)

lemma ext_callD:
  "ext_call c f w = (r, w') \<Longrightarrow> r = f (wcalls w) \<and> w' = w\<lparr>wcalls := wcalls w @ [(c, \<not> isl r)]\<rparr>"
  by (auto simp: ext_call_def Let_def)

lemma ext_call_InrD:
  "ext_call c f w = (Inr x, w') \<Longrightarrow> f (wcalls w) = Inr x \<and> w' = w\<lparr>wcalls := wcalls w @ [(c, True)]\<rparr>"
  by (auto simp: ext_call_def Let_def)

lemma ext_call_InlD:
  "ext_call c f w = (Inl e, w') \<Longrightarrow> f (wcalls w) = Inl e \<and> w' = w\<lparr>wcalls := wcalls w @ [(c, False)]\<rparr>"
  by (auto simp: ext_call_def Let_def)

lemma on_storeD:
  "on_store m w = (r, w') \<Longrightarrow> \<exists>s'. m (wstore w) = (r, s') \<and> w' = w\<lparr>wstore := s'\<rparr>"
  by (auto simp: on_store_def split: prod.splits)

lemma on_store_eq [simp]: "m (wstore w) = (r, s') \<Longrightarrow> on_store m w = (r, w\<lparr>wstore := s'\<rparr>)"
  by (simp add: on_store_def)

lemma io_wrapE:
  assumes "io_wrap pre m s = (r, s')"
  obtains (error) e where "m s = (Inl e, s')" and "r = Inl (ErrWrap pre e '''')"
    | (ok) x where "m s = (Inr x, s')" and "r = Inr x"
  using assms by (auto simp: io_wrap_def split: prod.splits sum.splits)

lemma io_wrap_InrD: "io_wrap pre m s = (Inr x, s') \<Longrightarrow> m s = (Inr x, s')"
  by (auto simp: io_wrap_def split: prod.splits sum.splits)

lemma io_wrap_InlD: "io_wrap pre m s = (Inl e, s') \<Longrightarrow> \<exists>e'. m s = (Inl e', s') \<and> e = ErrWrap pre e' ''''"
  by (auto simp: io_wrap_def split: prod.splits sum.splits)

end
