(* ===== verification/Store_Contract.thy ===== *)
theory Store_Contract
  imports Ports
begin

text \<open>
  What the services rely on from a \<^verbatim>\<open>core.PaymentStore\<close> and a \<^verbatim>\<open>core.Authenticator\<close>, stated once as
  locales. \<open>slot s m k\<close> is the idempotency record of merchant \<open>m\<close> and key \<open>k\<close>: request hash,
  transaction identifier and whether the creation is complete. \<open>saved s m t\<close> is the payment \<open>t\<close>
  of merchant \<open>m\<close> as the store would replay it, and \<open>reread\<close> maps a payment to what is read again.
  \<open>tx_ok t\<close> says that the store keeps the identifier \<open>t\<close> as it is.
  \<open>same\<close> relates states that differ in bookkeeping only, and \<open>up s\<close> says that no later store call fails for reasons of infrastructure.
\<close>

type_synonym idem_slot = "string \<times> string \<times> bool"

locale payment_store =
  fixes st :: "'s payment_store"
    and slot :: "'s \<Rightarrow> string \<Rightarrow> string \<Rightarrow> idem_slot option"
    and saved :: "'s \<Rightarrow> string \<Rightarrow> string \<Rightarrow> payment option"
    and reread :: "payment \<Rightarrow> payment"
    and same :: "'s \<Rightarrow> 's \<Rightarrow> bool"
    and inv :: "'s \<Rightarrow> bool"
    and up :: "'s \<Rightarrow> bool"
    and tx_ok :: "string \<Rightarrow> bool"
  assumes same_refl: "same s s"
    and same_trans: "same s s1 \<Longrightarrow> same s1 s2 \<Longrightarrow> same s s2"
    and same_views: "same s s' \<Longrightarrow> slot s' = slot s \<and> saved s' = saved s"
    and begin_keeps: "inv s \<Longrightarrow> st_BeginCreate st m k h t s = (r, s') \<Longrightarrow> inv s' \<and> (up s \<longrightarrow> up s')"
    and begin_error: "inv s \<Longrightarrow> st_BeginCreate st m k h t s = (Inl er, s') \<Longrightarrow> same s s'"
    and begin_fresh: "inv s \<Longrightarrow> tx_ok t \<Longrightarrow> st_BeginCreate st m k h t s = (Inr (p, False), s') \<Longrightarrow>
      slot s m k = None \<and> slot s' m k = Some (h, t, False) \<and> saved s' = saved s"
    and begin_replay: "inv s \<Longrightarrow> m \<noteq> '''' \<Longrightarrow> st_BeginCreate st m k h t s = (Inr (p, True), s') \<Longrightarrow>
      (\<exists>t'. slot s m k = Some (h, t', True) \<and> saved s m t' = Some p) \<and> same s s'"
    and begin_taken: "inv s \<Longrightarrow> up s \<Longrightarrow> tx_ok t \<Longrightarrow> m \<noteq> '''' \<Longrightarrow> slot s m k = Some (h', t', c) \<Longrightarrow>
      st_BeginCreate st m k h t s = (r, s') \<Longrightarrow>
      (h \<noteq> h' \<longrightarrow> r = Inl ErrConflict) \<and> (h = h' \<longrightarrow> \<not> c \<longrightarrow> r = Inl ErrInProgress) \<and>
      (h = h' \<longrightarrow> c \<longrightarrow> (\<exists>p. r = Inr (p, True)))"
    and begin_free: "inv s \<Longrightarrow> up s \<Longrightarrow> tx_ok t \<Longrightarrow> slot s m k = None \<Longrightarrow> st_BeginCreate st m k h t s = (r, s') \<Longrightarrow>
      (\<exists>p. r = Inr (p, False))"
    and complete_keeps: "inv s \<Longrightarrow> st_CompleteCreate st p e k s = (rc, s') \<Longrightarrow> inv s' \<and> (up s \<longrightarrow> up s')"
    and complete_error: "inv s \<Longrightarrow> st_CompleteCreate st p e k s = (Inl er, s') \<Longrightarrow> same s s'"
    and complete_ok: "inv s \<Longrightarrow> slot s (pay_MerchantID p) k = Some (h, pay_TransactionID p, False) \<Longrightarrow>
      pay_MerchantID p \<noteq> '''' \<Longrightarrow> st_CompleteCreate st p e k s = (Inr u, s') \<Longrightarrow>
      slot s' (pay_MerchantID p) k = Some (h, pay_TransactionID p, True) \<and>
      saved s' (pay_MerchantID p) (pay_TransactionID p) = Some (reread p)"
    and release_keeps: "inv s \<Longrightarrow> st_ReleaseCreate st m k s = (rr, s') \<Longrightarrow> inv s' \<and> (up s \<longrightarrow> up s')"
    and release_undoes: "inv s \<Longrightarrow> st_BeginCreate st m k h t s = (Inr (p, False), s1) \<Longrightarrow> same s1 s2 \<Longrightarrow>
      inv s2 \<Longrightarrow> up s2 \<Longrightarrow> st_ReleaseCreate st m k s2 = (rr, s') \<Longrightarrow> same s s'"

text \<open>A payment service also resolves the merchant of a request, without changing the store.\<close>

locale payment_service = payment_store st slot saved reread same inv up tx_ok
  for st :: "'s payment_store" and slot saved reread same inv up tx_ok +
  fixes merchants :: "'s authenticator"
  assumes resolve_keeps: "inv s \<Longrightarrow> au_ResolveMerchant merchants pr req s = (ra, s') \<Longrightarrow>
      inv s' \<and> (up s \<longrightarrow> up s') \<and> same s s'"
    and resolve_nonempty: "inv s \<Longrightarrow> au_ResolveMerchant merchants pr req s = (Inr m, s') \<Longrightarrow> m \<noteq> ''''"

text \<open>
  The consumer of provider events: \<open>seen s i\<close> says that event \<open>i\<close> is recorded, \<open>status s t\<close> is the
  public status of payment \<open>t\<close>, and \<open>event_ok e\<close> says that the store can record \<open>e\<close>. Several spellings
  may name the payment of an event; they all get the new status.
\<close>

locale event_store =
  fixes st :: "'s payment_store"
    and status :: "'s \<Rightarrow> string \<Rightarrow> string option"
    and seen :: "'s \<Rightarrow> string \<Rightarrow> bool"
    and inv :: "'s \<Rightarrow> bool"
    and up :: "'s \<Rightarrow> bool"
    and event_ok :: "provider_event \<Rightarrow> bool"
    and same :: "'s \<Rightarrow> 's \<Rightarrow> bool"
  assumes apply_keeps: "inv s \<Longrightarrow> st_ApplyProviderEvent st e i s = (r, s') \<Longrightarrow> inv s' \<and> (up s \<longrightarrow> up s')"
    and apply_error: "inv s \<Longrightarrow> st_ApplyProviderEvent st e i s = (Inl er, s') \<Longrightarrow>
      status s' = status s \<and> seen s' = seen s"
    and apply_event_ok: "inv s \<Longrightarrow> st_ApplyProviderEvent st e i s = (Inr x, s') \<Longrightarrow> event_ok e"
    and apply_duplicate: "inv s \<Longrightarrow> seen s (ev_EventID e) \<Longrightarrow> st_ApplyProviderEvent st e i s = (Inr x, s') \<Longrightarrow>
      x = zero_result\<lparr>er_Duplicate := True\<rparr> \<and> status s' = status s \<and> seen s' = seen s \<and> same s s'"
    and apply_duplicate_ok: "inv s \<Longrightarrow> up s \<Longrightarrow> event_ok e \<Longrightarrow> seen s (ev_EventID e) \<Longrightarrow>
      st_ApplyProviderEvent st e i s = (r, s') \<Longrightarrow> (\<exists>x. r = Inr x)"
    and apply_new: "inv s \<Longrightarrow> \<not> seen s (ev_EventID e) \<Longrightarrow> st_ApplyProviderEvent st e i s = (Inr x, s') \<Longrightarrow>
      \<not> er_Duplicate x \<and> seen s' = (seen s)(ev_EventID e := True) \<and>
      (\<exists>old T. ev_TransactionID e \<in> T \<and> (\<forall>t \<in> T. status s t = Some old) \<and>
        status s' = (\<lambda>t. if t \<in> T then Some (er_Status x) else status s t) \<and>
        PaymentTransitionAllowed old (er_Status x) \<and> (er_Changed x \<longleftrightarrow> er_Status x \<noteq> old) \<and>
        (er_Changed x \<longrightarrow> PublicStatusFromProvider (ed_Status (ev_Data e)) = Some (er_Status x)))"
begin

lemma apply_status_allowed:
  assumes "inv s" and "st_ApplyProviderEvent st e i s = (r, s')" and "status s t = Some old"
  shows "\<exists>new. status s' t = Some new \<and> PaymentTransitionAllowed old new"
proof (cases r)
  case (Inl er)
  with assms show ?thesis using apply_error by fastforce
next
  case (Inr x)
  show ?thesis
  proof (cases "seen s (ev_EventID e)")
    case True
    with assms Inr have "status s' = status s" using apply_duplicate by blast
    with assms(3) show ?thesis by simp
  next
    case False
    obtain old' T where T: "\<forall>u \<in> T. status s u = Some old'"
      "status s' = (\<lambda>u. if u \<in> T then Some (er_Status x) else status s u)" "PaymentTransitionAllowed old' (er_Status x)"
      using apply_new [OF assms(1) False assms(2) [unfolded Inr]] by auto
    show ?thesis
    proof (cases "t \<in> T")
      case True
      with T(1) assms(3) have "old' = old" by simp
      with True T(2,3) show ?thesis by simp
    next
      case False
      with T(2) assms(3) show ?thesis by simp
    qed
  qed
qed

end

end
