(* ===== verification/Pg_Tables.thy ===== *)
theory Pg_Tables
  imports Store_Contract Complex_Main
begin

text \<open>
  The PostgreSQL database behind \<^verbatim>\<open>internal/adapters/postgres\<close>: the tables of
  \<^verbatim>\<open>migrations/001_initial.sql\<close> and the shared V1 tables that the SQL text names, as lists of rows
  in insertion order, and the calls and transactions by which the adapter reaches them. A column
  that may be \<^verbatim>\<open>NULL\<close> is an \<open>option\<close>; a JSONB column holds the value it encodes.
\<close>

section \<open>Rows\<close>

record idem_row =
  ix_merchant_id :: string
  ix_idempotency_key :: string
  ix_request_hash :: string
  ix_resource_id :: string
  ix_status :: string

record payment_row =
  py_transaction_id :: string
  py_account_id :: string
  py_merchant_id :: string
  py_external_id :: string
  py_status :: string
  py_amount :: string
  py_currency :: string
  py_payment_method :: string
  py_description :: "string option"
  py_creation_date :: time
  py_expiration_date :: time
  py_action_url :: string
  py_customer :: jmap
  py_metadata :: jmap
  py_payment_data :: jmap
  py_provider_payment_id :: string
  py_provider_reference :: "string option"
  py_route_decision :: route_decision
  py_resource_version :: int64

record provider_event_row =
  pv_event_id :: string
  pv_event_type :: string
  pv_transaction_id :: "string option"
  pv_payout_id :: "string option"
  pv_provider :: string
  pv_source :: string
  pv_payload :: provider_event
  pv_changed_state :: bool

record refund_row =
  rr_refund_id :: string
  rr_transaction_id :: string
  rr_account_id :: string
  rr_merchant_id :: string
  rr_external_id :: string
  rr_idempotency_key :: string
  rr_request_hash :: string
  rr_status :: string
  rr_amount :: string
  rr_currency :: string
  rr_reason :: "string option"
  rr_metadata :: jmap
  rr_provider_refund_id :: "string option"
  rr_provider_status :: "string option"
  rr_balance_debited :: bool
  rr_provider_submitted :: bool
  rr_resource_version :: int64
  rr_attempt_count :: int
  rr_next_attempt_at :: time
  rr_last_error :: "string option"
  rr_creation_date :: time
  rr_completion_date :: "time option"

record payout_row =
  pu_payout_id :: string
  pu_account_id :: string
  pu_merchant_id :: string
  pu_external_id :: string
  pu_idempotency_key :: string
  pu_request_hash :: string
  pu_status :: string
  pu_source_amount :: string
  pu_source_currency :: string
  pu_destination :: payout_destination
  pu_pricing :: jmap
  pu_remitter :: jmap
  pu_description :: "string option"
  pu_metadata :: jmap
  pu_provider_payout_id :: "string option"
  pu_provider_reference :: "string option"
  pu_provider_status :: "string option"
  pu_route_decision :: route_decision
  pu_balance_debited :: bool
  pu_provider_submitted :: bool
  pu_resource_version :: int64
  pu_attempt_count :: int
  pu_next_attempt_at :: time
  pu_last_error :: "string option"
  pu_creation_date :: time
  pu_confirmation_date :: "time option"
  pu_failure_date :: "time option"
  pu_cancellation_date :: "time option"
  pu_reversal_date :: "time option"

text \<open>The shared V1 tables: the columns that the SQL of this program reads or writes.\<close>

record webhook_row =
  wh_id :: string
  wh_account_id :: string
  wh_merchant_id :: "string option"
  wh_api_version :: string
  wh_webhook_url :: string
  wh_webhook_secret :: "string option"

record delivery_row =
  dl_id :: nat
  dl_webhook_id :: string
  dl_event_id :: string
  dl_event_type :: string
  dl_payload :: event_payload
  dl_status :: string
  dl_attempt_count :: int
  dl_next_attempt_at :: time
  dl_created_at :: time
  dl_delivered_at :: "time option"
  dl_last_error :: "string option"

record outbox_row =
  ob_id :: nat
  ob_ref_type :: string
  ob_ref_id :: string
  ob_account_id :: string
  ob_amount :: string
  ob_currency :: string
  ob_sent :: bool
  ob_attempt_count :: int
  ob_next_attempt_at :: time
  ob_created_at :: time
  ob_sent_at :: "time option"
  ob_last_error :: "string option"

record legacy_row =
  lg_id :: string
  lg_account_id :: "string option"
  lg_merchant_id :: string
  lg_external_id :: "string option"
  lg_status :: string
  lg_amount :: string
  lg_currency :: string
  lg_provider :: string
  lg_description :: "string option"
  lg_created_at :: time
  lg_expiration :: "time option"
  lg_action_url :: "string option"
  lg_customer :: jmap
  lg_metadata :: jmap
  lg_qr_data :: "string option"
  lg_coinag_reference :: "string option"

record account_row =
  ac_id :: string
  ac_status :: string

record merchant_row =
  mr_id :: string
  mr_account_id :: string
  mr_status :: string
  mr_created_at :: time

record api_key_row =
  ak_key_hash :: string
  ak_account_id :: string
  ak_merchant_id :: "string option"
  ak_scopes :: "string list option"
  ak_revoked_at :: "time option"
  ak_expires_at :: "time option"
  ak_environment :: "string option"
  ak_allowed_api_versions :: "string list option"

section \<open>The database and its calls\<close>

record pgdb =
  db_idempotency :: "idem_row list"
  db_payments :: "payment_row list"
  db_provider_events :: "provider_event_row list"
  db_refunds :: "refund_row list"
  db_payouts :: "payout_row list"
  db_payout_idempotency :: "idem_row list"
  db_webhooks :: "webhook_row list"
  db_deliveries :: "delivery_row list"
  db_balance_outbox :: "outbox_row list"
  db_legacy_payments :: "legacy_row list"
  db_accounts :: "account_row list"
  db_merchants :: "merchant_row list"
  db_api_keys :: "api_key_row list"

definition empty_db :: pgdb where
  "empty_db = \<lparr>db_idempotency = [], db_payments = [], db_provider_events = [], db_refunds = [],
     db_payouts = [], db_payout_idempotency = [], db_webhooks = [], db_deliveries = [],
     db_balance_outbox = [], db_legacy_payments = [], db_accounts = [], db_merchants = [], db_api_keys = []\<rparr>"

text \<open>
  \<open>pg_tick\<close> counts the calls made so far. The environment says for each call whether it fails
  (\<open>en_down\<close>: a lost connection, a timeout, a statement the server refuses) and what \<^verbatim>\<open>now()\<close> is.
  It also holds what the program uses of PostgreSQL itself: the cast of a text to \<^verbatim>\<open>numeric\<close> and to
  \<^verbatim>\<open>uuid\<close> (\<open>None\<close> is an error; a \<^verbatim>\<open>uuid\<close> is given by its canonical text), \<^verbatim>\<open>UPPER\<close>, the text of a
  JSON array or object, the program's own clock (\<open>en_wall\<close>), SHA-256, and the JSON text of a
  page cursor.
\<close>

record pgstate =
  pg_db :: pgdb
  pg_tick :: nat

record pg_env =
  en_down :: "nat \<Rightarrow> bool"
  en_clock :: "nat \<Rightarrow> time"
  en_numeric :: "string \<Rightarrow> rat option"
  en_uuid :: "string \<Rightarrow> string option"
  en_upper :: "string \<Rightarrow> string"
  en_json_text :: "json \<Rightarrow> string"
  en_wall :: "nat \<Rightarrow> time"
  en_sha256 :: digest
  en_marshal_refund :: "create_refund \<Rightarrow> string"
  en_marshal_cursor :: "time \<times> string \<Rightarrow> string"
  en_unmarshal_cursor :: "string \<Rightarrow> (time \<times> string) option"

definition db_error :: go_error where
  "db_error = ErrOther ''database error''"

definition no_rows :: go_error where
  "no_rows = ErrOther ''no rows in result set''"

text \<open>One statement outside a transaction; it sees \<^verbatim>\<open>now()\<close> and the tables.\<close>

definition db_call :: "pg_env \<Rightarrow> (time \<Rightarrow> pgdb \<Rightarrow> go_error + ('a \<times> pgdb)) \<Rightarrow> (pgstate, 'a) go_io" where
  "db_call E f s =
     (let k = pg_tick s in
      if en_down E k then (Inl db_error, s\<lparr>pg_tick := Suc k\<rparr>)
      else case f (pg_time (en_clock E k)) (pg_db s) of
        Inl e \<Rightarrow> (Inl e, s\<lparr>pg_tick := Suc k\<rparr>)
      | Inr (x, db) \<Rightarrow> (Inr x, \<lparr>pg_db = db, pg_tick = Suc k\<rparr>))"

definition db_begin :: "pg_env \<Rightarrow> (pgstate, time) go_io" where
  "db_begin E = db_call E (\<lambda>now db. Inr (now, db))"

definition db_commit :: "pg_env \<Rightarrow> (pgstate, unit) go_io" where
  "db_commit E = db_call E (\<lambda>_ db. Inr ((), db))"

text \<open>
  \<^verbatim>\<open>Begin\<close>, the body, \<^verbatim>\<open>Commit\<close>; every error, that of \<^verbatim>\<open>Commit\<close> included, rolls back. \<^verbatim>\<open>now()\<close> is the
  time of \<^verbatim>\<open>Begin\<close> throughout. A transaction is one step: the rows it decides on are locked.
\<close>

definition db_tx :: "pg_env \<Rightarrow> (time \<Rightarrow> (pgstate, 'a) go_io) \<Rightarrow> (pgstate, 'a) go_io" where
  "db_tx E body s =
     (case db_begin E s of
        (Inl e, s1) \<Rightarrow> (Inl e, s1)
      | (Inr now, s1) \<Rightarrow>
          (case body now s1 of
             (Inl e, s2) \<Rightarrow> (Inl e, s2\<lparr>pg_db := pg_db s1\<rparr>)
           | (Inr x, s2) \<Rightarrow>
               (case db_commit E s2 of
                  (Inl e, s3) \<Rightarrow> (Inl e, s3\<lparr>pg_db := pg_db s1\<rparr>)
                | (Inr _, s3) \<Rightarrow> (Inr x, s3))))"

text \<open>A statement inside a transaction: it uses the transaction's \<^verbatim>\<open>now()\<close>.\<close>

definition db_query :: "pg_env \<Rightarrow> (pgdb \<Rightarrow> go_error + 'a) \<Rightarrow> (pgstate, 'a) go_io" where
  "db_query E f = db_call E (\<lambda>_ db. case f db of Inl e \<Rightarrow> Inl e | Inr x \<Rightarrow> Inr (x, db))"

definition db_exec :: "pg_env \<Rightarrow> (pgdb \<Rightarrow> go_error + ('a \<times> pgdb)) \<Rightarrow> (pgstate, 'a) go_io" where
  "db_exec E f = db_call E (\<lambda>_ db. f db)"

text \<open>\<^verbatim>\<open>time.Now().UTC()\<close> in the adapter.\<close>

definition nowUTC :: "pg_env \<Rightarrow> (pgstate, time) go_io" where
  "nowUTC E s = (Inr (en_wall E (pg_tick s)), s)"

definition pg_up :: "pg_env \<Rightarrow> pgstate \<Rightarrow> bool" where
  "pg_up E s \<longleftrightarrow> (\<forall>n \<ge> pg_tick s. \<not> en_down E n)"

section \<open>SQL idioms\<close>

text \<open>\<^verbatim>\<open>NULLIF(x,'')\<close>, \<^verbatim>\<open>COALESCE(c,'')\<close> and \<^verbatim>\<open>COALESCE(NULLIF(x,''),c)\<close>.\<close>

definition nullif :: "string \<Rightarrow> string option" where
  "nullif x = (if x = '''' then None else Some x)"

definition coalesce :: "string option \<Rightarrow> string" where
  "coalesce c = (case c of None \<Rightarrow> '''' | Some x \<Rightarrow> x)"

definition keep_unless :: "string \<Rightarrow> string option \<Rightarrow> string option" where
  "keep_unless x c = (if x = '''' then c else Some x)"

lemma coalesce_nullif [simp]: "coalesce (nullif x) = x"
  by (simp add: coalesce_def nullif_def)

text \<open>The visibility test of the queries on payments; payouts and refunds leave out \<^verbatim>\<open>$3<>''\<close>.\<close>

definition scope_strict :: "string \<Rightarrow> string \<Rightarrow> string \<Rightarrow> string \<Rightarrow> bool" where
  "scope_strict merchantID accountID row_merchant row_account \<longleftrightarrow>
     (merchantID \<noteq> '''' \<and> row_merchant = merchantID) \<or>
     (merchantID = '''' \<and> accountID \<noteq> '''' \<and> row_account = accountID)"

definition scope :: "string \<Rightarrow> string \<Rightarrow> string \<Rightarrow> string \<Rightarrow> bool" where
  "scope merchantID accountID row_merchant row_account \<longleftrightarrow>
     (merchantID \<noteq> '''' \<and> row_merchant = merchantID) \<or> (merchantID = '''' \<and> row_account = accountID)"

text \<open>
  \<^verbatim>\<open>INSERT INTO webhook_deliveries ... SELECT id,... FROM webhooks WHERE ... ON CONFLICT DO NOTHING\<close>:
  one pending delivery for each V2 registration of the merchant, or of the account as a whole.
\<close>

definition webhook_target :: "string \<Rightarrow> string \<Rightarrow> webhook_row \<Rightarrow> bool" where
  "webhook_target merchantID accountID w \<longleftrightarrow>
     wh_api_version w = ''2'' \<and> wh_webhook_secret w \<noteq> None \<and> wh_webhook_secret w \<noteq> Some '''' \<and>
     (wh_merchant_id w = Some merchantID \<or> (wh_account_id w = accountID \<and> wh_merchant_id w = None))"

definition new_delivery :: "time \<Rightarrow> string \<Rightarrow> string \<Rightarrow> event_payload \<Rightarrow> nat \<Rightarrow> webhook_row \<Rightarrow> delivery_row" where
  "new_delivery now eventID eventType payload n w =
     \<lparr>dl_id = n, dl_webhook_id = wh_id w, dl_event_id = eventID, dl_event_type = eventType,
      dl_payload = payload, dl_status = ''pending'', dl_attempt_count = 0, dl_next_attempt_at = now,
      dl_created_at = now, dl_delivered_at = None, dl_last_error = None\<rparr>"

definition insert_delivery :: "time \<Rightarrow> string \<Rightarrow> string \<Rightarrow> event_payload \<Rightarrow> webhook_row \<Rightarrow> delivery_row list \<Rightarrow> delivery_row list" where
  "insert_delivery now eventID eventType payload w ds =
     (if sql_conflict (\<lambda>d. (dl_webhook_id d, dl_event_id d)) (wh_id w, eventID) ds then ds
      else ds @ [new_delivery now eventID eventType payload (length ds) w])"

definition fan_out :: "time \<Rightarrow> string \<Rightarrow> string \<Rightarrow> string \<Rightarrow> string \<Rightarrow> event_payload \<Rightarrow> pgdb \<Rightarrow> pgdb" where
  "fan_out now merchantID accountID eventID eventType payload db =
     db\<lparr>db_deliveries := fold (insert_delivery now eventID eventType payload)
          (filter (webhook_target merchantID accountID) (db_webhooks db)) (db_deliveries db)\<rparr>"

section \<open>Lemmas\<close>

lemma db_callE:
  assumes "db_call E f s = (r, s')"
  obtains (down) "r = Inl db_error" "s' = s\<lparr>pg_tick := Suc (pg_tick s)\<rparr>" "en_down E (pg_tick s)"
    | (refused) e where "f (pg_time (en_clock E (pg_tick s))) (pg_db s) = Inl e" "r = Inl e"
        "s' = s\<lparr>pg_tick := Suc (pg_tick s)\<rparr>" "\<not> en_down E (pg_tick s)"
    | (ok) x db where "f (pg_time (en_clock E (pg_tick s))) (pg_db s) = Inr (x, db)" "r = Inr x"
        "s' = \<lparr>pg_db = db, pg_tick = Suc (pg_tick s)\<rparr>" "\<not> en_down E (pg_tick s)"
  using assms by (auto simp: db_call_def Let_def split: if_splits sum.splits)

lemma db_call_tick: "pg_tick (snd (db_call E f s)) = Suc (pg_tick s)"
  by (auto simp: db_call_def Let_def split: sum.splits)

lemma pg_up_later: "pg_up E s \<Longrightarrow> pg_tick s \<le> pg_tick s' \<Longrightarrow> pg_up E s'"
  by (auto simp: pg_up_def)

lemma pg_up_now: "pg_up E s \<Longrightarrow> \<not> en_down E (pg_tick s)"
  by (simp add: pg_up_def)

text \<open>Every operation only lets the call counter grow, and an operation that fails in a
  transaction leaves the tables alone.\<close>

definition ticks :: "(pgstate, 'a) go_io \<Rightarrow> bool" where
  "ticks m \<longleftrightarrow> (\<forall>s. pg_tick s \<le> pg_tick (snd (m s)))"

lemma ticksD: "ticks m \<Longrightarrow> m s = (r, s') \<Longrightarrow> pg_tick s \<le> pg_tick s'"
  by (metis ticks_def snd_conv)

lemma ticks_db_call [simp, intro]: "ticks (db_call E f)"
  by (simp add: ticks_def db_call_tick)

lemma ticks_db_begin [simp, intro]: "ticks (db_begin E)"
  by (simp add: db_begin_def)

lemma ticks_db_commit [simp, intro]: "ticks (db_commit E)"
  by (simp add: db_commit_def)

lemma ticks_db_query [simp, intro]: "ticks (db_query E f)"
  by (simp add: db_query_def)

lemma ticks_db_exec [simp, intro]: "ticks (db_exec E f)"
  by (simp add: db_exec_def)

lemma ticks_return [simp, intro]: "ticks (io_return x)"
  by (simp add: ticks_def io_simps)

lemma ticks_nowUTC [simp, intro]: "ticks (nowUTC E)"
  by (simp add: ticks_def nowUTC_def)

lemma ticks_fail [simp, intro]: "ticks (io_fail e)"
  by (simp add: ticks_def io_simps)

lemma ticks_bind [intro]: "ticks m \<Longrightarrow> (\<And>x. ticks (f x)) \<Longrightarrow> ticks (io_bind m f)"
  unfolding ticks_def io_bind_def
  by (auto split: prod.splits sum.splits) (metis order_trans snd_conv)+

lemma ticks_db_tx [intro]:
  assumes "\<And>now. ticks (body now)"
  shows "ticks (db_tx E body)"
  unfolding ticks_def
proof
  fix s
  obtain r1 s1 where 1: "db_begin E s = (r1, s1)" by force
  then have le1: "pg_tick s \<le> pg_tick s1" by (rule ticksD [OF ticks_db_begin])
  show "pg_tick s \<le> pg_tick (snd (db_tx E body s))"
  proof (cases r1)
    case (Inr now)
    obtain r2 s2 where 2: "body now s1 = (r2, s2)" by force
    then have le2: "pg_tick s1 \<le> pg_tick s2" by (rule ticksD [OF assms])
    obtain r3 s3 where 3: "db_commit E s2 = (r3, s3)" by force
    then have le3: "pg_tick s2 \<le> pg_tick s3" by (rule ticksD [OF ticks_db_commit])
    show ?thesis
      using 1 2 3 Inr le1 le2 le3 by (simp add: db_tx_def split: sum.splits)
  qed (use 1 le1 in \<open>simp add: db_tx_def\<close>)
qed

lemma ticks_up: "ticks m \<Longrightarrow> m s = (r, s') \<Longrightarrow> pg_up E s \<Longrightarrow> pg_up E s'"
  by (auto dest: ticksD intro: pg_up_later)

text \<open>The outcome of a transaction.\<close>

lemma db_txE:
  assumes "db_tx E body s = (r, s')"
  obtains (error) e where "r = Inl e" "pg_db s' = pg_db s"
    | (committed) now s1 x s2 where "now = pg_time (en_clock E (pg_tick s))" "pg_db s1 = pg_db s"
        "pg_tick s1 = Suc (pg_tick s)" "body now s1 = (Inr x, s2)"
        "r = Inr x" "pg_db s' = pg_db s2"
proof -
  obtain r1 s1 where 1: "db_begin E s = (r1, s1)" by force
  then have db1: "pg_db s1 = pg_db s" "pg_tick s1 = Suc (pg_tick s)" by (auto simp: db_begin_def elim!: db_callE)
  show thesis
  proof (cases r1)
    case (Inl e)
    with 1 assms db1 have "r = Inl e" "pg_db s' = pg_db s" by (auto simp: db_tx_def)
    then show thesis by (rule error)
  next
    case (Inr now)
    with 1 have now: "now = pg_time (en_clock E (pg_tick s))" by (auto simp: db_begin_def elim!: db_callE)
    obtain r2 s2 where 2: "body now s1 = (r2, s2)" by force
    obtain r3 s3 where 3: "db_commit E s2 = (r3, s3)" by force
    then have db3: "pg_db s3 = pg_db s2" by (auto simp: db_commit_def elim!: db_callE)
    show thesis
    proof (cases r2)
      case (Inl e)
      with 1 2 assms Inr db1 have "r = Inl e" "pg_db s' = pg_db s" by (auto simp: db_tx_def)
      then show thesis by (rule error)
    next
      case r2: (Inr x)
      show thesis
      proof (cases r3)
        case (Inl e)
        with 1 2 3 assms Inr r2 db1 have "r = Inl e" "pg_db s' = pg_db s" by (auto simp: db_tx_def)
        then show thesis by (rule error)
      next
        case r3: (Inr u)
        with 1 2 3 assms Inr r2 db3 have "r = Inr x" "pg_db s' = pg_db s2" by (auto simp: db_tx_def)
        with now db1 2 r2 show thesis by (intro committed [of now s1 x s2]) auto
      qed
    qed
  qed
qed

lemma db_tx_error: "db_tx E body s = (Inl e, s') \<Longrightarrow> pg_db s' = pg_db s"
  by (erule db_txE) auto

text \<open>Without faults a transaction commits exactly when its body succeeds.\<close>

lemma db_call_up:
  "pg_up E s \<Longrightarrow> db_call E f s =
     (case f (pg_time (en_clock E (pg_tick s))) (pg_db s) of
        Inl e \<Rightarrow> (Inl e, s\<lparr>pg_tick := Suc (pg_tick s)\<rparr>)
      | Inr (x, db) \<Rightarrow> (Inr x, \<lparr>pg_db = db, pg_tick = Suc (pg_tick s)\<rparr>))"
  by (simp add: db_call_def Let_def pg_up_now)

lemma db_tx_up:
  assumes "pg_up E s" and "\<And>now. ticks (body now)"
    and "body (pg_time (en_clock E (pg_tick s))) \<lparr>pg_db = pg_db s, pg_tick = Suc (pg_tick s)\<rparr> = (r, s2)"
  shows "fst (db_tx E body s) = r"
proof -
  have "pg_up E s2"
    using assms(1) ticksD [OF assms(2) assms(3)] by (auto intro: pg_up_later)
  with assms(1,3) show ?thesis
    by (auto simp: db_tx_def db_begin_def db_commit_def db_call_up split: sum.splits)
qed

lemma db_queryE:
  assumes "db_query E f s = (r, s')"
  obtains (error) e where "r = Inl e" "pg_db s' = pg_db s" "e = db_error \<or> f (pg_db s) = Inl e"
    | (ok) x where "f (pg_db s) = Inr x" "r = Inr x" "pg_db s' = pg_db s"
  using assms by (auto simp: db_query_def split: sum.splits elim!: db_callE)

lemma db_query_db [simp]: "pg_db (snd (db_query E f s)) = pg_db s"
  by (auto simp: db_query_def db_call_def Let_def split: sum.splits)

lemma db_query_up:
  "pg_up E s \<Longrightarrow> db_query E f s = (f (pg_db s), s\<lparr>pg_tick := Suc (pg_tick s)\<rparr>)"
  by (auto simp: db_query_def db_call_def Let_def dest!: pg_up_now split: sum.splits)

lemma db_execE:
  assumes "db_exec E f s = (r, s')"
  obtains (error) e where "r = Inl e" "pg_db s' = pg_db s" "e = db_error \<or> f (pg_db s) = Inl e"
    | (ok) x where "f (pg_db s) = Inr (x, pg_db s')" "r = Inr x"
  using assms by (auto simp: db_exec_def split: sum.splits elim!: db_callE)

lemma db_exec_up:
  "pg_up E s \<Longrightarrow> db_exec E f s =
     (case f (pg_db s) of Inl e \<Rightarrow> (Inl e, s\<lparr>pg_tick := Suc (pg_tick s)\<rparr>)
      | Inr (x, db) \<Rightarrow> (Inr x, \<lparr>pg_db = db, pg_tick = Suc (pg_tick s)\<rparr>))"
  by (auto simp: db_exec_def db_call_def Let_def dest!: pg_up_now split: sum.splits)

section \<open>The fan-out to webhooks\<close>

definition delivery_key :: "delivery_row \<Rightarrow> string \<times> string" where
  "delivery_key d = (dl_webhook_id d, dl_event_id d)"

lemma insert_delivery_keys:
  "distinct (map delivery_key ds) \<Longrightarrow> distinct (map delivery_key (insert_delivery now i et p w ds))"
  "delivery_key ` set (insert_delivery now i et p w ds) = insert (wh_id w, i) (delivery_key ` set ds)"
  by (auto simp: insert_delivery_def delivery_key_def new_delivery_def sql_conflict_iff)

lemma fold_insert_delivery_keys:
  "distinct (map delivery_key ds) \<Longrightarrow> distinct (map delivery_key (fold (insert_delivery now i et p) ws ds))"
  "delivery_key ` set (fold (insert_delivery now i et p) ws ds) = (\<lambda>w. (wh_id w, i)) ` set ws \<union> delivery_key ` set ds"
  by (induction ws arbitrary: ds) (auto simp: insert_delivery_keys)

lemma fold_insert_delivery_subset: "set ds \<subseteq> set (fold (insert_delivery now i et p) ws ds)"
proof (induction ws arbitrary: ds)
  case (Cons w ws)
  have "set ds \<subseteq> set (insert_delivery now i et p w ds)" by (auto simp: insert_delivery_def)
  with Cons show ?case by fastforce
qed simp

lemma fold_insert_delivery_noop:
  "(\<lambda>w. (wh_id w, i)) ` set ws \<subseteq> delivery_key ` set ds \<Longrightarrow> fold (insert_delivery now i et p) ws ds = ds"
proof (induction ws)
  case (Cons w ws)
  then have "(wh_id w, i) \<in> delivery_key ` set ds" by auto
  then have "insert_delivery now i et p w ds = ds"
    by (auto simp: insert_delivery_def sql_conflict_iff delivery_key_def)
  with Cons show ?case by auto
qed simp

lemma fan_out_frame [simp]:
  "db_payments (fan_out now m a i et p db) = db_payments db"
  "db_idempotency (fan_out now m a i et p db) = db_idempotency db"
  "db_payouts (fan_out now m a i et p db) = db_payouts db"
  "db_refunds (fan_out now m a i et p db) = db_refunds db"
  "db_payout_idempotency (fan_out now m a i et p db) = db_payout_idempotency db"
  "db_provider_events (fan_out now m a i et p db) = db_provider_events db"
  "db_balance_outbox (fan_out now m a i et p db) = db_balance_outbox db"
  "db_legacy_payments (fan_out now m a i et p db) = db_legacy_payments db"
  "db_webhooks (fan_out now m a i et p db) = db_webhooks db"
  "db_accounts (fan_out now m a i et p db) = db_accounts db"
  "db_merchants (fan_out now m a i et p db) = db_merchants db"
  "db_api_keys (fan_out now m a i et p db) = db_api_keys db"
  by (simp_all add: fan_out_def)

lemma fan_out_keys:
  "distinct (map delivery_key (db_deliveries db)) \<Longrightarrow> distinct (map delivery_key (db_deliveries (fan_out now m a i et p db)))"
  "delivery_key ` set (db_deliveries (fan_out now m a i et p db)) =
     (\<lambda>w. (wh_id w, i)) ` {w \<in> set (db_webhooks db). webhook_target m a w} \<union> delivery_key ` set (db_deliveries db)"
  "set (db_deliveries db) \<subseteq> set (db_deliveries (fan_out now m a i et p db))"
  using fold_insert_delivery_subset by (auto simp: fan_out_def fold_insert_delivery_keys)

section \<open>An example environment\<close>

text \<open>
  A server that never fails, with a clock that advances by a microsecond per call. Amounts are
  decimal naturals, any text is an identifier, and a cursor writes its time in unary.
\<close>

fun ex_digits :: "nat \<Rightarrow> string \<Rightarrow> rat option" where
  "ex_digits n [] = Some (of_nat n)"
| "ex_digits n (c # cs) = (if c \<in> set ''0123456789'' then ex_digits (10 * n + (of_char c - 48)) cs else None)"

definition ex_env :: pg_env where
  "ex_env = \<lparr>en_down = (\<lambda>_. False), en_clock = (\<lambda>n. 1000 * int n + 1000), en_numeric = ex_digits 0,
     en_uuid = Some, en_upper = id, en_json_text = (\<lambda>_. ''''), en_wall = (\<lambda>n. 1000 * int n + 1000), en_sha256 = ex_sha, en_marshal_refund = cr_Amount,
     en_marshal_cursor = (\<lambda>(t, i). replicate (nat (t div 1000)) CHR ''+'' @ ''.'' @ i),
     en_unmarshal_cursor = (\<lambda>c. Some (1000 * int (length (takeWhile (\<lambda>x. x = CHR ''+'') c)),
        tl (dropWhile (\<lambda>x. x = CHR ''+'') c)))\<rparr>"

lemma ex_env_up [simp]: "pg_up ex_env s"
  by (simp add: pg_up_def ex_env_def)

end
