(* ===== verification/Memory_Store.thy ===== *)
theory Memory_Store
  imports Store_Contract
begin

text \<open>
  \<^verbatim>\<open>internal/adapters/memory/store.go\<close>: the in-memory payment store. The three Go maps are the
  fields of the state; each method holds the mutex for its whole body, so it is one step.
\<close>

section \<open>State\<close>

record idempotency_record =
  ir_Hash :: string
  ir_TransactionID :: string
  ir_Complete :: bool

record mem_store =
  ms_payments :: "payment gomap"
  ms_events :: "merchant_event gomap"
  ms_keys :: "idempotency_record gomap"

definition mem_NewStore :: mem_store where
  "mem_NewStore = \<lparr>ms_payments = [], ms_events = [], ms_keys = []\<rparr>"

section \<open>Operations\<close>

text \<open>The comparison of \<^verbatim>\<open>sort.Slice\<close>: newest first, equal dates by descending identifier.\<close>

definition payment_before :: "payment \<Rightarrow> payment \<Rightarrow> bool" where
  "payment_before p q =
     (if pay_CreationDate p = pay_CreationDate q then pay_TransactionID p > pay_TransactionID q
      else pay_CreationDate p > pay_CreationDate q)"

text \<open>
  \<^verbatim>\<open>sort.Slice\<close> for a comparison \<open>lt\<close>: an insertion sort, one of the sorts the documentation
  allows (it promises only a sorted permutation).
\<close>

fun insert_by :: "('a \<Rightarrow> 'a \<Rightarrow> bool) \<Rightarrow> 'a \<Rightarrow> 'a list \<Rightarrow> 'a list" where
  "insert_by lt x [] = [x]"
| "insert_by lt x (y # ys) = (if lt y x then y # insert_by lt x ys else x # y # ys)"

definition sort_by :: "('a \<Rightarrow> 'a \<Rightarrow> bool) \<Rightarrow> 'a list \<Rightarrow> 'a list" where
  "sort_by lt xs = foldr (insert_by lt) xs []"

definition mem_visible :: "string \<Rightarrow> string \<Rightarrow> payment \<Rightarrow> bool" where
  "mem_visible accountID merchantID p \<longleftrightarrow>
     (merchantID \<noteq> '''' \<and> pay_MerchantID p = merchantID) \<or>
     (merchantID = '''' \<and> accountID \<noteq> '''' \<and> pay_AccountID p = accountID)"

definition list_limit :: "int \<Rightarrow> int" where
  "list_limit n = (if n \<le> 0 \<or> n > 100 then 50 else n)"

definition mem_List :: "string \<Rightarrow> string \<Rightarrow> payment_list_options \<Rightarrow> (mem_store, payment_page) go_io" where
  "mem_List accountID merchantID options s =
     (let limit = nat (list_limit (plo_Limit options));
          items = sort_by payment_before (filter (mem_visible accountID merchantID) (mvalues (ms_payments s)));
          hasMore = limit < length items;
          items = (if hasMore then take limit items else items)
      in (Inr \<lparr>pp_Data = items, pp_HasMore = hasMore, pp_NextCursor = ''''\<rparr>, s))"

definition mem_scope :: "string \<Rightarrow> string \<Rightarrow> string" where
  "mem_scope merchantID key = merchantID @ '':'' @ key"

definition mem_payment_or_zero :: "mem_store \<Rightarrow> string \<Rightarrow> payment" where
  "mem_payment_or_zero s tx = (case mget (ms_payments s) tx of Some p \<Rightarrow> p | None \<Rightarrow> zero_payment)"

definition mem_BeginCreate ::
  "string \<Rightarrow> string \<Rightarrow> string \<Rightarrow> string \<Rightarrow> (mem_store, payment \<times> bool) go_io" where
  "mem_BeginCreate merchantID key hash transactionID s =
     (let scope = mem_scope merchantID key in
      case mget (ms_keys s) scope of
        Some existing \<Rightarrow>
          if ir_Hash existing \<noteq> hash then (Inl ErrConflict, s)
          else if \<not> ir_Complete existing then (Inl ErrInProgress, s)
          else (Inr (mem_payment_or_zero s (ir_TransactionID existing), True), s)
      | None \<Rightarrow>
          (Inr (zero_payment, False),
           s\<lparr>ms_keys := mput scope
               \<lparr>ir_Hash = hash, ir_TransactionID = transactionID, ir_Complete = False\<rparr> (ms_keys s)\<rparr>))"

definition mem_CompleteCreate :: "payment \<Rightarrow> merchant_event \<Rightarrow> string \<Rightarrow> (mem_store, unit) go_io" where
  "mem_CompleteCreate p e key s =
     (let scope = mem_scope (pay_MerchantID p) key in
      case mget (ms_keys s) scope of
        None \<Rightarrow> (Inl ErrConflict, s)
      | Some rec \<Rightarrow>
          if ir_TransactionID rec \<noteq> pay_TransactionID p then (Inl ErrConflict, s)
          else (Inr (), s\<lparr>ms_payments := mput (pay_TransactionID p) p (ms_payments s),
                         ms_events := mput (me_EventID e) e (ms_events s),
                         ms_keys := mput scope (rec\<lparr>ir_Complete := True\<rparr>) (ms_keys s)\<rparr>))"

definition mem_ReleaseCreate :: "string \<Rightarrow> string \<Rightarrow> (mem_store, unit) go_io" where
  "mem_ReleaseCreate merchantID key s =
     (let scope = mem_scope merchantID key in
      case mget (ms_keys s) scope of
        Some rec \<Rightarrow> if \<not> ir_Complete rec then (Inr (), s\<lparr>ms_keys := mdel scope (ms_keys s)\<rparr>) else (Inr (), s)
      | None \<Rightarrow> (Inr (), s))"

definition mem_Get :: "string \<Rightarrow> string \<Rightarrow> string \<Rightarrow> (mem_store, payment) go_io" where
  "mem_Get accountID merchantID transactionID s =
     (case mget (ms_payments s) transactionID of
        None \<Rightarrow> (Inl ErrNotFound, s)
      | Some p \<Rightarrow>
          if (merchantID \<noteq> '''' \<and> pay_MerchantID p \<noteq> merchantID) \<or>
             (merchantID = '''' \<and> (accountID = '''' \<or> pay_AccountID p \<noteq> accountID))
          then (Inl ErrNotFound, s) else (Inr p, s))"

definition mem_ApplyProviderEvent :: "provider_event \<Rightarrow> string \<Rightarrow> (mem_store, event_result) go_io" where
  "mem_ApplyProviderEvent event merchantEventID s =
     (if mget (ms_events s) (ev_EventID event) \<noteq> None
      then (Inr (zero_result\<lparr>er_Duplicate := True\<rparr>), s)
      else case mget (ms_payments s) (ev_TransactionID event) of
        None \<Rightarrow> (Inl ErrNotFound, s)
      | Some p \<Rightarrow>
          (case PublicStatusFromProvider (ed_Status (ev_Data event)) of
             None \<Rightarrow> (Inl ErrConflict, s)
           | Some status \<Rightarrow>
               let changed = (pay_Status p \<noteq> status \<and> PaymentTransitionAllowed (pay_Status p) status);
                   p' = (if changed then p\<lparr>pay_Status := status, pay_Version := pay_Version p + 1\<rparr> else p);
                   s1 = (if changed then s\<lparr>ms_payments := mput (pay_TransactionID p') p' (ms_payments s)\<rparr> else s);
                   ev = \<lparr>me_EventID = ev_EventID event, me_EventType = ev_EventType event, me_MerchantID = '''',
                         me_ResourceID = ev_TransactionID event, me_ResourceVersion = 0, me_Payload = None\<rparr>;
                   s2 = s1\<lparr>ms_events := mput (ev_EventID event) ev (ms_events s1)\<rparr>
               in (Inr \<lparr>er_Duplicate = False, er_Changed = changed, er_Status = pay_Status p'\<rparr>, s2)))"

definition memory_store :: "mem_store payment_store" where
  "memory_store = \<lparr>st_BeginCreate = mem_BeginCreate, st_CompleteCreate = mem_CompleteCreate,
     st_ReleaseCreate = mem_ReleaseCreate, st_Get = mem_Get, st_List = mem_List,
     st_ApplyProviderEvent = mem_ApplyProviderEvent\<rparr>"

section \<open>Sorting\<close>

lemma set_insert_by [simp]: "set (insert_by lt x ys) = insert x (set ys)"
  by (induction ys) auto

lemma length_insert_by [simp]: "length (insert_by lt x ys) = Suc (length ys)"
  by (induction ys) auto

lemma set_sort_by [simp]: "set (sort_by lt xs) = set xs"
  by (induction xs) (auto simp: sort_by_def)

lemma length_sort_by [simp]: "length (sort_by lt xs) = length xs"
  by (induction xs) (auto simp: sort_by_def)

lemma distinct_insert_by: "distinct (insert_by lt x ys) \<longleftrightarrow> x \<notin> set ys \<and> distinct ys"
  by (induction ys) auto

lemma distinct_sort_by [simp]: "distinct (sort_by lt xs) = distinct xs"
  using set_sort_by [of lt] by (induction xs) (auto simp: sort_by_def distinct_insert_by)

lemma sorted_insert_by:
  assumes "\<And>a b c. lt a b \<Longrightarrow> lt b c \<Longrightarrow> lt a c" and "\<And>a b. a \<noteq> b \<Longrightarrow> a \<in> insert x (set ys) \<Longrightarrow> b \<in> insert x (set ys) \<Longrightarrow> lt a b \<or> lt b a"
    and "x \<notin> set ys" and "sorted_wrt lt ys"
  shows "sorted_wrt lt (insert_by lt x ys)"
  using assms(2-) 
proof (induction ys)
  case Nil
  then show ?case by simp
next
  case (Cons y ys)
  show ?case
  proof (cases "lt y x")
    case True
    with Cons show ?thesis by auto
  next
    case False
    with Cons.prems(1) [of x y] Cons.prems(2) have "lt x y" by auto
    with Cons.prems(3) False assms(1) show ?thesis by auto
  qed
qed

lemma sorted_sort_by:
  assumes trans: "\<And>a b c. lt a b \<Longrightarrow> lt b c \<Longrightarrow> lt a c"
    and total: "\<And>a b. a \<noteq> b \<Longrightarrow> a \<in> set xs \<Longrightarrow> b \<in> set xs \<Longrightarrow> lt a b \<or> lt b a"
    and "distinct xs"
  shows "sorted_wrt lt (sort_by lt xs)"
  using assms(2,3)
proof (induction xs)
  case Nil
  then show ?case by (simp add: sort_by_def)
next
  case (Cons x xs)
  have "sorted_wrt lt (insert_by lt x (sort_by lt xs))"
    by (rule sorted_insert_by [OF trans]) (use Cons in auto)
  then show ?case by (simp add: sort_by_def)
qed

text \<open>Sorting by a strict comparison puts the list in any total preorder that the comparison refines.\<close>

lemma sort_by_weak:
  assumes "\<And>a b. lt a b \<Longrightarrow> R a b" and "\<And>a b. \<not> lt a b \<Longrightarrow> R b a" and "\<And>a b c. R a b \<Longrightarrow> R b c \<Longrightarrow> R a c"
  shows "sorted_wrt R (sort_by lt xs)"
proof -
  have insert: "sorted_wrt R (insert_by lt x ys)" if "sorted_wrt R ys" for x ys
    using that
  proof (induction ys)
    case (Cons y ys)
    then show ?case
      using assms(1) [of y x] assms(2) [of y x] assms(3) [of x y] by (cases "lt y x") auto
  qed simp
  show ?thesis by (induction xs) (auto simp: sort_by_def insert)
qed

text \<open>A list strictly sorted by an asymmetric order is determined by its set of elements.\<close>

lemma sorted_wrt_unique:
  assumes asym: "\<And>a b. lt a b \<Longrightarrow> \<not> lt b a"
    and "sorted_wrt lt xs" and "sorted_wrt lt ys" and "set xs = set ys"
  shows "xs = ys"
  using assms(2-)
proof (induction xs arbitrary: ys)
  case Nil
  then show ?case by simp
next
  case (Cons x xs)
  then obtain y ys' where ys: "ys = y # ys'" by (cases ys) auto
  have irrefl: "\<And>a. \<not> lt a a" using asym by blast
  have "x = y"
  proof (rule ccontr)
    assume "x \<noteq> y"
    with Cons.prems ys have "y \<in> set xs" "x \<in> set ys'" by auto
    with Cons.prems ys have "lt x y" "lt y x" by auto
    with asym show False by blast
  qed
  moreover have "set xs = set ys'"
  proof -
    have "x \<notin> set xs" "y \<notin> set ys'" using Cons.prems ys irrefl by auto
    with Cons.prems(3) ys \<open>x = y\<close> show ?thesis by auto
  qed
  ultimately show ?case using Cons ys by auto
qed

lemma payment_before_trans: "payment_before a b \<Longrightarrow> payment_before b c \<Longrightarrow> payment_before a c"
  by (auto simp: payment_before_def split: if_splits)

lemma payment_before_asym: "payment_before a b \<Longrightarrow> \<not> payment_before b a"
  by (auto simp: payment_before_def split: if_splits)

lemma payment_before_total:
  "pay_TransactionID a \<noteq> pay_TransactionID b \<Longrightarrow> payment_before a b \<or> payment_before b a"
  by (auto simp: payment_before_def)

section \<open>The store keeps the contract\<close>

text \<open>
  The invariant: a payment is stored under its own identifier, and a completed idempotency
  record points to a stored payment.
\<close>

definition mem_inv :: "mem_store \<Rightarrow> bool" where
  "mem_inv s \<longleftrightarrow> distinct (mkeys (ms_payments s))
     \<and> list_all (\<lambda>(k, p). pay_TransactionID p = k) (ms_payments s)
     \<and> distinct (mkeys (ms_keys s))
     \<and> list_all (\<lambda>(k, rec). ir_Complete rec \<longrightarrow> mget (ms_payments s) (ir_TransactionID rec) \<noteq> None) (ms_keys s)"

definition mem_slot :: "mem_store \<Rightarrow> string \<Rightarrow> string \<Rightarrow> (string \<times> string \<times> bool) option" where
  "mem_slot s m k = map_option (\<lambda>rec. (ir_Hash rec, ir_TransactionID rec, ir_Complete rec)) (mget (ms_keys s) (mem_scope m k))"

definition mem_saved :: "mem_store \<Rightarrow> string \<Rightarrow> string \<Rightarrow> payment option" where
  "mem_saved s m t = mget (ms_payments s) t"

definition mem_status :: "mem_store \<Rightarrow> string \<Rightarrow> string option" where
  "mem_status s t = map_option pay_Status (mget (ms_payments s) t)"

definition mem_seen :: "mem_store \<Rightarrow> string \<Rightarrow> bool" where
  "mem_seen s i \<longleftrightarrow> mget (ms_events s) i \<noteq> None"

lemma mem_inv_iff:
  "mem_inv s \<longleftrightarrow> distinct (mkeys (ms_payments s)) \<and> distinct (mkeys (ms_keys s))
     \<and> (\<forall>k p. mget (ms_payments s) k = Some p \<longrightarrow> pay_TransactionID p = k)
     \<and> (\<forall>k rec. mget (ms_keys s) k = Some rec \<longrightarrow> ir_Complete rec \<longrightarrow> mget (ms_payments s) (ir_TransactionID rec) \<noteq> None)"
  unfolding mem_inv_def using list_all_mget [of "ms_payments s" "\<lambda>k p. pay_TransactionID p = k"]
    list_all_mget [of "ms_keys s" "\<lambda>k rec. ir_Complete rec \<longrightarrow> mget (ms_payments s) (ir_TransactionID rec) \<noteq> None"]
  by blast

lemmas mem_views = mem_slot_def mem_saved_def mem_status_def mem_seen_def

text \<open>Every method keeps it.\<close>

lemma mem_inv_new: "mem_inv mem_NewStore"
  by (simp add: mem_inv_def mem_NewStore_def)

lemma mem_begin_inv: "mem_inv s \<Longrightarrow> mem_BeginCreate m k h t s = (r, s') \<Longrightarrow> mem_inv s'"
  by (auto simp: mem_BeginCreate_def Let_def mem_inv_iff split: option.splits if_splits)

lemma mem_complete_inv: "mem_inv s \<Longrightarrow> mem_CompleteCreate p e k s = (r, s') \<Longrightarrow> mem_inv s'"
  by (auto simp: mem_CompleteCreate_def Let_def mem_inv_iff split: option.splits if_splits)

lemma mem_release_inv: "mem_inv s \<Longrightarrow> mem_ReleaseCreate m k s = (r, s') \<Longrightarrow> mem_inv s'"
  by (auto simp: mem_ReleaseCreate_def Let_def mem_inv_iff split: option.splits if_splits)

lemma mem_apply_inv: "mem_inv s \<Longrightarrow> mem_ApplyProviderEvent e i s = (r, s') \<Longrightarrow> mem_inv s'"
  by (auto simp: mem_ApplyProviderEvent_def Let_def mem_inv_iff split: option.splits if_splits)


lemmas mem_ops = mem_BeginCreate_def mem_CompleteCreate_def mem_ReleaseCreate_def mem_ApplyProviderEvent_def

lemma mem_begin_replay:
  assumes "mem_inv s" and "mem_BeginCreate m k h t s = (Inr (p, True), s')"
  shows "(\<exists>t'. mem_slot s m k = Some (h, t', True) \<and> mem_saved s m t' = Some p) \<and> s' = s"
  using assms
  by (fastforce simp: mem_BeginCreate_def mem_views mem_inv_iff mem_payment_or_zero_def Let_def
      split: option.splits if_splits)

lemma mem_release_undoes:
  assumes "mem_BeginCreate m k h t s = (Inr (p, False), s1)" and "mem_ReleaseCreate m k s1 = (r, s')"
  shows "s' = s"
  using assms
  by (auto simp: mem_BeginCreate_def mem_ReleaseCreate_def Let_def mdel_mput_fresh split: option.splits if_splits)

interpretation mem: payment_store memory_store mem_slot mem_saved "\<lambda>p. p" "(=)" mem_inv "\<lambda>_. True" "\<lambda>_. True"
proof (unfold_locales, goal_cases)
  case 4
  then show ?case by (auto simp: memory_store_def dest: mem_begin_inv)
next
  case (7 s m k h t p s')
  from mem_begin_replay [OF 7(1)] 7(3) show ?case by (simp add: memory_store_def) blast
next
  case 10
  then show ?case by (auto simp: memory_store_def dest: mem_complete_inv)
next
  case 13
  then show ?case by (auto simp: memory_store_def dest: mem_release_inv)
next
  case 14
  then show ?case using mem_release_undoes by (simp add: memory_store_def) metis
qed (auto simp: memory_store_def mem_ops mem_views Let_def fun_eq_iff split: option.splits if_splits)

lemma mem_apply_new:
  assumes "mem_inv s" and "\<not> mem_seen s (ev_EventID e)" and "mem_ApplyProviderEvent e i s = (Inr x, s')"
  shows "\<not> er_Duplicate x \<and> mem_seen s' = (mem_seen s)(ev_EventID e := True) \<and>
    (\<exists>old. mem_status s (ev_TransactionID e) = Some old \<and>
      mem_status s' = (\<lambda>t. if t = ev_TransactionID e then Some (er_Status x) else mem_status s t) \<and>
      PaymentTransitionAllowed old (er_Status x) \<and> (er_Changed x \<longleftrightarrow> er_Status x \<noteq> old) \<and>
      (er_Changed x \<longrightarrow> PublicStatusFromProvider (ed_Status (ev_Data e)) = Some (er_Status x)))"
  using assms
  by (auto simp: mem_ApplyProviderEvent_def mem_views mem_inv_iff Let_def fun_eq_iff split: option.splits if_splits)

interpretation mem_events: event_store memory_store mem_status mem_seen mem_inv "\<lambda>_. True" "\<lambda>_. True" "(=)"
proof (unfold_locales, goal_cases)
  case 1
  then show ?case by (auto simp: memory_store_def dest: mem_apply_inv)
next
  case (6 s e i x s')
  then have "mem_ApplyProviderEvent e i s = (Inr x, s')" by (simp add: memory_store_def)
  from mem_apply_new [OF 6(1,2) this]
  show ?case by (elim conjE exE, intro conjI exI [of _ "{ev_TransactionID e}"] exI) simp_all
qed (auto simp: memory_store_def mem_ops mem_views mem_inv_iff Let_def fun_eq_iff split: option.splits if_splits)

section \<open>Listing\<close>

lemma mem_payments_by_id:
  assumes "mem_inv s"
  shows "set (mvalues (ms_payments s)) = {p. mget (ms_payments s) (pay_TransactionID p) = Some p}"
    and "distinct (mvalues (ms_payments s))"
    and "inj_on pay_TransactionID (set (mvalues (ms_payments s)))"
proof -
  have d: "distinct (map fst (ms_payments s))" and id: "\<And>k p. (k, p) \<in> set (ms_payments s) \<Longrightarrow> pay_TransactionID p = k"
    using assms by (auto simp: mem_inv_def mkeys_def list_all_iff)
  have eq: "map pay_TransactionID (mvalues (ms_payments s)) = map fst (ms_payments s)"
    using id by (auto simp: mvalues_def)
  with d have "distinct (map pay_TransactionID (mvalues (ms_payments s)))" by simp
  then show "distinct (mvalues (ms_payments s))" "inj_on pay_TransactionID (set (mvalues (ms_payments s)))"
    by (simp_all add: distinct_map)
  have "p \<in> set (mvalues (ms_payments s)) \<longleftrightarrow> (pay_TransactionID p, p) \<in> set (ms_payments s)" for p
  proof
    assume "p \<in> set (mvalues (ms_payments s))"
    then obtain k where "(k, p) \<in> set (ms_payments s)" by (auto simp: mvalues_def)
    with id [OF this] show "(pay_TransactionID p, p) \<in> set (ms_payments s)" by simp
  qed (force simp: mvalues_def)
  with d show "set (mvalues (ms_payments s)) = {p. mget (ms_payments s) (pay_TransactionID p) = Some p}"
    by (auto simp: mget_def)
qed

definition mem_visible_sorted :: "string \<Rightarrow> string \<Rightarrow> mem_store \<Rightarrow> payment list" where
  "mem_visible_sorted a m s = sort_by payment_before (filter (mem_visible a m) (mvalues (ms_payments s)))"

lemma mem_visible_sorted_sorted:
  assumes "mem_inv s"
  shows "sorted_wrt payment_before (mem_visible_sorted a m s)"
proof -
  note ids = mem_payments_by_id [OF assms]
  have "payment_before p q \<or> payment_before q p"
    if "p \<noteq> q" "p \<in> set (mvalues (ms_payments s))" "q \<in> set (mvalues (ms_payments s))" for p q
    using that ids(3) payment_before_total [of p q] by (metis inj_onD)
  with ids(2) show ?thesis
    unfolding mem_visible_sorted_def
    by (intro sorted_sort_by [OF payment_before_trans]) auto
qed

lemma cut_off_iff:
  assumes "distinct xs"
  shows "n < length xs \<longleftrightarrow> (\<exists>x \<in> set xs. x \<notin> set (take n xs))"
proof
  assume "n < length xs"
  then have "xs ! n \<in> set xs" by simp
  moreover have "xs ! n \<notin> set (take n xs)"
    using assms \<open>n < length xs\<close> by (auto simp: in_set_conv_nth nth_eq_iff_index_eq)
  ultimately show "\<exists>x \<in> set xs. x \<notin> set (take n xs)" by blast
next
  assume "\<exists>x \<in> set xs. x \<notin> set (take n xs)"
  then show "n < length xs" by (metis not_less take_all)
qed

lemma list_limit_bounds: "0 < list_limit n \<and> list_limit n \<le> 100"
  by (simp add: list_limit_def)

section \<open>Properties\<close>

text \<open>
  C36: the page that \<^verbatim>\<open>List\<close> returns does not depend on the order in which Go iterates over the
  payment map: two stores with the same entries give the same page. The page holds at most 100
  payments, newest first in the strict order by date and identifier, all visible to the caller,
  and \<^verbatim>\<open>HasMore\<close> says whether some visible payment was cut off.
\<close>

theorem mem_List_order_independent:
  assumes "mem_inv s" and "mem_inv s'" and "set (ms_payments s) = set (ms_payments s')"
  shows "fst (mem_List a m opts s) = fst (mem_List a m opts s')
    \<and> (\<exists>page. mem_List a m opts s = (Inr page, s) \<and> length (pp_Data page) \<le> 100
        \<and> sorted_wrt payment_before (pp_Data page)
        \<and> (\<forall>p \<in> set (pp_Data page). mem_visible a m p \<and> mget (ms_payments s) (pay_TransactionID p) = Some p)
        \<and> (pp_HasMore page \<longleftrightarrow> (\<exists>p. mget (ms_payments s) (pay_TransactionID p) = Some p \<and> mem_visible a m p
              \<and> p \<notin> set (pp_Data page))))"
proof -
  let ?xs = "mem_visible_sorted a m s" and ?n = "nat (list_limit (plo_Limit opts))"
  have same: "set (mvalues (ms_payments s)) = set (mvalues (ms_payments s'))"
    using assms(3) by (simp add: mvalues_def)
  have "?xs = mem_visible_sorted a m s'"
    by (rule sorted_wrt_unique [OF payment_before_asym mem_visible_sorted_sorted [OF assms(1)]
          mem_visible_sorted_sorted [OF assms(2)]])
       (simp_all add: mem_visible_sorted_def same)
  then have eq: "fst (mem_List a m opts s) = fst (mem_List a m opts s')"
    by (simp add: mem_List_def mem_visible_sorted_def Let_def)
  have set: "set ?xs = {p. mget (ms_payments s) (pay_TransactionID p) = Some p \<and> mem_visible a m p}"
    using mem_payments_by_id(1) [OF assms(1)] by (auto simp: mem_visible_sorted_def)
  have "distinct ?xs"
    using mem_payments_by_id(2) [OF assms(1)] by (simp add: mem_visible_sorted_def)
  then have more: "?n < length ?xs \<longleftrightarrow> (\<exists>p \<in> set ?xs. p \<notin> set (take ?n ?xs))"
    by (rule cut_off_iff)
  have page: "mem_List a m opts s = (Inr \<lparr>pp_Data = take ?n ?xs, pp_HasMore = ?n < length ?xs, pp_NextCursor = ''''\<rparr>, s)"
    by (simp add: mem_List_def mem_visible_sorted_def Let_def)
  show ?thesis
  proof (intro conjI exI [of _ "\<lparr>pp_Data = take ?n ?xs, pp_HasMore = ?n < length ?xs, pp_NextCursor = ''''\<rparr>"] eq page)
    show "sorted_wrt payment_before (pp_Data \<lparr>pp_Data = take ?n ?xs, pp_HasMore = ?n < length ?xs, pp_NextCursor = ''''\<rparr>)"
      using mem_visible_sorted_sorted [OF assms(1)] by (simp add: sorted_wrt_take)
  qed (use more list_limit_bounds [of "plo_Limit opts"] set in \<open>auto dest!: in_set_takeD\<close>)
qed

theorem mem_List_order_independent_witness:
  "fst (mem_List '''' ''m'' \<lparr>plo_Limit = 1, plo_Cursor = ''''\<rparr>
     \<lparr>ms_payments = [(''t1'', zero_payment\<lparr>pay_TransactionID := ''t1'', pay_MerchantID := ''m''\<rparr>),
                     (''t2'', zero_payment\<lparr>pay_TransactionID := ''t2'', pay_MerchantID := ''m''\<rparr>)],
      ms_events = [], ms_keys = []\<rparr>) =
   fst (mem_List '''' ''m'' \<lparr>plo_Limit = 1, plo_Cursor = ''''\<rparr>
     \<lparr>ms_payments = [(''t2'', zero_payment\<lparr>pay_TransactionID := ''t2'', pay_MerchantID := ''m''\<rparr>),
                     (''t1'', zero_payment\<lparr>pay_TransactionID := ''t1'', pay_MerchantID := ''m''\<rparr>)],
      ms_events = [], ms_keys = []\<rparr>)"
  by (rule mem_List_order_independent [THEN conjunct1]) (auto simp: mem_inv_def)

end
