(* ===== verification/Base64.thy ===== *)
theory Base64
  imports Prelude
begin

text \<open>
  \<^verbatim>\<open>base64.RawURLEncoding\<close> of Go's standard library, over strings of bytes: the alphabet for URLs, no padding. Decoding
  skips line ends and, not being strict, does not look at the bits left over in the last character.
\<close>

section \<open>Characters\<close>

definition b64_alphabet :: string where
  "b64_alphabet = ''ABCDEFGHIJKLMNOPQRSTUVWXYZabcdefghijklmnopqrstuvwxyz0123456789-_''"

definition b64_char :: "nat \<Rightarrow> char" where
  "b64_char n = b64_alphabet ! n"

definition b64_value :: "char \<Rightarrow> nat option" where
  "b64_value c = map_of (zip b64_alphabet [0..<64]) c"

section \<open>Groups of three bytes\<close>

fun b64_split :: "nat list \<Rightarrow> nat list" where
  "b64_split [] = []"
| "b64_split [a] = [a div 4, a mod 4 * 16]"
| "b64_split [a, b] = [a div 4, a mod 4 * 16 + b div 16, b mod 16 * 4]"
| "b64_split (a # b # c # bytes) = [a div 4, a mod 4 * 16 + b div 16, b mod 16 * 4 + c div 64, c mod 64] @ b64_split bytes"

text \<open>A single character left over holds no byte and is an error.\<close>

fun b64_join :: "nat list \<Rightarrow> nat list option" where
  "b64_join [] = Some []"
| "b64_join [p] = None"
| "b64_join [p, q] = Some [p * 4 + q div 16]"
| "b64_join [p, q, r] = Some [p * 4 + q div 16, q mod 16 * 16 + r div 4]"
| "b64_join (p # q # r # s # rest) =
     map_option ((@) [p * 4 + q div 16, q mod 16 * 16 + r div 4, r mod 4 * 64 + s]) (b64_join rest)"

section \<open>The encoding\<close>

definition b64_encode :: "string \<Rightarrow> string" where
  "b64_encode bytes = map b64_char (b64_split (map of_char bytes))"

definition line_end :: "char \<Rightarrow> bool" where
  "line_end c \<longleftrightarrow> c = CHR 0x0A \<or> c = CHR 0x0D"

definition b64_decode :: "string \<Rightarrow> string option" where
  "b64_decode txt =
     (case those (map b64_value (filter (Not \<circ> line_end) txt)) of
        None \<Rightarrow> None
      | Some values \<Rightarrow> map_option (map char_of) (b64_join values))"

section \<open>The round trip\<close>

lemma alphabet_values: "list_all (\<lambda>n. b64_value (b64_char n) = Some n \<and> \<not> line_end (b64_char n)) [0..<64]"
  by code_simp

lemma b64_char_value: "n < 64 \<Longrightarrow> b64_value (b64_char n) = Some n \<and> \<not> line_end (b64_char n)"
  using alphabet_values by (simp add: list_all_iff)

lemma b64_split_small: "list_all (\<lambda>b. b < 256) bytes \<Longrightarrow> list_all (\<lambda>n. n < 64) (b64_split bytes)"
  by (induction bytes rule: b64_split.induct) auto

lemma b64_join_split: "list_all (\<lambda>b. b < 256) bytes \<Longrightarrow> b64_join (b64_split bytes) = Some bytes"
  by (induction bytes rule: b64_split.induct) auto

lemma those_values:
  assumes "list_all (\<lambda>n. n < 64) ns"
  shows "those (map b64_value (filter (Not \<circ> line_end) (map b64_char ns))) = Some ns"
  using assms by (induction ns) (simp_all add: b64_char_value)

lemma b64_roundtrip: "b64_decode (b64_encode bytes) = Some bytes"
proof -
  have small: "list_all (\<lambda>b. b < 256) (map of_char bytes :: nat list)"
    by (auto simp: list_all_iff)
  have "map char_of (map of_char bytes :: nat list) = bytes" by (simp add: comp_def)
  then show ?thesis
    using those_values [OF b64_split_small [OF small]] b64_join_split [OF small] by (simp add: b64_decode_def b64_encode_def)
qed

lemma b64_encode_empty: "b64_encode bytes = '''' \<longleftrightarrow> bytes = ''''"
  using b64_roundtrip [of bytes] by (auto simp: b64_encode_def b64_decode_def)

end
