(* ===== verification/Pg_Legacy.thy ===== *)
theory Pg_Legacy
  imports Pg_Tables Memory_Store Base64 "HOL-Library.Multiset"
begin

text \<open>
  \<^verbatim>\<open>adapters/postgres/legacy_payments.go\<close>: reading V1 payments beside V2 ones, and the paginated
  consolidated listing. A cursor is base64 of JSON; the JSON text is a parameter of the environment.
\<close>

section \<open>Reading a V1 payment\<close>

text \<open>The \<^verbatim>\<open>CASE\<close> of both queries, and \<^verbatim>\<open>legacyPaymentData\<close>.\<close>

definition legacy_method :: "legacy_row \<Rightarrow> string" where
  "legacy_method r =
     (if lg_provider r = ''binancepay'' then ''crypto_payment''
      else if lg_currency r = ''BRL'' \<and> coalesce (lg_qr_data r) \<noteq> '''' then ''qr''
      else ''bank_transfer'')"

definition legacyPaymentData :: "string \<Rightarrow> string \<Rightarrow> string \<Rightarrow> string \<Rightarrow> jmap" where
  "legacyPaymentData provider actionURL qr reference =
     (if provider = ''binancepay'' then
        let redirect = [(''recommendedAlternative'', JStr ''universal''),
              (''links'', JObj [(''universal'', JStr actionURL)])];
            redirect = (if qr \<noteq> '''' then redirect @ [(''qr'', JObj [(''content'', JStr qr)])] else redirect)
        in [(''type'', JStr ''redirect''), (''redirect'', JObj redirect)]
      else
        let bank = (if reference \<noteq> '''' then [(''transferReference'', JStr reference)] else [])
        in [(''type'', JStr ''bank_transfer''), (''bankTransfer'', JObj bank)])"

definition legacy_base :: "legacy_row \<Rightarrow> payment" where
  "legacy_base r = zero_payment
     \<lparr>pay_TransactionID := lg_id r, pay_AccountID := coalesce (lg_account_id r),
      pay_MerchantID := lg_merchant_id r, pay_ExternalID := coalesce (lg_external_id r),
      pay_Status := lg_status r, pay_Amount := lg_amount r, pay_Currency := lg_currency r,
      pay_PaymentMethod := legacy_method r, pay_Description := coalesce (lg_description r),
      pay_CreationDate := lg_created_at r,
      pay_ExpirationDate := (case lg_expiration r of Some t \<Rightarrow> t | None \<Rightarrow> 0),
      pay_ActionURL := coalesce (lg_action_url r), pay_Customer := lg_customer r,
      pay_Metadata := lg_metadata r, pay_Origin := ''v1''\<rparr>"

definition scanLegacy :: "legacy_row \<Rightarrow> payment" where
  "scanLegacy r = (legacy_base r)
     \<lparr>pay_PaymentData := legacyPaymentData (lg_provider r) (coalesce (lg_action_url r))
        (coalesce (lg_qr_data r)) (coalesce (lg_coinag_reference r))\<rparr>"

definition getLegacy :: "pg_env \<Rightarrow> string \<Rightarrow> string \<Rightarrow> string \<Rightarrow> (pgstate, payment) go_io" where
  "getLegacy E accountID merchantID transactionID =
     db_query E (\<lambda>db.
       case en_uuid E transactionID of
         None \<Rightarrow> Inl db_error
       | Some t \<Rightarrow>
           (case find (\<lambda>r. lg_id r = t \<and> scope_strict merchantID accountID (lg_merchant_id r) (coalesce (lg_account_id r)))
                   (db_legacy_payments db) of
              None \<Rightarrow> Inl ErrNotFound
            | Some r \<Rightarrow> Inr (scanLegacy r)))"

section \<open>The consolidated listing\<close>

text \<open>
  The two branches of the \<^verbatim>\<open>UNION ALL\<close>. The listing builds \<^verbatim>\<open>paymentData\<close> of a V1 row in SQL:
  \<^verbatim>\<open>jsonb_strip_nulls\<close> drops the members that are null, at every depth.
\<close>

definition strip_null :: "string \<Rightarrow> string option \<Rightarrow> jmap" where
  "strip_null k v = (case v of None \<Rightarrow> [] | Some x \<Rightarrow> [(k, JStr x)])"

definition listed_legacy_data :: "legacy_row \<Rightarrow> jmap" where
  "listed_legacy_data r =
     (if lg_provider r = ''binancepay'' then
        [(''type'', JStr ''redirect''),
         (''redirect'', JObj ([(''recommendedAlternative'', JStr ''universal''),
            (''links'', JObj (strip_null ''universal'' (lg_action_url r)))]
            @ (if coalesce (lg_qr_data r) \<noteq> '''' then [(''qr'', JObj [(''content'', JStr (coalesce (lg_qr_data r)))])] else [])))]
      else [(''type'', JStr ''bank_transfer''),
            (''bankTransfer'', JObj (strip_null ''transferReference'' (lg_coinag_reference r)))])"

definition list_legacy :: "legacy_row \<Rightarrow> payment" where
  "list_legacy r = (legacy_base r)\<lparr>pay_PaymentData := listed_legacy_data r\<rparr>"

definition list_v2 :: "payment_row \<Rightarrow> payment" where
  "list_v2 r = zero_payment
     \<lparr>pay_TransactionID := py_transaction_id r, pay_AccountID := py_account_id r,
      pay_MerchantID := py_merchant_id r, pay_ExternalID := py_external_id r,
      pay_Status := py_status r, pay_Amount := py_amount r, pay_Currency := py_currency r,
      pay_PaymentMethod := py_payment_method r, pay_Description := coalesce (py_description r),
      pay_CreationDate := py_creation_date r, pay_ExpirationDate := py_expiration_date r,
      pay_ActionURL := py_action_url r, pay_Customer := py_customer r, pay_Metadata := py_metadata r,
      pay_PaymentData := py_payment_data r, pay_Origin := ''v2''\<rparr>"

definition all_payments :: "pgdb \<Rightarrow> payment list" where
  "all_payments db = map list_v2 (db_payments db) @ map list_legacy (db_legacy_payments db)"

text \<open>The row comparison \<^verbatim>\<open>(creation_date,transaction_id) < ($3,$4)\<close>; text compares bytewise.\<close>

definition after_cursor :: "(time \<times> string) option \<Rightarrow> payment \<Rightarrow> bool" where
  "after_cursor c p \<longleftrightarrow>
     (case c of None \<Rightarrow> True
      | Some (t, i) \<Rightarrow> pay_CreationDate p < t \<or> (pay_CreationDate p = t \<and> pay_TransactionID p < i))"

definition consolidatedSelect ::
  "string \<Rightarrow> string \<Rightarrow> (time \<times> string) option \<Rightarrow> nat \<Rightarrow> pgdb \<Rightarrow> payment list" where
  "consolidatedSelect merchantID accountID cursor limit db =
     take limit (sort_by payment_before
       (filter (\<lambda>p. scope_strict merchantID accountID (pay_MerchantID p) (pay_AccountID p) \<and> after_cursor cursor p)
          (all_payments db)))"

text \<open>The cursor of a page: \<^verbatim>\<open>createdAt\<close> and \<^verbatim>\<open>id\<close> of its last payment.\<close>

type_synonym pageCursor = "time \<times> string"

definition encode_cursor :: "pg_env \<Rightarrow> pageCursor \<Rightarrow> string" where
  "encode_cursor E cursor = b64_encode (en_marshal_cursor E cursor)"

definition decode_cursor :: "pg_env \<Rightarrow> string \<Rightarrow> pageCursor option" where
  "decode_cursor E c = Option.bind (b64_decode c) (en_unmarshal_cursor E)"

definition page_cursor :: "pg_env \<Rightarrow> string \<Rightarrow> go_error + pageCursor option" where
  "page_cursor E c =
     (if c = '''' then Inr None
      else case decode_cursor E c of
        None \<Rightarrow> Inl (ErrWrap '''' ErrInvalid '': invalid cursor'')
      | Some (t, i) \<Rightarrow>
          if t = 0 \<or> i = '''' then Inl (ErrWrap '''' ErrInvalid '': invalid cursor'')
          else Inr (Some (pg_time t, i)))"

definition pg_List :: "pg_env \<Rightarrow> string \<Rightarrow> string \<Rightarrow> payment_list_options \<Rightarrow> (pgstate, payment_page) go_io" where
  "pg_List E accountID merchantID options =
     (let limit = nat (list_limit (plo_Limit options)) in
      case page_cursor E (plo_Cursor options) of
        Inl e \<Rightarrow> io_fail e
      | Inr cursor \<Rightarrow>
          db_query E (\<lambda>db.
            let items = consolidatedSelect merchantID accountID cursor (limit + 1) db;
                hasMore = limit < length items;
                items = (if hasMore then take limit items else items);
                next = (if hasMore \<and> items \<noteq> []
                        then encode_cursor E (pay_CreationDate (last items), pay_TransactionID (last items)) else '''')
            in Inr \<lparr>pp_Data = items, pp_HasMore = hasMore, pp_NextCursor = next\<rparr>))"

text \<open>A client that follows the cursors until \<^verbatim>\<open>hasMore\<close> is false, with at most \<open>n\<close> requests.\<close>

fun follow_pages ::
  "pg_env \<Rightarrow> string \<Rightarrow> string \<Rightarrow> int \<Rightarrow> nat \<Rightarrow> string \<Rightarrow> pgstate \<Rightarrow> payment list option" where
  "follow_pages E a m limit 0 c s = None"
| "follow_pages E a m limit (Suc n) c s =
     (case pg_List E a m \<lparr>plo_Limit = limit, plo_Cursor = c\<rparr> s of
        (Inl e, s') \<Rightarrow> None
      | (Inr page, s') \<Rightarrow>
          if pp_HasMore page
          then map_option (\<lambda>rest. pp_Data page @ rest) (follow_pages E a m limit n (pp_NextCursor page) s')
          else Some (pp_Data page))"

section \<open>Lemmas\<close>

lemma list_v2_fields [simp]:
  "pay_TransactionID (list_v2 r) = py_transaction_id r" "pay_CreationDate (list_v2 r) = py_creation_date r"
  "pay_MerchantID (list_v2 r) = py_merchant_id r" "pay_AccountID (list_v2 r) = py_account_id r"
  by (simp_all add: list_v2_def)

lemma list_legacy_fields [simp]:
  "pay_TransactionID (list_legacy r) = lg_id r" "pay_CreationDate (list_legacy r) = lg_created_at r"
  "pay_MerchantID (list_legacy r) = lg_merchant_id r" "pay_AccountID (list_legacy r) = coalesce (lg_account_id r)"
  by (simp_all add: list_legacy_def legacy_base_def)

lemma filter_sort_by:
  assumes trans: "\<And>a b c. lt a b \<Longrightarrow> lt b c \<Longrightarrow> lt a c" and asym: "\<And>a b. lt a b \<Longrightarrow> \<not> lt b a"
    and total: "\<And>a b. a \<noteq> b \<Longrightarrow> a \<in> set xs \<Longrightarrow> b \<in> set xs \<Longrightarrow> lt a b \<or> lt b a"
    and "distinct xs"
  shows "sort_by lt (filter P xs) = filter P (sort_by lt xs)"
proof (rule sorted_wrt_unique [of lt])
  show "sorted_wrt lt (sort_by lt (filter P xs))"
    by (rule sorted_sort_by [OF trans]) (use total \<open>distinct xs\<close> in auto)
  have "sorted_wrt lt (sort_by lt xs)"
    by (rule sorted_sort_by [OF trans total \<open>distinct xs\<close>]) auto
  then show "sorted_wrt lt (filter P (sort_by lt xs))" by (rule sorted_wrt_filter)
qed (use asym in auto)

text \<open>In a sorted list the elements behind the \<open>n\<close>-th are those that come after it.\<close>

lemma filter_after_nth:
  assumes asym: "\<And>a b. lt a b \<Longrightarrow> \<not> lt b a" and "sorted_wrt lt xs" and "n < length xs"
  shows "filter (lt (xs ! n)) xs = drop (Suc n) xs"
proof -
  have split: "xs = take n xs @ xs ! n # drop (Suc n) xs" using assms(3) by (rule id_take_nth_drop)
  with assms(2) have s: "sorted_wrt lt (take n xs @ xs ! n # drop (Suc n) xs)" by simp
  have "\<not> lt (xs ! n) x" if "x \<in> set (take n xs)" for x
    using s that asym by (auto simp: sorted_wrt_append)
  moreover have "lt (xs ! n) x" if "x \<in> set (drop (Suc n) xs)" for x
    using s that by (auto simp: sorted_wrt_append)
  moreover have "\<not> lt (xs ! n) (xs ! n)" using asym by blast
  ultimately have "filter (lt (xs ! n)) (take n xs @ xs ! n # drop (Suc n) xs) = drop (Suc n) xs"
    by (simp add: filter_id_conv filter_empty_conv)
  with split show ?thesis by simp
qed

text \<open>The visible payments in the order of the listing, and when the cursors can address them.\<close>

definition visible_payments :: "string \<Rightarrow> string \<Rightarrow> pgdb \<Rightarrow> payment list" where
  "visible_payments a m db = filter (\<lambda>p. scope_strict m a (pay_MerchantID p) (pay_AccountID p)) (all_payments db)"

definition addressable :: "pg_env \<Rightarrow> payment list \<Rightarrow> bool" where
  "addressable E ps \<longleftrightarrow> distinct (map pay_TransactionID ps) \<and>
     (\<forall>p \<in> set ps. pay_CreationDate p \<noteq> 0 \<and> pay_TransactionID p \<noteq> '''' \<and>
        pg_time (pay_CreationDate p) = pay_CreationDate p \<and>
        en_marshal_cursor E (pay_CreationDate p, pay_TransactionID p) \<noteq> '''' \<and>
        en_unmarshal_cursor E (en_marshal_cursor E (pay_CreationDate p, pay_TransactionID p)) =
          Some (pay_CreationDate p, pay_TransactionID p))"

lemma addressable_cursor:
  assumes "addressable E ps" and "p \<in> set ps"
  shows "encode_cursor E (pay_CreationDate p, pay_TransactionID p) \<noteq> ''''"
    and "decode_cursor E (encode_cursor E (pay_CreationDate p, pay_TransactionID p)) = Some (pay_CreationDate p, pay_TransactionID p)"
  using assms by (simp_all add: addressable_def encode_cursor_def decode_cursor_def b64_encode_empty b64_roundtrip)

lemma addressable_total:
  "addressable E ps \<Longrightarrow> p \<noteq> q \<Longrightarrow> p \<in> set ps \<Longrightarrow> q \<in> set ps \<Longrightarrow> payment_before p q \<or> payment_before q p"
  unfolding addressable_def using payment_before_total by (metis distinct_map inj_onD)

lemma addressable_distinct: "addressable E ps \<Longrightarrow> distinct ps"
  by (auto simp: addressable_def distinct_map)

lemma listing_sorted:
  "addressable E ps \<Longrightarrow> sorted_wrt payment_before (sort_by payment_before ps)"
  by (rule sorted_sort_by [OF payment_before_trans]) (use addressable_total addressable_distinct in blast)+

lemma consolidated_filter:
  assumes "addressable E (visible_payments a m db)"
  shows "consolidatedSelect m a c n db = take n (filter (after_cursor c) (sort_by payment_before (visible_payments a m db)))"
proof -
  have "filter (\<lambda>p. scope_strict m a (pay_MerchantID p) (pay_AccountID p) \<and> after_cursor c p) (all_payments db)
      = filter (after_cursor c) (visible_payments a m db)"
    unfolding visible_payments_def filter_filter by meson
  moreover have "sort_by payment_before (filter (after_cursor c) (visible_payments a m db)) =
      filter (after_cursor c) (sort_by payment_before (visible_payments a m db))"
    by (rule filter_sort_by)
       (use addressable_total [OF assms] addressable_distinct [OF assms] in
        \<open>auto dest: payment_before_trans payment_before_asym\<close>)
  ultimately show ?thesis by (simp add: consolidatedSelect_def)
qed

lemma after_own_cursor:
  "after_cursor (Some (pay_CreationDate p, pay_TransactionID p)) = payment_before p"
  by (auto simp: after_cursor_def payment_before_def fun_eq_iff)

lemma follow_pages_from:
  assumes adr: "addressable E (visible_payments a m (pg_db s))" and up: "pg_up E s"
    and "page_cursor E c = Inr cur" and "k \<le> length (visible_payments a m (pg_db s))"
    and "filter (after_cursor cur) (sort_by payment_before (visible_payments a m (pg_db s))) =
         drop k (sort_by payment_before (visible_payments a m (pg_db s)))"
    and "length (visible_payments a m (pg_db s)) - k < n"
  shows "follow_pages E a m limit n c s = Some (drop k (sort_by payment_before (visible_payments a m (pg_db s))))"
  using assms
proof (induction n arbitrary: c cur k s)
  case 0
  then show ?case by simp
next
  case (Suc n)
  let ?vs = "visible_payments a m (pg_db s)"
  let ?xs = "sort_by payment_before ?vs" and ?l = "nat (list_limit limit)"
  let ?s' = "s\<lparr>pg_tick := Suc (pg_tick s)\<rparr>"
  have l: "0 < ?l" using list_limit_bounds [of limit] by simp
  let ?items = "take ?l (drop k ?xs)" and ?more = "?l < length (drop k ?xs)"
  let ?next = "if ?more \<and> ?items \<noteq> [] then encode_cursor E (pay_CreationDate (last ?items), pay_TransactionID (last ?items)) else ''''"
  have page: "pg_List E a m \<lparr>plo_Limit = limit, plo_Cursor = c\<rparr> s =
      (Inr \<lparr>pp_Data = ?items, pp_HasMore = ?more, pp_NextCursor = ?next\<rparr>, ?s')"
    using Suc.prems(3,5)
    by (auto simp: pg_List_def Let_def db_query_up [OF Suc.prems(2)] consolidated_filter [OF Suc.prems(1)] take_all_iff min_def)
  show ?case
  proof (cases ?more)
    case False
    with page show ?thesis by simp
  next
    case True
    let ?j = "k + ?l - 1"
    have j: "?j < length ?xs" using True l by auto
    have last: "last ?items = ?xs ! ?j"
      using True l by (subst last_conv_nth) (auto simp: nth_append)
    have mem: "?xs ! ?j \<in> set ?vs" using nth_mem [OF j] by simp
    have cur: "page_cursor E ?next = Inr (Some (pay_CreationDate (?xs ! ?j), pay_TransactionID (?xs ! ?j)))"
      using addressable_cursor [OF Suc.prems(1) mem] Suc.prems(1) mem last True l
      by (auto simp: addressable_def page_cursor_def)
    have "filter (after_cursor (Some (pay_CreationDate (?xs ! ?j), pay_TransactionID (?xs ! ?j)))) ?xs = drop (Suc ?j) ?xs"
      unfolding after_own_cursor
      by (rule filter_after_nth [OF payment_before_asym listing_sorted [OF Suc.prems(1)] j])
    moreover have "Suc ?j = k + ?l" using l by simp
    ultimately have filt: "filter (after_cursor (Some (pay_CreationDate (?xs ! ?j), pay_TransactionID (?xs ! ?j)))) ?xs = drop (k + ?l) ?xs"
      by simp
    have "follow_pages E a m limit n ?next ?s' = Some (drop (k + ?l) ?xs)"
    proof -
      have "pg_up E ?s'" by (rule pg_up_later [OF Suc.prems(2)]) simp
      moreover have "k + ?l \<le> length ?vs" "length ?vs - (k + ?l) < n"
        using True l Suc.prems(6) by auto
      ultimately show ?thesis
        using Suc.IH [of ?s' ?next _ "k + ?l"] Suc.prems(1) cur filt by simp
    qed
    moreover have "take ?l (drop k ?xs) @ drop (k + ?l) ?xs = drop k ?xs"
      using append_take_drop_id [of ?l "drop k ?xs"] by (simp add: add.commute)
    ultimately show ?thesis using page True l by simp
  qed
qed

section \<open>Properties\<close>

text \<open>
  C14: pagination is complete. When the JSON of the cursors of the visible payments can be read back and
  identifiers do not repeat, a client that starts without a cursor and follows \<^verbatim>\<open>nextCursor\<close>
  collects every visible V1 and V2 payment exactly once, in the order of the listing, whatever
  the page size, and reaches the last page after at most one request per payment and one more.
\<close>

theorem follow_pages_complete:
  assumes "pg_up E s" and "addressable E (visible_payments a m (pg_db s))"
  shows "follow_pages E a m limit (Suc (length (visible_payments a m (pg_db s)))) '''' s =
      Some (sort_by payment_before (visible_payments a m (pg_db s)))
    \<and> sorted_wrt payment_before (sort_by payment_before (visible_payments a m (pg_db s)))
    \<and> mset (sort_by payment_before (visible_payments a m (pg_db s))) = mset (visible_payments a m (pg_db s))"
  using follow_pages_from [OF assms(2,1), of "''''" None 0] listing_sorted [OF assms(2)]
    addressable_distinct [OF assms(2)]
  by (simp add: page_cursor_def after_cursor_def set_eq_iff_mset_eq_distinct [symmetric] del: follow_pages.simps)

definition ex_legacy :: "string \<Rightarrow> time \<Rightarrow> legacy_row" where
  "ex_legacy i t = \<lparr>lg_id = i, lg_account_id = None, lg_merchant_id = ''m'', lg_external_id = None, lg_status = ''pending'',
     lg_amount = ''10'', lg_currency = ''BRL'', lg_provider = ''coinag'', lg_description = None, lg_created_at = t,
     lg_expiration = None, lg_action_url = None, lg_customer = [], lg_metadata = [], lg_qr_data = None,
     lg_coinag_reference = None\<rparr>"

theorem follow_pages_complete_witness:
  "map_option (map pay_TransactionID) (follow_pages ex_env '''' ''m'' 1 3 ''''
     \<lparr>pg_db = empty_db\<lparr>db_legacy_payments := [ex_legacy ''t1'' 1000, ex_legacy ''t2'' 2000]\<rparr>, pg_tick = 0\<rparr>) =
   Some [''t2'', ''t1'']"
proof -
  let ?s = "\<lparr>pg_db = empty_db\<lparr>db_legacy_payments := [ex_legacy ''t1'' 1000, ex_legacy ''t2'' 2000]\<rparr>, pg_tick = 0\<rparr>"
  have vis: "visible_payments '''' ''m'' (pg_db ?s) = [list_legacy (ex_legacy ''t1'' 1000), list_legacy (ex_legacy ''t2'' 2000)]"
    by (simp add: visible_payments_def all_payments_def empty_db_def scope_strict_def ex_legacy_def)
  have "addressable ex_env (visible_payments '''' ''m'' (pg_db ?s))"
    unfolding vis by (simp add: addressable_def ex_env_def ex_legacy_def pg_time_def numeral_2_eq_2)
  from follow_pages_complete [OF ex_env_up this, THEN conjunct1, of 1]
  have "follow_pages ex_env '''' ''m'' 1 3 '''' ?s =
      Some (sort_by payment_before [list_legacy (ex_legacy ''t1'' 1000), list_legacy (ex_legacy ''t2'' 2000)])"
    unfolding vis by (simp add: numeral_3_eq_3 del: follow_pages.simps)
  then show ?thesis
    by (simp add: sort_by_def payment_before_def del: follow_pages.simps) (simp add: ex_legacy_def)
qed

text \<open>
  C26: the two ways of reading a V1 payment agree on everything except \<^verbatim>\<open>paymentData\<close>, and agree
  on that too unless the provider is Binance Pay and the address is missing (the listing then
  leaves the link out, the single read gives an empty one) or another provider has an empty bank
  reference (the listing then publishes it, the single read leaves it out).
\<close>

theorem legacy_read_agrees:
  "(list_legacy r)\<lparr>pay_PaymentData := []\<rparr> = (scanLegacy r)\<lparr>pay_PaymentData := []\<rparr>
   \<and> (list_legacy r = scanLegacy r \<longleftrightarrow>
       (if lg_provider r = ''binancepay'' then lg_action_url r \<noteq> None else lg_coinag_reference r \<noteq> Some ''''))"
proof
  show "(list_legacy r)\<lparr>pay_PaymentData := []\<rparr> = (scanLegacy r)\<lparr>pay_PaymentData := []\<rparr>"
    by (simp add: list_legacy_def scanLegacy_def)
  have "list_legacy r = scanLegacy r \<longleftrightarrow> pay_PaymentData (list_legacy r) = pay_PaymentData (scanLegacy r)"
  proof
    assume "list_legacy r = scanLegacy r"
    then show "pay_PaymentData (list_legacy r) = pay_PaymentData (scanLegacy r)" by simp
  next
    assume "pay_PaymentData (list_legacy r) = pay_PaymentData (scanLegacy r)"
    then show "list_legacy r = scanLegacy r" by (simp add: list_legacy_def scanLegacy_def)
  qed
  then show "list_legacy r = scanLegacy r \<longleftrightarrow>
       (if lg_provider r = ''binancepay'' then lg_action_url r \<noteq> None else lg_coinag_reference r \<noteq> Some '''')"
    by (auto simp: list_legacy_def scanLegacy_def listed_legacy_data_def legacyPaymentData_def strip_null_def
        coalesce_def Let_def split: option.splits)
qed

end
