(* ===== verification/Pg_Payments.thy ===== *)
theory Pg_Payments
  imports Pg_Legacy
begin

text \<open>
  \<^verbatim>\<open>adapters/postgres/store.go\<close>: the PostgreSQL payment store. Each SQL statement is one
  \<open>db_exec\<close> or \<open>db_query\<close>; the two operations that write several tables run in one \<open>db_tx\<close>.
\<close>

section \<open>Rows and payments\<close>

definition idem_key :: "idem_row \<Rightarrow> string \<times> string" where
  "idem_key r = (ix_merchant_id r, ix_idempotency_key r)"

definition row_of_payment :: "string \<Rightarrow> payment \<Rightarrow> payment_row" where
  "row_of_payment i p =
     \<lparr>py_transaction_id = i, py_account_id = pay_AccountID p, py_merchant_id = pay_MerchantID p,
      py_external_id = pay_ExternalID p, py_status = pay_Status p, py_amount = pay_Amount p,
      py_currency = pay_Currency p, py_payment_method = pay_PaymentMethod p,
      py_description = nullif (pay_Description p), py_creation_date = pg_time (pay_CreationDate p),
      py_expiration_date = pg_time (pay_ExpirationDate p), py_action_url = pay_ActionURL p,
      py_customer = pay_Customer p, py_metadata = pay_Metadata p, py_payment_data = pay_PaymentData p,
      py_provider_payment_id = pay_ProviderPaymentID p, py_provider_reference = nullif (pay_ProviderReference p),
      py_route_decision = pay_Route p, py_resource_version = pay_Version p\<rparr>"

definition payment_of_row :: "payment_row \<Rightarrow> payment" where
  "payment_of_row r =
     \<lparr>pay_TransactionID = py_transaction_id r, pay_MerchantID = py_merchant_id r,
      pay_AccountID = py_account_id r, pay_ExternalID = py_external_id r, pay_Status = py_status r,
      pay_Amount = py_amount r, pay_Currency = py_currency r, pay_PaymentMethod = py_payment_method r,
      pay_Description = coalesce (py_description r), pay_CreationDate = py_creation_date r,
      pay_ExpirationDate = py_expiration_date r, pay_ActionURL = py_action_url r,
      pay_Customer = py_customer r, pay_Metadata = py_metadata r, pay_PaymentData = py_payment_data r,
      pay_ProviderPaymentID = py_provider_payment_id r,
      pay_ProviderReference = coalesce (py_provider_reference r), pay_Route = py_route_decision r,
      pay_Version = py_resource_version r, pay_Origin = ''''\<rparr>"

section \<open>Operations\<close>

definition getV2 :: "pg_env \<Rightarrow> string \<Rightarrow> string \<Rightarrow> string \<Rightarrow> (pgstate, payment) go_io" where
  "getV2 E accountID merchantID transactionID =
     db_query E (\<lambda>db.
       case en_uuid E transactionID of
         None \<Rightarrow> Inl db_error
       | Some t \<Rightarrow>
           (case find (\<lambda>r. py_transaction_id r = t \<and> scope_strict merchantID accountID (py_merchant_id r) (py_account_id r))
                   (db_payments db) of
              None \<Rightarrow> Inl ErrNotFound
            | Some r \<Rightarrow> Inr ((payment_of_row r)\<lparr>pay_Origin := ''v2''\<rparr>)))"

definition pg_Get :: "pg_env \<Rightarrow> string \<Rightarrow> string \<Rightarrow> string \<Rightarrow> (pgstate, payment) go_io" where
  "pg_Get E accountID merchantID transactionID s =
     (case getV2 E accountID merchantID transactionID s of
        (Inl e, s') \<Rightarrow> if errors_is e ErrNotFound then getLegacy E accountID merchantID transactionID s' else (Inl e, s')
      | (Inr p, s') \<Rightarrow> (Inr p, s'))"

definition pg_BeginCreate ::
  "pg_env \<Rightarrow> string \<Rightarrow> string \<Rightarrow> string \<Rightarrow> string \<Rightarrow> (pgstate, payment \<times> bool) go_io" where
  "pg_BeginCreate E merchantID key hash transactionID =
     io_bind (db_exec E (\<lambda>db.
         case en_uuid E transactionID of
           None \<Rightarrow> Inl db_error
         | Some t \<Rightarrow>
             if sql_conflict idem_key (merchantID, key) (db_idempotency db) then Inr (0, db)
             else Inr (1, db\<lparr>db_idempotency := db_idempotency db @
                [\<lparr>ix_merchant_id = merchantID, ix_idempotency_key = key, ix_request_hash = hash,
                  ix_resource_id = t, ix_status = ''pending''\<rparr>]\<rparr>)))
       (\<lambda>affected.
         if affected = (1 :: nat) then io_return (zero_payment, False)
         else
           io_bind (db_query E (\<lambda>db.
               case find (\<lambda>r. idem_key r = (merchantID, key)) (db_idempotency db) of
                 None \<Rightarrow> Inl no_rows
               | Some r \<Rightarrow> Inr (ix_request_hash r, ix_resource_id r, ix_status r)))
             (\<lambda>(storedHash, storedID, status).
               if storedHash \<noteq> hash then io_fail ErrConflict
               else if status \<noteq> ''complete'' then io_fail ErrInProgress
               else io_bind (pg_Get E '''' merchantID storedID) (\<lambda>p. io_return (p, True))))"

definition insert_payment :: "pg_env \<Rightarrow> payment \<Rightarrow> (pgstate, unit) go_io" where
  "insert_payment E p = db_exec E (\<lambda>db.
     case en_uuid E (pay_TransactionID p) of
       None \<Rightarrow> Inl db_error
     | Some t \<Rightarrow>
         if sql_conflict py_transaction_id t (db_payments db) then Inl db_error
         else Inr ((), db\<lparr>db_payments := db_payments db @ [row_of_payment t p]\<rparr>))"

definition insert_deliveries ::
  "pg_env \<Rightarrow> time \<Rightarrow> string \<Rightarrow> string \<Rightarrow> string \<Rightarrow> string \<Rightarrow> event_payload option \<Rightarrow> (pgstate, unit) go_io" where
  "insert_deliveries E now merchantID accountID eventID eventType payload = db_exec E (\<lambda>db.
     case payload of None \<Rightarrow> Inl db_error
     | Some body \<Rightarrow> Inr ((), fan_out now merchantID accountID eventID eventType body db))"

definition complete_idempotency :: "pg_env \<Rightarrow> string \<Rightarrow> string \<Rightarrow> string \<Rightarrow> (pgstate, nat) go_io" where
  "complete_idempotency E merchantID key transactionID = db_exec E (\<lambda>db.
     case en_uuid E transactionID of
       None \<Rightarrow> Inl db_error
     | Some t \<Rightarrow>
         let hit = (\<lambda>r. idem_key r = (merchantID, key) \<and> ix_resource_id r = t \<and> ix_status r = ''pending'')
         in Inr (sql_count hit (db_idempotency db),
               db\<lparr>db_idempotency := sql_update hit (\<lambda>r. r\<lparr>ix_status := ''complete''\<rparr>) (db_idempotency db)\<rparr>))"

definition pg_CompleteCreate :: "pg_env \<Rightarrow> payment \<Rightarrow> merchant_event \<Rightarrow> string \<Rightarrow> (pgstate, unit) go_io" where
  "pg_CompleteCreate E p event key =
     db_tx E (\<lambda>now.
       io_bind (insert_payment E p) (\<lambda>_.
       io_bind (insert_deliveries E now (pay_MerchantID p) (pay_AccountID p) (me_EventID event) (me_EventType event)
           (me_Payload event)) (\<lambda>_.
       io_bind (complete_idempotency E (pay_MerchantID p) key (pay_TransactionID p)) (\<lambda>affected.
         if affected \<noteq> 1 then io_fail ErrConflict else io_return ()))))"

definition pg_ReleaseCreate :: "pg_env \<Rightarrow> string \<Rightarrow> string \<Rightarrow> (pgstate, unit) go_io" where
  "pg_ReleaseCreate E merchantID key = db_exec E (\<lambda>db.
     Inr ((), db\<lparr>db_idempotency :=
       sql_delete (\<lambda>r. idem_key r = (merchantID, key) \<and> ix_status r = ''pending'') (db_idempotency db)\<rparr>))"

text \<open>\<^verbatim>\<open>ApplyProviderEvent\<close>: the statements of its transaction, then the whole.\<close>

definition record_event :: "pg_env \<Rightarrow> provider_event \<Rightarrow> (pgstate, nat) go_io" where
  "record_event E event = db_exec E (\<lambda>db.
     case en_uuid E (ev_TransactionID event) of
       None \<Rightarrow> Inl db_error
     | Some t \<Rightarrow>
         if sql_conflict pv_event_id (ev_EventID event) (db_provider_events db) then Inr (0, db)
         else Inr (1, db\<lparr>db_provider_events := db_provider_events db @
            [\<lparr>pv_event_id = ev_EventID event, pv_event_type = ev_EventType event, pv_transaction_id = Some t,
              pv_payout_id = None, pv_provider = ev_Provider event, pv_source = ev_Source event,
              pv_payload = event, pv_changed_state = False\<rparr>]\<rparr>))"

definition select_for_update :: "pg_env \<Rightarrow> string \<Rightarrow> (pgstate, payment) go_io" where
  "select_for_update E transactionID = db_query E (\<lambda>db.
     case en_uuid E transactionID of
       None \<Rightarrow> Inl db_error
     | Some t \<Rightarrow>
         (case find (\<lambda>r. py_transaction_id r = t) (db_payments db) of
            None \<Rightarrow> Inl ErrNotFound
          | Some r \<Rightarrow> Inr (payment_of_row r)))"

definition update_payment :: "pg_env \<Rightarrow> string \<Rightarrow> string \<Rightarrow> string \<Rightarrow> int64 \<Rightarrow> (pgstate, unit) go_io" where
  "update_payment E transactionID status reference version = db_exec E (\<lambda>db.
     case en_uuid E transactionID of
       None \<Rightarrow> Inl db_error
     | Some t \<Rightarrow>
         Inr ((), db\<lparr>db_payments := sql_update (\<lambda>r. py_transaction_id r = t)
            (\<lambda>r. r\<lparr>py_status := status, py_provider_reference := keep_unless reference (py_provider_reference r),
                   py_resource_version := version\<rparr>) (db_payments db)\<rparr>))"

definition outbox_key :: "outbox_row \<Rightarrow> string \<times> string" where
  "outbox_key r = (ob_ref_type r, ob_ref_id r)"

definition insert_cashin :: "pg_env \<Rightarrow> time \<Rightarrow> payment \<Rightarrow> (pgstate, unit) go_io" where
  "insert_cashin E now p = db_exec E (\<lambda>db.
     Inr ((), if sql_conflict outbox_key (''cashin'', pay_TransactionID p) (db_balance_outbox db) then db
       else db\<lparr>db_balance_outbox := db_balance_outbox db @
         [\<lparr>ob_id = length (db_balance_outbox db), ob_ref_type = ''cashin'', ob_ref_id = pay_TransactionID p,
           ob_account_id = pay_AccountID p, ob_amount = pay_Amount p, ob_currency = pay_Currency p, ob_sent = False,
           ob_attempt_count = 0, ob_next_attempt_at = now, ob_created_at = now, ob_sent_at = None,
           ob_last_error = None\<rparr>]\<rparr>))"

definition mark_changed :: "pg_env \<Rightarrow> string \<Rightarrow> (pgstate, unit) go_io" where
  "mark_changed E eventID = db_exec E (\<lambda>db.
     Inr ((), db\<lparr>db_provider_events := sql_update (\<lambda>r. pv_event_id r = eventID)
        (\<lambda>r. r\<lparr>pv_changed_state := True\<rparr>) (db_provider_events db)\<rparr>))"

definition status_changed_payload :: "provider_event \<Rightarrow> string \<Rightarrow> string \<Rightarrow> payment \<Rightarrow> event_payload" where
  "status_changed_payload event merchantEventID previous p =
     \<lparr>ep_eventId = merchantEventID, ep_eventType = ''payment.status_changed'', ep_apiVersion = ''2'',
      ep_merchantId = pay_MerchantID p, ep_creationDate = ev_ObservedAt event, ep_resourceVersion = pay_Version p,
      ep_previousStatus = Some previous, ep_object = ResPayment p\<rparr>"

definition event_mismatch :: "payment \<Rightarrow> provider_event \<Rightarrow> bool" where
  "event_mismatch p event \<longleftrightarrow>
     rd_Provider (pay_Route p) \<noteq> ev_Provider event \<or>
     rd_ProviderConnectionID (pay_Route p) \<noteq> ev_ProviderConnectionID event \<or>
     pay_ProviderPaymentID p \<noteq> ev_ProviderPaymentID event"

definition change_status ::
  "pg_env \<Rightarrow> time \<Rightarrow> provider_event \<Rightarrow> string \<Rightarrow> payment \<Rightarrow> string \<Rightarrow> (pgstate, event_result) go_io" where
  "change_status E now event merchantEventID p next =
     (let previous = pay_Status p;
          p = p\<lparr>pay_Status := next, pay_Version := pay_Version p + 1\<rparr>
      in io_bind (update_payment E (pay_TransactionID p) (pay_Status p) (ed_ProviderReference (ev_Data event)) (pay_Version p)) (\<lambda>_.
         io_bind (if next = ''confirmed'' then insert_cashin E now p else io_return ()) (\<lambda>_.
         io_bind (insert_deliveries E now (pay_MerchantID p) (pay_AccountID p) merchantEventID ''payment.status_changed''
             (Some (status_changed_payload event merchantEventID previous p))) (\<lambda>_.
         io_bind (mark_changed E (ev_EventID event)) (\<lambda>_.
           io_return \<lparr>er_Duplicate = False, er_Changed = True, er_Status = pay_Status p\<rparr>)))))"

definition apply_event_tx :: "pg_env \<Rightarrow> provider_event \<Rightarrow> string \<Rightarrow> time \<Rightarrow> (pgstate, event_result) go_io" where
  "apply_event_tx E event merchantEventID now =
     io_bind (record_event E event) (\<lambda>affected.
       if affected = 0 then io_return (zero_result\<lparr>er_Duplicate := True\<rparr>)
       else
         io_bind (select_for_update E (ev_TransactionID event)) (\<lambda>p.
           if event_mismatch p event then io_fail ErrConflict
           else case PublicStatusFromProvider (ed_Status (ev_Data event)) of
             None \<Rightarrow> io_fail ErrConflict
           | Some next \<Rightarrow>
               if next = pay_Status p \<or> \<not> PaymentTransitionAllowed (pay_Status p) next
               then io_return (zero_result\<lparr>er_Status := pay_Status p\<rparr>)
               else change_status E now event merchantEventID p next))"

definition pg_ApplyProviderEvent :: "pg_env \<Rightarrow> provider_event \<Rightarrow> string \<Rightarrow> (pgstate, event_result) go_io" where
  "pg_ApplyProviderEvent E event merchantEventID = db_tx E (apply_event_tx E event merchantEventID)"

definition pg_store :: "pg_env \<Rightarrow> pgstate payment_store" where
  "pg_store E = \<lparr>st_BeginCreate = pg_BeginCreate E, st_CompleteCreate = pg_CompleteCreate E,
     st_ReleaseCreate = pg_ReleaseCreate E, st_Get = pg_Get E, st_List = pg_List E,
     st_ApplyProviderEvent = pg_ApplyProviderEvent E\<rparr>"

section \<open>Views and invariant\<close>

definition pg_slot :: "pgstate \<Rightarrow> string \<Rightarrow> string \<Rightarrow> idem_slot option" where
  "pg_slot s m k = map_option (\<lambda>r. (ix_request_hash r, ix_resource_id r, ix_status r = ''complete''))
     (find (\<lambda>r. idem_key r = (m, k)) (db_idempotency (pg_db s)))"

definition pg_saved :: "pgstate \<Rightarrow> string \<Rightarrow> string \<Rightarrow> payment option" where
  "pg_saved s m t = map_option (\<lambda>r. (payment_of_row r)\<lparr>pay_Origin := ''v2''\<rparr>)
     (find (\<lambda>r. py_transaction_id r = t \<and> py_merchant_id r = m) (db_payments (pg_db s)))"

text \<open>What a payment is after it was written and read: dates in microseconds, origin V2.\<close>

definition pg_reread :: "payment \<Rightarrow> payment" where
  "pg_reread p = p\<lparr>pay_CreationDate := pg_time (pay_CreationDate p),
     pay_ExpirationDate := pg_time (pay_ExpirationDate p), pay_Origin := ''v2''\<rparr>"

definition pg_row :: "pg_env \<Rightarrow> pgdb \<Rightarrow> string \<Rightarrow> payment_row option" where
  "pg_row E db t = (case en_uuid E t of None \<Rightarrow> None | Some u \<Rightarrow> find (\<lambda>r. py_transaction_id r = u) (db_payments db))"

definition pg_status :: "pg_env \<Rightarrow> pgstate \<Rightarrow> string \<Rightarrow> string option" where
  "pg_status E s t = map_option py_status (pg_row E (pg_db s) t)"

definition pg_seen :: "pgstate \<Rightarrow> string \<Rightarrow> bool" where
  "pg_seen s i \<longleftrightarrow> i \<in> pv_event_id ` set (db_provider_events (pg_db s))"

definition pg_same :: "pgstate \<Rightarrow> pgstate \<Rightarrow> bool" where
  "pg_same s s' \<longleftrightarrow> pg_db s' = pg_db s"

text \<open>
  The keys the migration declares, identifiers in canonical form, merchants with an identifier, and the completed idempotency
  records, which point to a payment of their merchant.
\<close>

definition canonical :: "pg_env \<Rightarrow> string \<Rightarrow> bool" where
  "canonical E t \<longleftrightarrow> en_uuid E t = Some t"

text \<open>What is used of the type \<^verbatim>\<open>uuid\<close>: its text form is stable, and version 4 UUIDs in lower case are in that form.\<close>

definition uuid_laws :: "pg_env \<Rightarrow> bool" where
  "uuid_laws E \<longleftrightarrow> (\<forall>t u. en_uuid E t = Some u \<longrightarrow> canonical E u) \<and> (\<forall>t. uuid_v4 t \<longrightarrow> canonical E t)"

definition idem_ok :: "pg_env \<Rightarrow> payment_row list \<Rightarrow> idem_row \<Rightarrow> bool" where
  "idem_ok E ps r \<longleftrightarrow> canonical E (ix_resource_id r) \<and>
     (ix_status r = ''pending'' \<or>
      ix_status r = ''complete'' \<and> (\<exists>p \<in> set ps. py_transaction_id p = ix_resource_id r \<and> py_merchant_id p = ix_merchant_id r))"

definition pg_inv_db :: "pg_env \<Rightarrow> pgdb \<Rightarrow> bool" where
  "pg_inv_db E db \<longleftrightarrow> uuid_laws E \<and> distinct (map idem_key (db_idempotency db)) \<and> distinct (map py_transaction_id (db_payments db)) \<and>
     (\<forall>p \<in> set (db_payments db). canonical E (py_transaction_id p)) \<and>
     (\<forall>r \<in> set (db_idempotency db). idem_ok E (db_payments db) r) \<and>
     (\<forall>m \<in> set (db_merchants db). mr_id m \<noteq> '''')"

definition pg_inv :: "pg_env \<Rightarrow> pgstate \<Rightarrow> bool" where
  "pg_inv E s \<longleftrightarrow> pg_inv_db E (pg_db s)"

lemmas pg_views = pg_slot_def pg_saved_def pg_seen_def

lemma pg_same_views: "pg_same s s' \<Longrightarrow> pg_slot s' = pg_slot s \<and> pg_saved s' = pg_saved s"
  by (simp add: pg_same_def pg_slot_def pg_saved_def fun_eq_iff)

lemma payment_of_row_of_payment:
  "(payment_of_row (row_of_payment t p))\<lparr>pay_Origin := ''v2''\<rparr> = (pg_reread p)\<lparr>pay_TransactionID := t\<rparr>"
  by (simp add: payment_of_row_def row_of_payment_def pg_reread_def)

lemma pg_inv_empty: "uuid_laws E \<Longrightarrow> pg_inv_db E empty_db"
  by (simp add: pg_inv_db_def empty_db_def)

text \<open>The invariant only looks at the two tables.\<close>

lemma pg_inv_db_frame:
  "db_idempotency db' = db_idempotency db \<Longrightarrow> db_payments db' = db_payments db \<Longrightarrow>
   db_merchants db' = db_merchants db \<Longrightarrow> pg_inv_db E db' = pg_inv_db E db"
  by (simp add: pg_inv_db_def)

lemma idem_ok_mono:
  assumes "idem_ok E ps r" and "\<And>p. p \<in> set ps \<Longrightarrow> \<exists>p' \<in> set ps'. py_transaction_id p' = py_transaction_id p \<and> py_merchant_id p' = py_merchant_id p"
  shows "idem_ok E ps' r"
  using assms by (fastforce simp: idem_ok_def)

lemma pg_inv_add_payment:
  assumes "pg_inv_db E db" and "canonical E (py_transaction_id r)" and "py_transaction_id r \<notin> py_transaction_id ` set (db_payments db)"
  shows "pg_inv_db E (db\<lparr>db_payments := db_payments db @ [r]\<rparr>)"
proof -
  have "idem_ok E (db_payments db @ [r]) x" if "idem_ok E (db_payments db) x" for x
    using that by (rule idem_ok_mono) auto
  with assms show ?thesis by (auto simp: pg_inv_db_def)
qed

lemma pg_inv_update_payments:
  assumes "pg_inv_db E db" and "\<And>r. py_transaction_id (f r) = py_transaction_id r" and "\<And>r. py_merchant_id (f r) = py_merchant_id r"
  shows "pg_inv_db E (db\<lparr>db_payments := sql_update P f (db_payments db)\<rparr>)"
proof -
  have "map py_transaction_id (sql_update P f (db_payments db)) = map py_transaction_id (db_payments db)"
    using assms(2) by (simp add: map_sql_update)
  moreover have "idem_ok E (sql_update P f (db_payments db)) r" if "idem_ok E (db_payments db) r" for r
    using that
  proof (rule idem_ok_mono)
    fix p
    assume "p \<in> set (db_payments db)"
    then have "(if P p then f p else p) \<in> set (sql_update P f (db_payments db))" by (simp add: set_sql_update)
    then show "\<exists>p' \<in> set (sql_update P f (db_payments db)).
        py_transaction_id p' = py_transaction_id p \<and> py_merchant_id p' = py_merchant_id p"
      by (rule rev_bexI) (simp add: assms(2,3))
  qed
  ultimately show ?thesis
    using assms by (auto simp: pg_inv_db_def set_sql_update)
qed

section \<open>Reads\<close>

lemma getV2_db [simp]: "getV2 E a m t s = (r, s') \<Longrightarrow> pg_db s' = pg_db s"
  unfolding getV2_def by (auto elim!: db_queryE)

lemma getLegacy_db: "getLegacy E a m t s = (r, s') \<Longrightarrow> pg_db s' = pg_db s"
  unfolding getLegacy_def by (auto elim!: db_queryE)

lemma pg_Get_db: "pg_Get E a m t s = (r, s') \<Longrightarrow> pg_db s' = pg_db s"
  unfolding pg_Get_def by (auto split: prod.splits sum.splits if_splits dest: getV2_db getLegacy_db)

lemma ticks_getV2 [simp, intro]: "ticks (getV2 E a m t)"
  by (simp add: getV2_def)

lemma ticks_getLegacy [simp, intro]: "ticks (getLegacy E a m t)"
  by (simp add: getLegacy_def)

lemma ticks_pg_Get [simp, intro]: "ticks (pg_Get E a m t)"
  unfolding ticks_def
proof
  fix s
  obtain r s1 where 1: "getV2 E a m t s = (r, s1)" by force
  then have "pg_tick s \<le> pg_tick s1" by (rule ticksD [OF ticks_getV2])
  moreover obtain r2 s2 where 2: "getLegacy E a m t s1 = (r2, s2)" by force
  then have "pg_tick s1 \<le> pg_tick s2" by (rule ticksD [OF ticks_getLegacy])
  ultimately show "pg_tick s \<le> pg_tick (snd (pg_Get E a m t s))"
    using 1 2 by (auto simp: pg_Get_def split: sum.splits)
qed

text \<open>A merchant reads a saved payment of its own back.\<close>

lemma find_scope:
  "m \<noteq> '''' \<Longrightarrow> find (\<lambda>r. py_transaction_id r = u \<and> scope_strict m a (py_merchant_id r) (py_account_id r)) ps =
    find (\<lambda>r. py_transaction_id r = u \<and> py_merchant_id r = m) ps"
  by (simp add: scope_strict_def)

lemma getV2_saved:
  assumes "m \<noteq> ''''" and "canonical E t" and "pg_saved s m t = Some p" and "getV2 E a m t s = (r, s')"
  shows "r = Inr p \<or> (\<exists>e. r = Inl e \<and> e = db_error)"
  using assms(4) unfolding getV2_def
  by (rule db_queryE) (use assms(1-3) in \<open>auto simp: canonical_def pg_saved_def find_scope\<close>)

lemma pg_Get_saved:
  assumes "m \<noteq> ''''" and "canonical E t" and "pg_saved s m t = Some p" and "pg_Get E a m t s = (r, s')"
  shows "r = Inr p \<or> r = Inl db_error"
proof -
  obtain r1 s1 where 1: "getV2 E a m t s = (r1, s1)" by fastforce
  from getV2_saved [OF assms(1-3) 1] show ?thesis
    using assms(4) 1 by (auto simp: pg_Get_def db_error_def)
qed

lemma pg_Get_saved_up:
  assumes "pg_up E s" and "m \<noteq> ''''" and "canonical E t" and "pg_saved s m t = Some p"
  shows "\<exists>s'. pg_Get E a m t s = (Inr p, s')"
proof -
  have "getV2 E a m t s = (Inr p, s\<lparr>pg_tick := Suc (pg_tick s)\<rparr>)"
    using assms(2-4) by (auto simp: getV2_def db_query_up [OF assms(1)] canonical_def pg_saved_def find_scope)
  then show ?thesis by (simp add: pg_Get_def)
qed

section \<open>Reserving, completing and releasing a creation\<close>

lemma find_idem_none: "find (\<lambda>r. idem_key r = k) t = None \<longleftrightarrow> \<not> sql_conflict idem_key k t"
  by (auto simp: find_None_iff sql_conflict_iff)

lemma pg_slot_iff:
  "pg_slot s m k = Some (h, t, c) \<longleftrightarrow>
   (\<exists>r. find (\<lambda>r. idem_key r = (m, k)) (db_idempotency (pg_db s)) = Some r \<and>
      ix_request_hash r = h \<and> ix_resource_id r = t \<and> (ix_status r = ''complete'') = c)"
  by (auto simp: pg_slot_def)

lemma pg_slot_complete_saved:
  assumes "pg_inv E s" and "pg_slot s m k = Some (h, t, True)"
  shows "canonical E t \<and> (\<exists>p. pg_saved s m t = Some p)"
proof -
  obtain r where r: "find (\<lambda>r. idem_key r = (m, k)) (db_idempotency (pg_db s)) = Some r"
    "ix_resource_id r = t" "ix_status r = ''complete''"
    using assms(2) by (auto simp: pg_slot_iff)
  then have "r \<in> set (db_idempotency (pg_db s))" "ix_merchant_id r = m"
    by (auto dest!: find_SomeD simp: idem_key_def)
  with assms(1) r obtain p where "canonical E t" "p \<in> set (db_payments (pg_db s))"
    "py_transaction_id p = t" "py_merchant_id p = m"
    by (auto simp: pg_inv_def pg_inv_db_def idem_ok_def)
  then show ?thesis
    by (cases "pg_saved s m t") (auto simp: pg_saved_def find_None_iff)
qed

text \<open>The outcomes of \<^verbatim>\<open>BeginCreate\<close>: an error that changes nothing, a new reservation, or a replay.\<close>

definition pending_row :: "string \<Rightarrow> string \<Rightarrow> string \<Rightarrow> string \<Rightarrow> idem_row" where
  "pending_row m k h t = \<lparr>ix_merchant_id = m, ix_idempotency_key = k, ix_request_hash = h, ix_resource_id = t,
     ix_status = ''pending''\<rparr>"

lemma pg_beginE:
  assumes "pg_BeginCreate E m k h t s = (r, s')"
  obtains (error) e where "r = Inl e" "pg_same s s'"
    | (fresh) u where "r = Inr (zero_payment, False)" "en_uuid E t = Some u"
        "\<not> sql_conflict idem_key (m, k) (db_idempotency (pg_db s))"
        "pg_db s' = (pg_db s)\<lparr>db_idempotency := db_idempotency (pg_db s) @ [pending_row m k h u]\<rparr>"
    | (replay) t' p s1 where "pg_slot s m k = Some (h, t', True)" "r = Inr (p, True)" "pg_db s1 = pg_db s"
        "pg_Get E '''' m t' s1 = (Inr p, s')" "pg_same s s'"
  using assms unfolding pg_BeginCreate_def
proof (cases rule: io_bindE)
  case (error e)
  then show thesis using that(1) by (auto elim!: db_execE simp: pg_same_def)
next
  case (ok n s1)
  from ok(1) show thesis
  proof (cases rule: db_execE)
    case ins: (ok x)
    show thesis
    proof (cases "n = 1")
      case True
      with ins ok(2) show thesis
        using that(2) by (auto simp: io_simps pending_row_def split: option.splits if_splits)
    next
      case False
      with ins have db1: "pg_db s1 = pg_db s" by (auto split: option.splits if_splits)
      from ok(2) False have "io_bind (db_query E (\<lambda>db.
               case find (\<lambda>r. idem_key r = (m, k)) (db_idempotency db) of
                 None \<Rightarrow> Inl no_rows
               | Some r \<Rightarrow> Inr (ix_request_hash r, ix_resource_id r, ix_status r)))
             (\<lambda>(storedHash, storedID, status).
               if storedHash \<noteq> h then io_fail ErrConflict
               else if status \<noteq> ''complete'' then io_fail ErrInProgress
               else io_bind (pg_Get E '''' m storedID) (\<lambda>p. io_return (p, True))) s1 = (r, s')"
        by simp
      then show thesis
      proof (cases rule: io_bindE)
        case (error e)
        then show thesis using that(1) db1 by (auto elim!: db_queryE simp: pg_same_def)
      next
        case (ok row s2)
        then obtain q where q: "find (\<lambda>r. idem_key r = (m, k)) (db_idempotency (pg_db s)) = Some q"
          "row = (ix_request_hash q, ix_resource_id q, ix_status q)" "pg_db s2 = pg_db s"
          using db1 by (auto elim!: db_queryE split: option.splits)
        show thesis
        proof (cases "ix_request_hash q = h \<and> ix_status q = ''complete''")
          case False
          with ok(2) q show thesis using that(1) by (auto simp: io_simps pg_same_def split: if_splits)
        next
          case True
          with ok(2) q have "io_bind (pg_Get E '''' m (ix_resource_id q)) (\<lambda>p. io_return (p, True)) s2 = (r, s')"
            by simp
          then show thesis
          proof (cases rule: io_bindE)
            case (error e)
            with q show thesis using that(1) pg_Get_db by (auto simp: pg_same_def)
          next
            case (ok p s3)
            with q True show thesis
              using that(3) [of "ix_resource_id q" p s2] pg_Get_db by (auto simp: pg_same_def pg_slot_iff io_simps)
          qed
        qed
      qed
    qed
  qed auto
qed

lemma ticks_pg_BeginCreate [simp, intro]: "ticks (pg_BeginCreate E m k h t)"
  unfolding pg_BeginCreate_def by (intro ticks_bind ticks_db_exec) (auto intro!: ticks_bind)

lemma ticks_pg_CompleteCreate [simp, intro]: "ticks (pg_CompleteCreate E p e k)"
  unfolding pg_CompleteCreate_def insert_payment_def insert_deliveries_def complete_idempotency_def
  by (intro ticks_db_tx ticks_bind ticks_db_exec) auto

lemma ticks_pg_ReleaseCreate [simp, intro]: "ticks (pg_ReleaseCreate E m k)"
  by (simp add: pg_ReleaseCreate_def)

lemma ticks_apply_event_tx [simp, intro]: "ticks (apply_event_tx E e i now)"
  unfolding apply_event_tx_def change_status_def Let_def record_event_def select_for_update_def
    update_payment_def insert_cashin_def insert_deliveries_def mark_changed_def
  by (intro ticks_bind ticks_db_exec) (auto split: option.splits intro!: ticks_bind)

lemma ticks_pg_ApplyProviderEvent [simp, intro]: "ticks (pg_ApplyProviderEvent E e i)"
  unfolding pg_ApplyProviderEvent_def by (intro ticks_db_tx ticks_apply_event_tx)

definition completion_hit :: "string \<Rightarrow> string \<Rightarrow> string \<Rightarrow> idem_row \<Rightarrow> bool" where
  "completion_hit m k t r \<longleftrightarrow> idem_key r = (m, k) \<and> ix_resource_id r = t \<and> ix_status r = ''pending''"

definition completed_db :: "time \<Rightarrow> payment \<Rightarrow> string \<Rightarrow> merchant_event \<Rightarrow> event_payload \<Rightarrow> string \<Rightarrow> pgdb \<Rightarrow> pgdb" where
  "completed_db now p t e body k db =
     (let db1 = fan_out now (pay_MerchantID p) (pay_AccountID p) (me_EventID e) (me_EventType e) body
            (db\<lparr>db_payments := db_payments db @ [row_of_payment t p]\<rparr>)
      in db1\<lparr>db_idempotency := sql_update (completion_hit (pay_MerchantID p) k t)
            (\<lambda>r. r\<lparr>ix_status := ''complete''\<rparr>) (db_idempotency db1)\<rparr>)"

text \<open>A creation is completed as a whole or not at all.\<close>

lemma pg_completeE:
  assumes "pg_CompleteCreate E p e k s = (r, s')"
  obtains (error) er where "r = Inl er" "pg_same s s'"
    | (ok) now t body where "r = Inr ()" "en_uuid E (pay_TransactionID p) = Some t" "me_Payload e = Some body"
        "t \<notin> py_transaction_id ` set (db_payments (pg_db s))"
        "sql_count (completion_hit (pay_MerchantID p) k t) (db_idempotency (pg_db s)) = 1"
        "pg_db s' = completed_db now p t e body k (pg_db s)"
  using assms unfolding pg_CompleteCreate_def
proof (cases rule: db_txE)
  case (error er)
  then show thesis using that(1) by (auto simp: pg_same_def)
next
  case (committed now s1 x s2)
  from committed(4) show thesis
  proof (cases rule: io_bindE)
    case payment: (ok x1 u1)
    then obtain t where t: "en_uuid E (pay_TransactionID p) = Some t"
      "t \<notin> py_transaction_id ` set (db_payments (pg_db s))"
      "pg_db u1 = (pg_db s)\<lparr>db_payments := db_payments (pg_db s) @ [row_of_payment t p]\<rparr>"
      unfolding insert_payment_def using committed(2)
      by (auto elim!: db_execE simp: sql_conflict_iff split: option.splits if_splits)
    from payment(2) show thesis
    proof (cases rule: io_bindE)
      case deliveries: (ok x2 u2)
      then obtain body where body: "me_Payload e = Some body"
        "pg_db u2 = fan_out now (pay_MerchantID p) (pay_AccountID p) (me_EventID e) (me_EventType e) body (pg_db u1)"
        unfolding insert_deliveries_def by (auto elim!: db_execE split: option.splits)
      from deliveries(2) show thesis
      proof (cases rule: io_bindE)
        case idem: (ok n u3)
        then have n: "n = sql_count (completion_hit (pay_MerchantID p) k t) (db_idempotency (pg_db u2))"
          "pg_db u3 = (pg_db u2)\<lparr>db_idempotency := sql_update (completion_hit (pay_MerchantID p) k t)
            (\<lambda>r. r\<lparr>ix_status := ''complete''\<rparr>) (db_idempotency (pg_db u2))\<rparr>"
          unfolding complete_idempotency_def completion_hit_def [abs_def] using t(1)
          by (auto elim!: db_execE simp: Let_def)
        have n1: "n = 1" and fin: "s2 = u3" using idem(2) by (auto simp: io_simps split: if_splits)
        have idemdb: "db_idempotency (pg_db u2) = db_idempotency (pg_db s)" using body t by simp
        show thesis
          by (rule that(2) [OF _ t(1) body(1) t(2)])
             (use committed(5,6) n n1 fin idemdb body t in \<open>simp_all add: completed_db_def Let_def\<close>)
      qed (use committed in auto)
    qed (use committed in auto)
  qed (use committed in auto)
qed

lemma completed_db_tables [simp]:
  "db_payments (completed_db now p t e body k db) = db_payments db @ [row_of_payment t p]"
  "db_idempotency (completed_db now p t e body k db) =
     sql_update (completion_hit (pay_MerchantID p) k t) (\<lambda>r. r\<lparr>ix_status := ''complete''\<rparr>) (db_idempotency db)"
  "db_balance_outbox (completed_db now p t e body k db) = db_balance_outbox db"
  "db_provider_events (completed_db now p t e body k db) = db_provider_events db"
  "db_payouts (completed_db now p t e body k db) = db_payouts db"
  "db_payout_idempotency (completed_db now p t e body k db) = db_payout_idempotency db"
  "db_refunds (completed_db now p t e body k db) = db_refunds db"
  "db_webhooks (completed_db now p t e body k db) = db_webhooks db"
  "db_merchants (completed_db now p t e body k db) = db_merchants db"
  by (simp_all add: completed_db_def Let_def)

section \<open>Applying an event\<close>

text \<open>The tables after an accepted event: the event is recorded; a real change is written, credited and announced.\<close>

definition event_row :: "string \<Rightarrow> provider_event \<Rightarrow> bool \<Rightarrow> provider_event_row" where
  "event_row t e changed = \<lparr>pv_event_id = ev_EventID e, pv_event_type = ev_EventType e, pv_transaction_id = Some t,
     pv_payout_id = None, pv_provider = ev_Provider e, pv_source = ev_Source e, pv_payload = e, pv_changed_state = changed\<rparr>"

definition cashin_row :: "time \<Rightarrow> nat \<Rightarrow> payment \<Rightarrow> outbox_row" where
  "cashin_row now n p = \<lparr>ob_id = n, ob_ref_type = ''cashin'', ob_ref_id = pay_TransactionID p,
     ob_account_id = pay_AccountID p, ob_amount = pay_Amount p, ob_currency = pay_Currency p, ob_sent = False,
     ob_attempt_count = 0, ob_next_attempt_at = now, ob_created_at = now, ob_sent_at = None, ob_last_error = None\<rparr>"

definition credited :: "time \<Rightarrow> payment \<Rightarrow> outbox_row list \<Rightarrow> outbox_row list" where
  "credited now p obs = (if sql_conflict outbox_key (''cashin'', pay_TransactionID p) obs then obs
     else obs @ [cashin_row now (length obs) p])"

definition updated_row :: "payment_row \<Rightarrow> string \<Rightarrow> provider_event \<Rightarrow> payment_row \<Rightarrow> payment_row" where
  "updated_row row nx e r = r\<lparr>py_status := nx,
     py_provider_reference := keep_unless (ed_ProviderReference (ev_Data e)) (py_provider_reference r),
     py_resource_version := py_resource_version row + 1\<rparr>"

definition changed_payment :: "payment_row \<Rightarrow> string \<Rightarrow> payment" where
  "changed_payment row nx = (payment_of_row row)\<lparr>pay_Status := nx, pay_Version := py_resource_version row + 1\<rparr>"

definition changed_db ::
  "time \<Rightarrow> string \<Rightarrow> string \<Rightarrow> provider_event \<Rightarrow> string \<Rightarrow> payment_row \<Rightarrow> string \<Rightarrow> pgdb \<Rightarrow> pgdb" where
  "changed_db now t t' e i row nx db =
     (let db1 = db\<lparr>db_provider_events := db_provider_events db @ [event_row t e False]\<rparr>;
          db2 = db1\<lparr>db_payments := sql_update (\<lambda>r. py_transaction_id r = t') (updated_row row nx e) (db_payments db1)\<rparr>;
          db3 = (if nx = ''confirmed'' then db2\<lparr>db_balance_outbox := credited now (changed_payment row nx) (db_balance_outbox db2)\<rparr> else db2);
          db4 = fan_out now (py_merchant_id row) (py_account_id row) i ''payment.status_changed''
            (status_changed_payload e i (py_status row) (changed_payment row nx)) db3
      in db4\<lparr>db_provider_events := sql_update (\<lambda>r. pv_event_id r = ev_EventID e)
                (\<lambda>r. r\<lparr>pv_changed_state := True\<rparr>) (db_provider_events db4)\<rparr>)"

lemma pg_applyE:
  assumes "pg_ApplyProviderEvent E e i s = (r, s')"
  obtains (error) er where "r = Inl er" "pg_same s s'"
    | (duplicate) t where "r = Inr (zero_result\<lparr>er_Duplicate := True\<rparr>)" "pg_same s s'" "pg_seen s (ev_EventID e)"
        "en_uuid E (ev_TransactionID e) = Some t"
    | (kept) t row where "\<not> pg_seen s (ev_EventID e)" "en_uuid E (ev_TransactionID e) = Some t"
        "find (\<lambda>r. py_transaction_id r = t) (db_payments (pg_db s)) = Some row"
        "\<not> event_mismatch (payment_of_row row) e"
        "r = Inr (zero_result\<lparr>er_Status := py_status row\<rparr>)"
        "pg_db s' = (pg_db s)\<lparr>db_provider_events := db_provider_events (pg_db s) @ [event_row t e False]\<rparr>"
    | (changed) t t' row nx tm where "\<not> pg_seen s (ev_EventID e)" "en_uuid E (ev_TransactionID e) = Some t"
        "find (\<lambda>r. py_transaction_id r = t) (db_payments (pg_db s)) = Some row"
        "\<not> event_mismatch (payment_of_row row) e"
        "PublicStatusFromProvider (ed_Status (ev_Data e)) = Some nx" "nx \<noteq> py_status row"
        "PaymentTransitionAllowed (py_status row) nx"
        "r = Inr \<lparr>er_Duplicate = False, er_Changed = True, er_Status = nx\<rparr>"
        "en_uuid E (py_transaction_id row) = Some t'"
        "pg_db s' = changed_db tm t t' e i row nx (pg_db s)"
proof -
  show thesis
    using assms unfolding pg_ApplyProviderEvent_def
  proof (cases rule: db_txE)
    case (error er)
    then show thesis using that(1) by (auto simp: pg_same_def)
  next
    case (committed now s1 x s2)
    from committed(4) show thesis
      unfolding apply_event_tx_def
    proof (cases rule: io_bindE)
      case rec: (ok n u1)
      then obtain t where t: "en_uuid E (ev_TransactionID e) = Some t"
        and u1: "pg_db u1 = (if pg_seen s (ev_EventID e) then pg_db s
            else (pg_db s)\<lparr>db_provider_events := db_provider_events (pg_db s) @ [event_row t e False]\<rparr>)"
        and n: "n = (if pg_seen s (ev_EventID e) then 0 else 1)"
        unfolding record_event_def using committed(2)
        by (auto elim!: db_execE simp: sql_conflict_iff pg_seen_def event_row_def split: option.splits if_splits)
      show thesis
      proof (cases "pg_seen s (ev_EventID e)")
        case True
        with rec(2) n u1 committed t show thesis by (intro that(2) [of t]) (auto simp: io_simps pg_same_def)
      next
        case new: False
        with rec(2) n have rest: "io_bind (select_for_update E (ev_TransactionID e)) (\<lambda>p.
             if event_mismatch p e then io_fail ErrConflict
             else case PublicStatusFromProvider (ed_Status (ev_Data e)) of
               None \<Rightarrow> io_fail ErrConflict
             | Some next \<Rightarrow>
                 if next = pay_Status p \<or> \<not> PaymentTransitionAllowed (pay_Status p) next
                 then io_return (zero_result\<lparr>er_Status := pay_Status p\<rparr>)
                 else change_status E now e i p next) u1 = (Inr x, s2)" by simp
        then show thesis
        proof (cases rule: io_bindE)
          case sel: (ok p u2)
          then obtain row where row: "find (\<lambda>r. py_transaction_id r = t) (db_payments (pg_db s)) = Some row"
            "p = payment_of_row row" "pg_db u2 = pg_db u1"
            unfolding select_for_update_def using t u1 new
            by (auto elim!: db_queryE split: option.splits)
          have match: "\<not> event_mismatch p e" using sel(2) by (auto simp: io_simps split: if_splits)
          with sel(2) obtain nx where nx: "PublicStatusFromProvider (ed_Status (ev_Data e)) = Some nx"
            by (auto simp: io_simps split: option.splits)
          have st: "pay_Status p = py_status row" "pay_Version p = py_resource_version row"
            "pay_TransactionID p = py_transaction_id row" "pay_MerchantID p = py_merchant_id row"
            "pay_AccountID p = py_account_id row"
            using row(2) by (simp_all add: payment_of_row_def)
          show thesis
          proof (cases "nx = py_status row \<or> \<not> PaymentTransitionAllowed (py_status row) nx")
            case True
            with sel(2) match nx st have "x = zero_result\<lparr>er_Status := py_status row\<rparr>" "s2 = u2"
              by (auto simp: io_simps)
            with new t row u1 committed match show thesis by (intro that(3) [of t row]) simp_all
          next
            case False
            let ?p = "p\<lparr>pay_Status := nx, pay_Version := pay_Version p + 1\<rparr>"
            from sel(2) match nx st False have ch: "change_status E now e i p nx u2 = (Inr x, s2)" by simp
            then obtain u3 u4 u5 where
              a: "update_payment E (py_transaction_id row) nx (ed_ProviderReference (ev_Data e)) (py_resource_version row + 1) u2 = (Inr (), u3)"
              and b: "(if nx = ''confirmed'' then insert_cashin E now ?p else io_return ()) u3 = (Inr (), u4)"
              and c: "insert_deliveries E now (py_merchant_id row) (py_account_id row) i ''payment.status_changed''
                  (Some (status_changed_payload e i (py_status row) ?p)) u4 = (Inr (), u5)"
              and d: "mark_changed E (ev_EventID e) u5 = (Inr (), s2)"
              and x: "x = \<lparr>er_Duplicate = False, er_Changed = True, er_Status = nx\<rparr>"
              unfolding change_status_def Let_def using st
              by (auto elim!: io_bind_InrE simp: io_simps split del: if_split)
            obtain t' where t': "en_uuid E (py_transaction_id row) = Some t'"
              "pg_db u3 = (pg_db u2)\<lparr>db_payments := sql_update (\<lambda>r. py_transaction_id r = t') (updated_row row nx e) (db_payments (pg_db u2))\<rparr>"
              using a unfolding update_payment_def updated_row_def [abs_def] by (auto elim!: db_execE split: option.splits)
            have cp: "?p = changed_payment row nx" using row(2) st by (simp add: changed_payment_def)
            have u4: "pg_db u4 = (if nx = ''confirmed'' then (pg_db u3)\<lparr>db_balance_outbox := credited now ?p (db_balance_outbox (pg_db u3))\<rparr> else pg_db u3)"
              using b unfolding insert_cashin_def
              by (auto elim!: db_execE simp: io_simps credited_def cashin_row_def split: if_splits)
            have u5: "pg_db u5 = fan_out now (py_merchant_id row) (py_account_id row) i ''payment.status_changed''
                (status_changed_payload e i (py_status row) ?p) (pg_db u4)"
              using c unfolding insert_deliveries_def by (auto elim!: db_execE)
            have s2: "pg_db s2 = (pg_db u5)\<lparr>db_provider_events := sql_update (\<lambda>r. pv_event_id r = ev_EventID e)
                (\<lambda>r. r\<lparr>pv_changed_state := True\<rparr>) (db_provider_events (pg_db u5))\<rparr>"
              using d unfolding mark_changed_def by (auto elim!: db_execE)
            have db: "pg_db s' = changed_db now t t' e i row nx (pg_db s)"
              using s2 u5 u4 t'(2) row(3) u1 new committed(6) unfolding cp by (simp add: changed_db_def Let_def)
            show thesis
              by (rule that(4) [OF new t row(1) _ nx _ _ _ t'(1) db]) (use match row(2) False x committed(5) in auto)
          qed
        qed (use committed in auto)
      qed
    qed (use committed in auto)
  qed
qed

section \<open>The store keeps the contract\<close>

lemma pg_inv_same: "pg_same s s' \<Longrightarrow> pg_inv E s' = pg_inv E s"
  by (simp add: pg_same_def pg_inv_def)

lemma pg_inv_canonical: "pg_inv E s \<Longrightarrow> en_uuid E t = Some u \<Longrightarrow> canonical E u"
  by (auto simp: pg_inv_def pg_inv_db_def uuid_laws_def)

lemma pg_begin_inv:
  assumes "pg_inv E s" and "pg_BeginCreate E m k h t s = (r, s')"
  shows "pg_inv E s'"
  using assms(2)
proof (cases rule: pg_beginE)
  case (fresh u)
  with assms(1) pg_inv_canonical [OF assms(1) fresh(2)] show ?thesis
    by (auto simp: pg_inv_def pg_inv_db_def sql_conflict_iff idem_key_def pending_row_def idem_ok_def)
qed (use assms(1) in \<open>auto simp: pg_inv_same\<close>)

lemma pg_complete_inv:
  assumes "pg_inv E s" and "pg_CompleteCreate E p e k s = (r, s')"
  shows "pg_inv E s'"
  using assms(2)
proof (cases rule: pg_completeE)
  case (ok now t body)
  let ?ps = "db_payments (pg_db s) @ [row_of_payment t p]"
  have inv: "pg_inv_db E (pg_db s)" using assms(1) by (simp add: pg_inv_def)
  have t: "canonical E t" by (rule pg_inv_canonical [OF assms(1) ok(2)])
  have "pg_inv_db E ((pg_db s)\<lparr>db_payments := ?ps\<rparr>)"
    by (rule pg_inv_add_payment [OF inv]) (use t ok(4) in \<open>auto simp: row_of_payment_def\<close>)
  moreover have "idem_ok E ?ps (r\<lparr>ix_status := ''complete''\<rparr>)"
    if "idem_ok E ?ps r" "completion_hit (pay_MerchantID p) k t r" for r
    using that by (auto simp: idem_ok_def completion_hit_def idem_key_def row_of_payment_def)
  ultimately show ?thesis
    unfolding pg_inv_def ok(6)
    by (auto simp: pg_inv_db_def set_sql_update map_sql_update idem_key_def)
qed (use assms(1) in \<open>auto simp: pg_inv_same\<close>)

lemma pg_release_inv:
  assumes "pg_inv E s" and "pg_ReleaseCreate E m k s = (r, s')"
  shows "pg_inv E s'"
  using assms(2) unfolding pg_ReleaseCreate_def
proof (cases rule: db_execE)
  case (ok x)
  then have "pg_db s' = (pg_db s)\<lparr>db_idempotency :=
      sql_delete (\<lambda>r. idem_key r = (m, k) \<and> ix_status r = ''pending'') (db_idempotency (pg_db s))\<rparr>" by simp
  with assms(1) show ?thesis by (auto simp: pg_inv_def pg_inv_db_def set_sql_delete distinct_sql_delete)
qed (use assms(1) in \<open>simp add: pg_inv_def\<close>)

lemma changed_db_tables [simp]:
  "db_idempotency (changed_db tm t t' e i row nx db) = db_idempotency db"
  "db_payments (changed_db tm t t' e i row nx db) =
     sql_update (\<lambda>r. py_transaction_id r = t') (updated_row row nx e) (db_payments db)"
  "db_balance_outbox (changed_db tm t t' e i row nx db) =
     (if nx = ''confirmed'' then credited tm (changed_payment row nx) (db_balance_outbox db) else db_balance_outbox db)"
  "pv_event_id ` set (db_provider_events (changed_db tm t t' e i row nx db)) =
     insert (ev_EventID e) (pv_event_id ` set (db_provider_events db))"
  "db_payouts (changed_db tm t t' e i row nx db) = db_payouts db"
  "db_payout_idempotency (changed_db tm t t' e i row nx db) = db_payout_idempotency db"
  "db_refunds (changed_db tm t t' e i row nx db) = db_refunds db"
  "db_webhooks (changed_db tm t t' e i row nx db) = db_webhooks db"
  "db_merchants (changed_db tm t t' e i row nx db) = db_merchants db"
  by (auto simp: changed_db_def Let_def set_sql_update event_row_def image_iff)

lemma updated_row_keys [simp]:
  "py_transaction_id (updated_row row nx e r) = py_transaction_id r"
  "py_merchant_id (updated_row row nx e r) = py_merchant_id r"
  "py_account_id (updated_row row nx e r) = py_account_id r"
  "py_amount (updated_row row nx e r) = py_amount r"
  "py_currency (updated_row row nx e r) = py_currency r"
  "py_status (updated_row row nx e r) = nx"
  by (simp_all add: updated_row_def)

lemma pg_apply_inv:
  assumes "pg_inv E s" and "pg_ApplyProviderEvent E e i s = (r, s')"
  shows "pg_inv E s'"
  using assms(2)
proof (cases rule: pg_applyE)
  case (changed t t' row nx tm)
  have "pg_inv_db E (pg_db s)" using assms(1) by (simp add: pg_inv_def)
  from pg_inv_update_payments [OF this, of "updated_row row nx e" "\<lambda>r. py_transaction_id r = t'"]
  show ?thesis
    unfolding pg_inv_def changed(10) by (simp cong: pg_inv_db_frame add: pg_inv_db_def)
next
  case (kept t row)
  with assms(1) show ?thesis by (simp add: pg_inv_def pg_inv_db_def)
qed (use assms(1) in \<open>auto simp: pg_inv_same\<close>)

lemma pg_begin_taken:
  assumes "pg_inv E s" and "pg_up E s" and "canonical E t" and "m \<noteq> ''''" and slot: "pg_slot s m k = Some (h', t', c)"
    and "pg_BeginCreate E m k h t s = (r, s')"
  shows "r = (if h \<noteq> h' then Inl ErrConflict else if \<not> c then Inl ErrInProgress else Inr (the (pg_saved s m t'), True))"
proof -
  obtain q where q: "find (\<lambda>r. idem_key r = (m, k)) (db_idempotency (pg_db s)) = Some q"
    "ix_request_hash q = h'" "ix_resource_id q = t'" "(ix_status q = ''complete'') = c"
    using slot by (auto simp: pg_slot_iff)
  have conflict: "sql_conflict idem_key (m, k) (db_idempotency (pg_db s))"
    using find_idem_none [of "(m, k)" "db_idempotency (pg_db s)"] q(1) by simp
  let ?s1 = "\<lparr>pg_db = pg_db s, pg_tick = Suc (pg_tick s)\<rparr>" and ?s2 = "\<lparr>pg_db = pg_db s, pg_tick = Suc (Suc (pg_tick s))\<rparr>"
  have up: "pg_up E ?s1" "pg_up E ?s2" using pg_up_later [OF assms(2)] by auto
  have run: "pg_BeginCreate E m k h t s =
      (if h' \<noteq> h then io_fail ErrConflict else if ix_status q \<noteq> ''complete'' then io_fail ErrInProgress
       else io_bind (pg_Get E '''' m t') (\<lambda>p. io_return (p, True))) ?s2"
    using assms(3) conflict q up
    by (simp add: pg_BeginCreate_def io_bind_def db_exec_up [OF assms(2)] db_query_up [OF up(1)] canonical_def)
  show ?thesis
  proof (cases "h = h' \<and> c")
    case True
    with slot have "pg_slot s m k = Some (h, t', True)" by simp
    from pg_slot_complete_saved [OF assms(1) this] obtain p where p: "canonical E t'" "pg_saved s m t' = Some p" by blast
    then have "pg_saved ?s2 m t' = Some p" by (simp add: pg_saved_def)
    with pg_Get_saved_up [OF up(2) assms(4) p(1)] obtain s3 where "pg_Get E '''' m t' ?s2 = (Inr p, s3)" by blast
    with run True q assms(6) p show ?thesis by (simp add: io_simps io_bind_def)
  next
    case False
    with run q assms(6) show ?thesis by (auto simp: io_simps split: if_splits)
  qed
qed

lemma pg_begin_free:
  assumes "pg_up E s" and "canonical E t" and "pg_slot s m k = None" and "pg_BeginCreate E m k h t s = (r, s')"
  shows "\<exists>p. r = Inr (p, False)"
proof -
  have "\<not> sql_conflict idem_key (m, k) (db_idempotency (pg_db s))"
    using assms(3) by (simp add: pg_slot_def find_idem_none)
  with assms(2,4) show ?thesis
    by (auto simp: pg_BeginCreate_def io_bind_def db_exec_up [OF assms(1)] canonical_def io_simps)
qed

lemma pg_begin_fresh:
  assumes "canonical E t" and "pg_BeginCreate E m k h t s = (Inr (p, False), s')"
  shows "pg_slot s m k = None \<and> pg_slot s' m k = Some (h, t, False) \<and> pg_saved s' = pg_saved s"
  using assms(2)
proof (cases rule: pg_beginE)
  case (fresh u)
  then have none: "find (\<lambda>r. idem_key r = (m, k)) (db_idempotency (pg_db s)) = None"
    by (simp add: find_idem_none)
  have "u = t" using fresh(2) assms(1) by (simp add: canonical_def)
  with fresh none show ?thesis
    by (simp add: pg_slot_def pg_saved_def find_append pending_row_def idem_key_def fun_eq_iff)
qed auto

lemma pg_begin_replay:
  assumes "pg_inv E s" and "pg_BeginCreate E m k h t s = (Inr (p, True), s')" and "m \<noteq> ''''"
  shows "(\<exists>t'. pg_slot s m k = Some (h, t', True) \<and> pg_saved s m t' = Some p) \<and> pg_same s s'"
  using assms(2)
proof (cases rule: pg_beginE)
  case (replay t' p' s1)
  from pg_slot_complete_saved [OF assms(1) replay(1)] obtain q where q: "canonical E t'" "pg_saved s m t' = Some q" by blast
  then have "pg_saved s1 m t' = Some q" using replay(3) by (simp add: pg_saved_def)
  from pg_Get_saved [OF assms(3) q(1) this replay(4)] have "p' = q" by auto
  with replay q show ?thesis by auto
qed auto

lemma pg_complete_ok:
  assumes "pg_inv E s" and slot: "pg_slot s (pay_MerchantID p) k = Some (h, pay_TransactionID p, False)"
    and "pg_CompleteCreate E p e k s = (Inr u, s')"
  shows "pg_slot s' (pay_MerchantID p) k = Some (h, pay_TransactionID p, True) \<and>
    pg_saved s' (pay_MerchantID p) (pay_TransactionID p) = Some (pg_reread p)"
  using assms(3)
proof (cases rule: pg_completeE)
  case (ok now t body)
  obtain q where q: "find (\<lambda>r. idem_key r = (pay_MerchantID p, k)) (db_idempotency (pg_db s)) = Some q"
    "ix_request_hash q = h" "ix_resource_id q = pay_TransactionID p" "ix_status q \<noteq> ''complete''"
    using slot by (auto simp: pg_slot_iff)
  then have mem: "q \<in> set (db_idempotency (pg_db s))" "idem_key q = (pay_MerchantID p, k)" by (auto dest: find_SomeD)
  with assms(1) q have "canonical E (pay_TransactionID p)" "ix_status q = ''pending''"
    by (fastforce simp: pg_inv_def pg_inv_db_def idem_ok_def)+
  with ok(2) have t: "t = pay_TransactionID p" and hit: "completion_hit (pay_MerchantID p) k t q"
    using mem q by (auto simp: canonical_def completion_hit_def)
  have "find (\<lambda>r. idem_key r = (pay_MerchantID p, k)) (db_idempotency (pg_db s')) = Some (q\<lparr>ix_status := ''complete''\<rparr>)"
    unfolding ok(6) completed_db_tables
    by (subst find_sql_update) (use q hit in \<open>auto simp: idem_key_def\<close>)
  moreover have "find (\<lambda>r. py_transaction_id r = t \<and> py_merchant_id r = pay_MerchantID p) (db_payments (pg_db s')) =
      Some (row_of_payment t p)"
  proof -
    have "find (\<lambda>r. py_transaction_id r = t \<and> py_merchant_id r = pay_MerchantID p) (db_payments (pg_db s)) = None"
      using ok(4) by (auto simp: find_None_iff)
    then show ?thesis unfolding ok(6) completed_db_tables by (simp add: find_append row_of_payment_def)
  qed
  moreover have "(pg_reread p)\<lparr>pay_TransactionID := t\<rparr> = pg_reread p" using t by (simp add: pg_reread_def)
  ultimately show ?thesis
    using q t by (simp add: pg_slot_def pg_saved_def payment_of_row_of_payment)
qed auto

lemma pg_release_undoes:
  assumes "pg_BeginCreate E m k h t s = (Inr (p, False), s1)" and "pg_same s1 s2" and "pg_up E s2"
    and "pg_ReleaseCreate E m k s2 = (rr, s')"
  shows "pg_same s s'"
  using assms(1)
proof (cases rule: pg_beginE)
  case (fresh u)
  have "pg_db s' = (pg_db s2)\<lparr>db_idempotency :=
      sql_delete (\<lambda>r. idem_key r = (m, k) \<and> ix_status r = ''pending'') (db_idempotency (pg_db s2))\<rparr>"
    using assms(4) by (auto simp: pg_ReleaseCreate_def db_exec_up [OF assms(3)])
  moreover have "sql_delete (\<lambda>r. idem_key r = (m, k) \<and> ix_status r = ''pending'') (db_idempotency (pg_db s)) = db_idempotency (pg_db s)"
    unfolding sql_delete_def filter_id_conv using fresh(3) by (metis sql_conflict_iff imageI)
  ultimately show ?thesis
    using fresh(4) assms(2) by (simp add: pg_same_def sql_delete_def pending_row_def idem_key_def)
qed auto

interpretation pg: payment_store "pg_store E" pg_slot pg_saved pg_reread pg_same "pg_inv E" "pg_up E" "canonical E" for E
proof (unfold_locales, goal_cases)
  case (4 s m k h t r s')
  then show ?case
    using pg_begin_inv [OF 4(1)] ticks_up [OF ticks_pg_BeginCreate] by (auto simp: pg_store_def)
next
  case (5 s m k h t er s')
  then show ?case by (auto simp: pg_store_def elim!: pg_beginE)
next
  case (6 s t m k h p s')
  then show ?case using pg_begin_fresh by (simp add: pg_store_def)
next
  case (7 s m k h t p s')
  then show ?case using pg_begin_replay [OF 7(1)] by (simp add: pg_store_def)
next
  case (8 s t m k h' t' c h r s')
  then have "pg_BeginCreate E m k h t s = (r, s')" by (simp add: pg_store_def)
  from pg_begin_taken [OF 8(1-5) this] show ?case by simp
next
  case (9 s t m k h r s')
  then show ?case using pg_begin_free [OF 9(2,3,4)] by (simp add: pg_store_def)
next
  case (10 s p e k rc s')
  then show ?case
    using pg_complete_inv [OF 10(1)] ticks_up [OF ticks_pg_CompleteCreate] by (auto simp: pg_store_def)
next
  case (11 s p e k er s')
  then show ?case by (auto simp: pg_store_def elim!: pg_completeE)
next
  case (12 s p k h e u s')
  then show ?case using pg_complete_ok [OF 12(1,2)] by (simp add: pg_store_def)
next
  case (13 s m k rr s')
  then show ?case
    using pg_release_inv [OF 13(1)] ticks_up [OF ticks_pg_ReleaseCreate] by (auto simp: pg_store_def)
next
  case (14 s m k h t p s1 s2 rr s')
  then show ?case using pg_release_undoes by (auto simp: pg_store_def)
qed (auto simp: pg_same_def dest: pg_same_views [unfolded pg_same_def])

lemma pg_status_same: "pg_same s s' \<Longrightarrow> pg_status E s' = pg_status E s \<and> pg_seen s' = pg_seen s"
  by (simp add: pg_same_def pg_status_def pg_row_def pg_seen_def fun_eq_iff)

lemma pg_status_cong:
  "db_payments (pg_db s') = db_payments (pg_db s) \<Longrightarrow> pg_status E s' = pg_status E s"
  by (auto simp: pg_status_def pg_row_def fun_eq_iff split: option.splits)

text \<open>The row that an event selects is canonical, so its update finds it again.\<close>

lemma pg_row_canonical:
  assumes "pg_inv E s" and "find (\<lambda>r. py_transaction_id r = t) (db_payments (pg_db s)) = Some row"
  shows "en_uuid E t = Some t \<and> py_transaction_id row = t \<and> row \<in> set (db_payments (pg_db s))"
  using assms by (auto dest!: find_SomeD simp: pg_inv_def pg_inv_db_def canonical_def)

lemma find_updated:
  "find (\<lambda>r. py_transaction_id r = u) (sql_update (\<lambda>r. py_transaction_id r = t) (updated_row row nx e) ps) =
   map_option (\<lambda>r. if py_transaction_id r = t then updated_row row nx e r else r) (find (\<lambda>r. py_transaction_id r = u) ps)"
  by (rule find_sql_update) simp

lemma pg_apply_new:
  assumes "pg_inv E s" and "\<not> pg_seen s (ev_EventID e)" and "pg_ApplyProviderEvent E e i s = (Inr x, s')"
  shows "\<not> er_Duplicate x \<and> pg_seen s' = (pg_seen s)(ev_EventID e := True) \<and>
    (\<exists>old T. ev_TransactionID e \<in> T \<and> (\<forall>t \<in> T. pg_status E s t = Some old) \<and>
      pg_status E s' = (\<lambda>t. if t \<in> T then Some (er_Status x) else pg_status E s t) \<and>
      PaymentTransitionAllowed old (er_Status x) \<and> (er_Changed x \<longleftrightarrow> er_Status x \<noteq> old) \<and>
      (er_Changed x \<longrightarrow> PublicStatusFromProvider (ed_Status (ev_Data e)) = Some (er_Status x)))"
  using assms(3)
proof (cases rule: pg_applyE)
  case (kept t row)
  let ?T = "{u. en_uuid E u = Some t}"
  have old: "\<forall>u \<in> ?T. pg_status E s u = Some (py_status row)"
    using kept(3) by (simp add: pg_status_def pg_row_def)
  moreover have "pg_status E s' = pg_status E s" using kept(6) by (intro pg_status_cong) simp
  moreover have "pg_seen s' = (pg_seen s)(ev_EventID e := True)"
    using kept(6) by (auto simp: pg_seen_def event_row_def fun_eq_iff)
  ultimately show ?thesis
    using kept(2,5) by (auto intro!: exI [of _ ?T] simp: zero_result_def fun_eq_iff)
next
  case (changed t t' row nx tm)
  let ?T = "{u. en_uuid E u = Some t}"
  note row = pg_row_canonical [OF assms(1) changed(3)]
  then have t': "t' = t" using changed(9) by simp
  have old: "\<forall>u \<in> ?T. pg_status E s u = Some (py_status row)"
    using changed(3) by (simp add: pg_status_def pg_row_def)
  moreover have "pg_status E s' = (\<lambda>u. if u \<in> ?T then Some nx else pg_status E s u)"
  proof
    fix u
    show "pg_status E s' u = (if u \<in> ?T then Some nx else pg_status E s u)"
      using changed(3) row
      by (auto simp: pg_status_def pg_row_def changed(10) t' find_updated option.map_comp comp_def
          split: option.splits dest!: find_SomeD intro!: option.map_cong)
  qed
  moreover have "pg_seen s' = (pg_seen s)(ev_EventID e := True)"
    unfolding pg_seen_def changed(10) changed_db_tables by (auto simp: fun_eq_iff)
  ultimately show ?thesis
    using changed(2,5-8) by (intro conjI exI [of _ "py_status row"] exI [of _ ?T]) auto
qed (use assms(2) in \<open>auto\<close>)

interpretation pg_events: event_store "pg_store E" "pg_status E" pg_seen "pg_inv E" "pg_up E"
  "\<lambda>e. en_uuid E (ev_TransactionID e) \<noteq> None" pg_same for E
proof (unfold_locales, goal_cases)
  case (1 s e i r s')
  then show ?case
    using pg_apply_inv [OF 1(1)] ticks_up [OF ticks_pg_ApplyProviderEvent] by (auto simp: pg_store_def)
next
  case (2 s e i er s')
  then show ?case using pg_status_same by (auto simp: pg_store_def elim!: pg_applyE)
next
  case (3 s e i x s')
  then show ?case by (auto simp: pg_store_def elim!: pg_applyE)
next
  case (4 s e i x s')
  then show ?case using pg_status_same by (auto simp: pg_store_def elim!: pg_applyE)
next
  case (5 s e i r s')
  then obtain t where t: "en_uuid E (ev_TransactionID e) = Some t" by auto
  let ?s1 = "\<lparr>pg_db = pg_db s, pg_tick = Suc (pg_tick s)\<rparr>"
  have up: "pg_up E ?s1" using pg_up_later [OF 5(2)] by simp
  have "sql_conflict pv_event_id (ev_EventID e) (db_provider_events (pg_db s))"
    using 5(4) by (simp add: pg_seen_def sql_conflict_iff)
  then have "apply_event_tx E e i (pg_time (en_clock E (pg_tick s))) ?s1 =
      (Inr (zero_result\<lparr>er_Duplicate := True\<rparr>), \<lparr>pg_db = pg_db s, pg_tick = Suc (Suc (pg_tick s))\<rparr>)"
    using t by (simp add: apply_event_tx_def io_bind_def record_event_def db_exec_up [OF up] io_simps)
  from db_tx_up [where body = "apply_event_tx E e i", OF 5(2) ticks_apply_event_tx this]
  have "fst (pg_ApplyProviderEvent E e i s) = Inr (zero_result\<lparr>er_Duplicate := True\<rparr>)"
    by (simp add: pg_ApplyProviderEvent_def)
  then show ?case using 5(5) by (simp add: pg_store_def)
next
  case (6 s e i x s')
  then show ?case using pg_apply_new [OF 6(1,2)] by (simp add: pg_store_def)
qed

section \<open>Lemmas for the other stores\<close>

lemma ticks_insert_deliveries [simp, intro]: "ticks (insert_deliveries E now m a i et p)"
  by (auto simp: insert_deliveries_def split: option.splits)

lemma insert_deliveries_effect:
  "insert_deliveries E now m a i et p s = (Inr x, s') \<Longrightarrow> \<exists>ds. pg_db s' = (pg_db s)\<lparr>db_deliveries := ds\<rparr>"
  unfolding insert_deliveries_def
proof (erule db_execE)
  fix x
  assume "(case p of None \<Rightarrow> Inl db_error | Some v \<Rightarrow> Inr ((), fan_out now m a i et v (pg_db s))) = Inr (x, pg_db s')"
  then have "\<exists>v. fan_out now m a i et v (pg_db s) = pg_db s'" by (auto split: option.splits)
  then show ?thesis unfolding fan_out_def by metis
qed auto

lemma insert_deliveries_up:
  "pg_up E s \<Longrightarrow> \<exists>s'. insert_deliveries E now m a i et (Some p) s = (Inr (), s') \<and> pg_tick s' = Suc (pg_tick s)"
  by (simp add: insert_deliveries_def db_exec_up)

lemma db_query_InrD: "db_query E f s = (Inr x, s') \<Longrightarrow> f (pg_db s) = Inr x \<and> pg_db s' = pg_db s"
  by (erule db_queryE) auto

lemma db_query_dbD: "db_query E f s = (r, s') \<Longrightarrow> pg_db s' = pg_db s"
  by (erule db_queryE) auto

end
