(* ===== verification/Pg_Auth.thy ===== *)
theory Pg_Auth
  imports Pg_Tables
begin

text \<open>
  \<^verbatim>\<open>adapters/postgres/auth.go\<close>: API keys and merchants of the shared V1 tables.
\<close>

record pg_auth_config =
  pa_environment :: string

definition pg_NewAuth :: "string list \<Rightarrow> pg_auth_config" where
  "pg_NewAuth environments =
     \<lparr>pa_environment = (case environments of e # _ \<Rightarrow> if e \<noteq> '''' then e else ''sandbox'' | [] \<Rightarrow> ''sandbox'')\<rparr>"

text \<open>The condition of the key query, on one row of \<^verbatim>\<open>api_keys JOIN accounts\<close>.\<close>

definition key_valid :: "time \<Rightarrow> string \<Rightarrow> string \<Rightarrow> api_key_row \<times> account_row \<Rightarrow> bool" where
  "key_valid now environment hash = (\<lambda>(k, a).
     ac_id a = ak_account_id k \<and> ak_key_hash k = hash \<and> ak_revoked_at k = None \<and>
     (case ak_expires_at k of None \<Rightarrow> True | Some t \<Rightarrow> t > now) \<and>
     (case ak_environment k of None \<Rightarrow> True | Some e \<Rightarrow> e = ''legacy'' \<or> e = environment) \<and>
     (case ak_allowed_api_versions k of None \<Rightarrow> True | Some vs \<Rightarrow> ''v2'' \<in> set vs) \<and>
     ac_status a = ''active'')"

definition key_principal :: "api_key_row \<times> account_row \<Rightarrow> principal" where
  "key_principal = (\<lambda>(k, a). \<lparr>pr_AccountID = ac_id a, pr_MerchantID = coalesce (ak_merchant_id k),
     pr_Scopes = (case ak_scopes k of None \<Rightarrow> [] | Some ss \<Rightarrow> ss)\<rparr>)"

definition pg_Authenticate :: "pg_env \<Rightarrow> pg_auth_config \<Rightarrow> string \<Rightarrow> (pgstate, principal) go_io" where
  "pg_Authenticate E cfg raw =
     (if raw = '''' then io_fail ErrUnauthorized
      else
        let hash = hex_encode (en_sha256 E raw) in
        db_call E (\<lambda>now db.
          case find (key_valid now (pa_environment cfg) hash) (List.product (db_api_keys db) (db_accounts db)) of
            None \<Rightarrow> Inl ErrUnauthorized
          | Some row \<Rightarrow> Inr (key_principal row, db)))"

definition active_merchant :: "string \<Rightarrow> merchant_row \<Rightarrow> bool" where
  "active_merchant accountID m \<longleftrightarrow> mr_account_id m = accountID \<and> mr_status m = ''active''"

definition pg_ResolveMerchant :: "pg_env \<Rightarrow> principal \<Rightarrow> string \<Rightarrow> (pgstate, string) go_io" where
  "pg_ResolveMerchant E p requested =
     (if pr_MerchantID p \<noteq> '''' then
        (if requested \<noteq> '''' \<and> requested \<noteq> pr_MerchantID p then io_fail ErrUnauthorized
         else io_return (pr_MerchantID p))
      else if requested \<noteq> '''' then
        io_bind (db_query E (\<lambda>db. Inr (list_ex (\<lambda>m. mr_id m = requested \<and> active_merchant (pr_AccountID p) m) (db_merchants db))))
          (\<lambda>ok. if \<not> ok then io_fail ErrUnauthorized else io_return requested)
      else
        io_bind (db_query E (\<lambda>db. Inr (map mr_id (take 2
              (sort_key mr_created_at (filter (active_merchant (pr_AccountID p)) (db_merchants db)))))))
          (\<lambda>ids. case ids of [i] \<Rightarrow> io_return i | _ \<Rightarrow> io_fail ErrUnauthorized))"

definition pg_auth :: "pg_env \<Rightarrow> pg_auth_config \<Rightarrow> pgstate authenticator" where
  "pg_auth E cfg = \<lparr>au_Authenticate = pg_Authenticate E cfg, au_ResolveMerchant = pg_ResolveMerchant E\<rparr>"

section \<open>Lemmas\<close>

lemma ticks_pg_ResolveMerchant [simp, intro]: "ticks (pg_ResolveMerchant E p r)"
  unfolding pg_ResolveMerchant_def by (auto intro!: ticks_bind split: list.splits)

lemma ticks_pg_Authenticate [simp, intro]: "ticks (pg_Authenticate E cfg raw)"
  unfolding pg_Authenticate_def by (auto simp: Let_def)

lemma pg_Authenticate_db: "pg_Authenticate E cfg raw s = (r, s') \<Longrightarrow> pg_db s' = pg_db s"
  unfolding pg_Authenticate_def
  by (auto simp: Let_def io_simps split: if_splits option.splits elim!: db_callE)

lemma pg_ResolveMerchant_db: "pg_ResolveMerchant E p req s = (r, s') \<Longrightarrow> pg_db s' = pg_db s"
  unfolding pg_ResolveMerchant_def
  by (auto simp: io_simps split: if_splits list.splits elim!: io_bindE db_queryE)

text \<open>An authenticated principal comes from a valid key of an active account.\<close>

lemma pg_Authenticate_sound:
  assumes "pg_Authenticate E cfg raw s = (Inr p, s')"
  shows "\<exists>k a now. k \<in> set (db_api_keys (pg_db s)) \<and> a \<in> set (db_accounts (pg_db s)) \<and>
    key_valid now (pa_environment cfg) (hex_encode (en_sha256 E raw)) (k, a) \<and>
    now = pg_time (en_clock E (pg_tick s)) \<and> p = key_principal (k, a)"
proof -
  from assms have "raw \<noteq> ''''" by (auto simp: pg_Authenticate_def io_simps)
  with assms have "db_call E (\<lambda>now db.
          case find (key_valid now (pa_environment cfg) (hex_encode (en_sha256 E raw))) (List.product (db_api_keys db) (db_accounts db)) of
            None \<Rightarrow> Inl ErrUnauthorized
          | Some row \<Rightarrow> Inr (key_principal row, db)) s = (Inr p, s')"
    by (simp add: pg_Authenticate_def Let_def)
  then show ?thesis
    by (cases rule: db_callE) (force split: option.splits dest!: find_SomeD)+
qed

text \<open>A resolved merchant is the key's own, or an active one of the key's account.\<close>

lemma pg_ResolveMerchant_sound:
  assumes "pg_ResolveMerchant E p req s = (Inr m, s')"
  shows "(pr_MerchantID p \<noteq> '''' \<and> m = pr_MerchantID p) \<or>
    (pr_MerchantID p = '''' \<and> (\<exists>r \<in> set (db_merchants (pg_db s)). mr_id r = m \<and> active_merchant (pr_AccountID p) r))"
proof -
  have sorted: "\<exists>r \<in> set (db_merchants (pg_db s)). mr_id r = m \<and> active_merchant (pr_AccountID p) r"
    if "map mr_id (take 2 (sort_key mr_created_at (filter (active_merchant (pr_AccountID p)) (db_merchants (pg_db s))))) = [m]"
  proof -
    from that have "m \<in> mr_id ` set (take 2 (sort_key mr_created_at (filter (active_merchant (pr_AccountID p)) (db_merchants (pg_db s)))))"
      by (metis list.set_intros(1) list.set_map)
    then show ?thesis by (auto dest!: in_set_takeD)
  qed
  from assms show ?thesis
    unfolding pg_ResolveMerchant_def
    by (auto simp: io_simps list_ex_iff split: if_splits list.splits elim!: io_bindE db_queryE dest!: sorted)
qed

end
