(* ===== verification/Completion.thy ===== *)
theory Completion
  imports Core_Model
begin

text \<open>
  The public view of a provider completion and the checkout address: \<^verbatim>\<open>publicPaymentData\<close>,
  \<^verbatim>\<open>actionURL\<close> and \<^verbatim>\<open>normalizeRead\<close> of \<^verbatim>\<open>app/payments.go\<close>.
\<close>

text \<open>One optional key of the completion, copied under a possibly different name.\<close>

definition copy_key :: "jmap \<Rightarrow> string \<times> string \<Rightarrow> jmap \<Rightarrow> jmap" where
  "copy_key src kk m = (case mget src (fst kk) of Some v \<Rightarrow> mput (snd kk) v m | None \<Rightarrow> m)"

definition copy_keys :: "jmap \<Rightarrow> (string \<times> string) list \<Rightarrow> jmap" where
  "copy_keys src kks = fold (copy_key src) kks []"

definition recommended_link :: "jmap \<Rightarrow> string" where
  "recommended_link links =
     (if mget links ''universal'' \<noteq> None then ''universal''
      else if mget links ''app'' \<noteq> None then ''app'' else ''web'')"

definition publicPaymentData :: "jmap \<Rightarrow> go_error + jmap" where
  "publicPaymentData completion =
     (let typeName = as_string (mget completion ''type'') in
      if typeName = ''redirect'' then
        (let links = as_map (mget completion ''links'') in
         if links = [] then Inl ErrInvalid
         else
           let redirect = [(''recommendedAlternative'', JStr (recommended_link links)),
                           (''links'', JObj links)];
               qr = copy_keys completion [(''qrContent'', ''content''), (''qrImageUrl'', ''imageUrl'')];
               redirect = (if qr = [] then redirect else mput ''qr'' (JObj qr) redirect)
           in Inr [(''type'', JStr ''redirect''), (''redirect'', JObj redirect)])
      else if typeName = ''bank_transfer'' then
        (let bank = copy_keys completion
               (map (\<lambda>k. (k, k)) [''rail'', ''destinationMode'', ''accountIdentifier'', ''transferReference''])
         in Inr [(''type'', JStr ''bank_transfer''), (''bankTransfer'', JObj bank)])
      else if typeName = ''qr'' then
        (let qr = copy_keys completion
               (map (\<lambda>k. (k, k)) [''format'', ''content'', ''imageBase64''])
         in Inr [(''type'', JStr ''qr''), (''qr'', JObj qr)])
      else Inl (ErrOther (''unsupported completion type '' @ go_quote typeName)))"

fun first_link :: "jmap \<Rightarrow> string list \<Rightarrow> string" where
  "first_link links [] = ''''"
| "first_link links (name # names) =
     (case mget links name of
        Some (JStr value) \<Rightarrow> if value \<noteq> '''' then value else first_link links names
      | _ \<Rightarrow> first_link links names)"

definition actionURL :: "string \<Rightarrow> jmap \<Rightarrow> string \<Rightarrow> string" where
  "actionURL checkoutBase paymentData transactionID =
     (if checkoutBase \<noteq> '''' then checkoutBase @ ''/pay/'' @ transactionID
      else
        let redirect = as_map (mget paymentData ''redirect'');
            links = as_map (mget redirect ''links'');
            recommended = as_string (mget redirect ''recommendedAlternative'')
        in first_link links [recommended, ''universal'', ''web'', ''app''])"

definition normalizeRead :: "string \<Rightarrow> payment \<Rightarrow> payment" where
  "normalizeRead checkoutBase p =
     (if pay_Origin p = ''v1'' \<and> checkoutBase \<noteq> ''''
      then p\<lparr>pay_ActionURL := checkoutBase @ ''/pay/'' @ pay_TransactionID p\<rparr> else p)"

section \<open>Lemmas\<close>

lemma copy_key_get:
  "mget (copy_key src kk m) k =
     (if k = snd kk \<and> mget src (fst kk) \<noteq> None then mget src (fst kk) else mget m k)"
  by (auto simp: copy_key_def split: option.splits)

lemma fold_copy_self:
  "mget (fold (copy_key src) (map (\<lambda>k. (k, k)) ks) m) k =
     (if k \<in> set ks \<and> mget src k \<noteq> None then mget src k else mget m k)"
  by (induction ks arbitrary: m) (auto simp: copy_key_get)

lemma copy_self_get:
  "mget (copy_keys src (map (\<lambda>k. (k, k)) ks)) k = (if k \<in> set ks then mget src k else None)"
  by (auto simp: copy_keys_def fold_copy_self)

text \<open>\<open>first_link\<close> returns the first non-empty string among the named links.\<close>

definition link_url :: "jmap \<Rightarrow> string \<Rightarrow> string" where
  "link_url links name = as_string (mget links name)"

lemma first_link_eq:
  "first_link links names =
     (case find (\<lambda>n. link_url links n \<noteq> '''') names of None \<Rightarrow> '''' | Some n \<Rightarrow> link_url links n)"
  by (induction names)
     (auto simp: link_url_def as_string_def split: option.splits json.splits)

lemma first_link_empty_iff:
  "first_link links names = '''' \<longleftrightarrow> (\<forall>n \<in> set names. link_url links n = '''')"
  by (auto simp: first_link_eq find_None_iff split: option.splits dest: find_SomeD)

lemma first_link_sound:
  "first_link links names \<noteq> '''' \<Longrightarrow> \<exists>n \<in> set names. first_link links names = link_url links n"
  by (auto simp: first_link_eq split: option.splits dest!: find_SomeD)

lemma link_url_present: "link_url links n \<noteq> '''' \<Longrightarrow> mget links n \<noteq> None"
  by (cases "mget links n") (auto simp: link_url_def)

lemma recommended_in_three: "recommended_link links \<in> {''universal'', ''app'', ''web''}"
  by (simp add: recommended_link_def)

lemma redirect_parts:
  assumes "publicPaymentData c = Inr d" and "as_string (mget c ''type'') = ''redirect''"
  shows "as_map (mget (as_map (mget d ''redirect'')) ''links'') = as_map (mget c ''links'')"
    and "as_string (mget (as_map (mget d ''redirect'')) ''recommendedAlternative'') =
      recommended_link (as_map (mget c ''links''))"
  using assms by (auto simp: publicPaymentData_def Let_def split: if_splits)

section \<open>Properties\<close>

text \<open>
  C35: without a configured checkout, the address of a redirect payment is the provider link of
  the recommended alternative when that is a non-empty string, else the first non-empty one of
  \<^verbatim>\<open>universal\<close>, \<^verbatim>\<open>web\<close>, \<^verbatim>\<open>app\<close>; it is empty exactly when none of the three links holds an
  address. The recommended alternative is \<^verbatim>\<open>universal\<close> before \<^verbatim>\<open>app\<close> before \<^verbatim>\<open>web\<close>.
\<close>

theorem actionURL_of_redirect:
  assumes "publicPaymentData c = Inr d" and "as_string (mget c ''type'') = ''redirect''"
  defines "links \<equiv> as_map (mget c ''links'')"
  shows "actionURL '''' d tx =
      (case find (\<lambda>n. link_url links n \<noteq> '''') [recommended_link links, ''universal'', ''web'', ''app''] of
         None \<Rightarrow> '''' | Some n \<Rightarrow> link_url links n)
    \<and> (actionURL '''' d tx = '''' \<longleftrightarrow>
        link_url links ''universal'' = '''' \<and> link_url links ''web'' = '''' \<and> link_url links ''app'' = '''')"
proof -
  have eq: "actionURL '''' d tx = first_link links [recommended_link links, ''universal'', ''web'', ''app'']"
    using redirect_parts [OF assms(1,2)] by (simp only: actionURL_def Let_def links_def) simp
  have rec: "recommended_link links \<in> {''universal'', ''app'', ''web''}" by (rule recommended_in_three)
  show ?thesis
    unfolding eq first_link_empty_iff using rec by (auto simp only: first_link_eq) auto
qed

theorem actionURL_of_redirect_witness:
  "actionURL '''' [(''type'', JStr ''redirect''), (''redirect'', JObj [(''recommendedAlternative'', JStr ''app''),
     (''links'', JObj [(''web'', JStr ''https://w''), (''app'', JStr '''')])])] ''t1'' = ''https://w''"
proof -
  let ?c = "[(''type'', JStr ''redirect''), (''links'', JObj [(''web'', JStr ''https://w''), (''app'', JStr '''')])]"
  let ?d = "[(''type'', JStr ''redirect''), (''redirect'', JObj [(''recommendedAlternative'', JStr ''app''),
     (''links'', JObj [(''web'', JStr ''https://w''), (''app'', JStr '''')])])]"
  have "publicPaymentData ?c = Inr ?d" and "as_string (mget ?c ''type'') = ''redirect''"
    by (simp_all add: publicPaymentData_def Let_def recommended_link_def copy_keys_def copy_key_def)
  from actionURL_of_redirect [OF this, of "''t1''"] show ?thesis
    by (simp add: link_url_def recommended_link_def)
qed

text \<open>
  C34: only listed keys of a completion are published, with their values unchanged: of a bank transfer four, of a QR payment
  three, of a redirect the links, as the provider gave them, and the content and image of its QR code, under other names and
  only when one of them is there, beside the name of the recommended link. A completion of any other type, or a redirect
  without links, is an error.
\<close>

theorem publicPaymentData_whitelist:
  "(as_string (mget c ''type'') = ''redirect'' \<and> as_map (mget c ''links'') \<noteq> [] \<longrightarrow>
      (\<exists>d qr. publicPaymentData c = Inr d \<and> mkeys d = [''type'', ''redirect''] \<and>
        (\<forall>k. mget (as_map (mget d ''redirect'')) k =
          (if k = ''recommendedAlternative'' then Some (JStr (recommended_link (as_map (mget c ''links''))))
           else if k = ''links'' then mget c ''links''
           else if k = ''qr'' \<and> (mget c ''qrContent'' \<noteq> None \<or> mget c ''qrImageUrl'' \<noteq> None) then Some (JObj qr) else None)) \<and>
        (\<forall>k. mget qr k = (if k = ''content'' then mget c ''qrContent'' else if k = ''imageUrl'' then mget c ''qrImageUrl'' else None))))
   \<and> (as_string (mget c ''type'') = ''bank_transfer'' \<longrightarrow>
      (\<exists>d. publicPaymentData c = Inr d \<and> mkeys d = [''type'', ''bankTransfer''] \<and>
        (\<forall>k. mget (as_map (mget d ''bankTransfer'')) k =
          (if k \<in> {''rail'', ''destinationMode'', ''accountIdentifier'', ''transferReference''}
           then mget c k else None))))
   \<and> (as_string (mget c ''type'') = ''qr'' \<longrightarrow>
      (\<exists>d. publicPaymentData c = Inr d \<and> mkeys d = [''type'', ''qr''] \<and>
        (\<forall>k. mget (as_map (mget d ''qr'')) k =
          (if k \<in> {''format'', ''content'', ''imageBase64''} then mget c k else None))))
   \<and> ((\<exists>e. publicPaymentData c = Inl e) \<longleftrightarrow>
      as_string (mget c ''type'') \<notin> {''redirect'', ''bank_transfer'', ''qr''} \<or>
      (as_string (mget c ''type'') = ''redirect'' \<and> as_map (mget c ''links'') = []))"
proof (intro conjI)
  show "as_string (mget c ''type'') = ''redirect'' \<and> as_map (mget c ''links'') \<noteq> [] \<longrightarrow>
      (\<exists>d qr. publicPaymentData c = Inr d \<and> mkeys d = [''type'', ''redirect''] \<and>
        (\<forall>k. mget (as_map (mget d ''redirect'')) k =
          (if k = ''recommendedAlternative'' then Some (JStr (recommended_link (as_map (mget c ''links''))))
           else if k = ''links'' then mget c ''links''
           else if k = ''qr'' \<and> (mget c ''qrContent'' \<noteq> None \<or> mget c ''qrImageUrl'' \<noteq> None) then Some (JObj qr) else None)) \<and>
        (\<forall>k. mget qr k = (if k = ''content'' then mget c ''qrContent'' else if k = ''imageUrl'' then mget c ''qrImageUrl'' else None)))"
  proof
    assume redirect: "as_string (mget c ''type'') = ''redirect'' \<and> as_map (mget c ''links'') \<noteq> []"
    let ?links = "as_map (mget c ''links'')" and ?qr = "copy_keys c [(''qrContent'', ''content''), (''qrImageUrl'', ''imageUrl'')]"
    let ?head = "[(''recommendedAlternative'', JStr (recommended_link ?links)), (''links'', JObj ?links)]"
    have links: "mget c ''links'' = Some (JObj ?links)"
      using redirect by (cases "mget c ''links''") (auto simp: as_map_def split: json.splits)
    have data: "publicPaymentData c = Inr [(''type'', JStr ''redirect''),
        (''redirect'', JObj (if ?qr = [] then ?head else mput ''qr'' (JObj ?qr) ?head))]"
      using redirect by (simp add: publicPaymentData_def Let_def)
    have qr: "mget ?qr k = (if k = ''content'' then mget c ''qrContent'' else if k = ''imageUrl'' then mget c ''qrImageUrl'' else None)" for k
      by (auto simp: copy_keys_def copy_key_get)
    have some: "?qr = [] \<longleftrightarrow> mget c ''qrContent'' = None \<and> mget c ''qrImageUrl'' = None"
      by (auto simp: copy_keys_def copy_key_def split: option.split)
    show "\<exists>d qr. publicPaymentData c = Inr d \<and> mkeys d = [''type'', ''redirect''] \<and>
        (\<forall>k. mget (as_map (mget d ''redirect'')) k =
          (if k = ''recommendedAlternative'' then Some (JStr (recommended_link (as_map (mget c ''links''))))
           else if k = ''links'' then mget c ''links''
           else if k = ''qr'' \<and> (mget c ''qrContent'' \<noteq> None \<or> mget c ''qrImageUrl'' \<noteq> None) then Some (JObj qr) else None)) \<and>
        (\<forall>k. mget qr k = (if k = ''content'' then mget c ''qrContent'' else if k = ''imageUrl'' then mget c ''qrImageUrl'' else None))"
      by (rule exI, rule exI [of _ ?qr], intro conjI allI, rule data) (use qr some links in auto)
  qed
qed (unfold publicPaymentData_def Let_def, simp_all add: copy_self_get del: list.map)

theorem publicPaymentData_whitelist_witness:
  "\<exists>d. publicPaymentData [(''type'', JStr ''qr''), (''content'', JStr ''x''), (''secret'', JStr ''y'')] = Inr d
     \<and> mget (as_map (mget d ''qr'')) ''content'' = Some (JStr ''x'')
     \<and> mget (as_map (mget d ''qr'')) ''secret'' = None"
  using publicPaymentData_whitelist [of "[(''type'', JStr ''qr''), (''content'', JStr ''x''), (''secret'', JStr ''y'')]"]
  by auto

end
