(* ===== verification/Static_Auth.thy ===== *)
theory Static_Auth
  imports Ports
begin

text \<open>
  \<^verbatim>\<open>internal/adapters/static/auth.go\<close>: API keys from a configuration string
  \<^verbatim>\<open>key=account:merchant,...\<close>.
\<close>

section \<open>Operations\<close>

definition auth_entry :: "string \<Rightarrow> (string \<times> principal) option" where
  "auth_entry entry =
     (case split2 CHR ''='' entry of
        [k, v] \<Rightarrow>
          (case split2 CHR '':'' v of
             [acct, merch] \<Rightarrow> Some (k, \<lparr>pr_AccountID = acct, pr_MerchantID = merch, pr_Scopes = []\<rparr>)
           | acct # _ \<Rightarrow> Some (k, \<lparr>pr_AccountID = acct, pr_MerchantID = '''', pr_Scopes = []\<rparr>)
           | [] \<Rightarrow> None)
      | _ \<Rightarrow> None)"

definition static_NewAuth :: "string \<Rightarrow> principal gomap" where
  "static_NewAuth spec =
     fold (\<lambda>entry keys. case auth_entry entry of None \<Rightarrow> keys | Some (k, p) \<Rightarrow> mput k p keys)
       (split_on CHR '','' spec) []"

definition static_Authenticate :: "principal gomap \<Rightarrow> string \<Rightarrow> ('s, principal) go_io" where
  "static_Authenticate keys token s =
     (case mget keys token of None \<Rightarrow> (Inl (ErrOther ''invalid api key''), s) | Some p \<Rightarrow> (Inr p, s))"

definition static_ResolveMerchant :: "principal \<Rightarrow> string \<Rightarrow> ('s, string) go_io" where
  "static_ResolveMerchant p requested s =
     (if requested = '''' then
        (if pr_MerchantID p = '''' then (Inl ErrUnauthorized, s) else (Inr (pr_MerchantID p), s))
      else if pr_MerchantID p \<noteq> requested then (Inl ErrUnauthorized, s)
      else (Inr requested, s))"

definition static_auth :: "principal gomap \<Rightarrow> 's authenticator" where
  "static_auth keys = \<lparr>au_Authenticate = static_Authenticate keys, au_ResolveMerchant = static_ResolveMerchant\<rparr>"

section \<open>Lemmas\<close>

lemma split_on_nonempty [simp]: "split_on c s \<noteq> []"
  by (induction s) (auto split: list.splits)

lemma split_on_no_sep: "c \<notin> set s \<Longrightarrow> split_on c s = [s]"
  by (induction s) auto

lemma split_on_append: "c \<notin> set s \<Longrightarrow> split_on c (s @ c # rest) = s # split_on c rest"
  by (induction s) auto

lemma split2_sep: "c \<notin> set a \<Longrightarrow> split2 c (a @ c # b) = [a, b]"
  by (induction a) (auto simp: split2_def)

lemma static_resolve_cases:
  "static_ResolveMerchant p requested s =
     (if pr_MerchantID p \<noteq> '''' \<and> (requested = '''' \<or> requested = pr_MerchantID p)
      then (Inr (pr_MerchantID p), s) else (Inl ErrUnauthorized, s))"
  by (auto simp: static_ResolveMerchant_def)

text \<open>The configuration of a list of entries, as an operator would write it.\<close>

definition show_entry :: "string \<times> string \<times> string \<Rightarrow> string" where
  "show_entry e = (case e of (k, a, m) \<Rightarrow> k @ ''='' @ a @ '':'' @ m)"

fun show_entries :: "(string \<times> string \<times> string) list \<Rightarrow> string" where
  "show_entries [] = ''''"
| "show_entries [e] = show_entry e"
| "show_entries (e # es) = show_entry e @ '','' @ show_entries es"

definition clean_entry :: "string \<times> string \<times> string \<Rightarrow> bool" where
  "clean_entry e = (case e of (k, a, m) \<Rightarrow>
     CHR '','' \<notin> set k \<union> set a \<union> set m \<and> CHR ''='' \<notin> set k \<and> CHR '':'' \<notin> set a)"

lemma auth_entry_show:
  "clean_entry (k, a, m) \<Longrightarrow>
   auth_entry (show_entry (k, a, m)) = Some (k, \<lparr>pr_AccountID = a, pr_MerchantID = m, pr_Scopes = []\<rparr>)"
  by (simp add: auth_entry_def show_entry_def clean_entry_def split2_sep)

lemma show_entry_no_comma: "clean_entry e \<Longrightarrow> CHR '','' \<notin> set (show_entry e)"
  by (cases e) (auto simp: show_entry_def clean_entry_def)

lemma split_show_entries:
  "es \<noteq> [] \<Longrightarrow> \<forall>e \<in> set es. clean_entry e \<Longrightarrow> split_on CHR '','' (show_entries es) = map show_entry es"
proof (induction es rule: show_entries.induct)
  case (2 e)
  then show ?case by (simp add: split_on_no_sep show_entry_no_comma)
next
  case (3 e e' es)
  then show ?case by (simp add: split_on_append show_entry_no_comma)
qed simp

lemma fold_auth_entries:
  "\<forall>e \<in> set es. clean_entry e \<Longrightarrow>
   mget (fold (\<lambda>entry keys. case auth_entry entry of None \<Rightarrow> keys | Some (k, p) \<Rightarrow> mput k p keys)
     (map show_entry es) m) token =
   (case find (\<lambda>e. fst e = token) (rev es) of
      Some (k, a, mm) \<Rightarrow> Some \<lparr>pr_AccountID = a, pr_MerchantID = mm, pr_Scopes = []\<rparr>
    | None \<Rightarrow> mget m token)"
proof (induction es arbitrary: m)
  case Nil
  then show ?case by simp
next
  case (Cons e es)
  obtain k a mm where e: "e = (k, a, mm)" by (cases e)
  from Cons.prems e have "auth_entry (show_entry e) = Some (k, \<lparr>pr_AccountID = a, pr_MerchantID = mm, pr_Scopes = []\<rparr>)"
    by (simp add: auth_entry_show)
  with Cons e show ?case
    by (auto simp: find_append split: option.splits)
qed

section \<open>Properties\<close>

text \<open>
  C32: parsing the configuration that lists entries \<^verbatim>\<open>key=account:merchant\<close> gives exactly those
  principals: a token authenticates as the last entry with that key, and any other token is
  refused. Keys hold no \<^verbatim>\<open>=\<close> or comma, accounts no colon or comma, merchants no comma.
\<close>

theorem static_auth_roundtrip:
  assumes "es \<noteq> []" and "\<forall>e \<in> set es. clean_entry e"
  shows "static_Authenticate (static_NewAuth (show_entries es)) token s =
    (case find (\<lambda>e. fst e = token) (rev es) of
       Some (k, a, m) \<Rightarrow> (Inr \<lparr>pr_AccountID = a, pr_MerchantID = m, pr_Scopes = []\<rparr>, s)
     | None \<Rightarrow> (Inl (ErrOther ''invalid api key''), s))"
  using assms fold_auth_entries [of es "[]" token]
  by (auto simp: static_Authenticate_def static_NewAuth_def split_show_entries split: option.splits)

theorem static_auth_roundtrip_witness:
  "static_Authenticate (static_NewAuth ''k1=a1:m1,k2=a2:m2'') ''k2'' (0 :: nat) =
     (Inr \<lparr>pr_AccountID = ''a2'', pr_MerchantID = ''m2'', pr_Scopes = []\<rparr>, 0)"
  using static_auth_roundtrip [of "[(''k1'', ''a1'', ''m1''), (''k2'', ''a2'', ''m2'')]" "''k2''" "0 :: nat"]
  by (simp add: clean_entry_def show_entry_def)

end
