(* ===== verification/Payments_App.thy ===== *)
theory Payments_App
  imports Completion Memory_Store Static_Auth
begin

text \<open>
  \<^verbatim>\<open>app/payments.go\<close>: the payment service. \<open>Payments_Create\<close> is the whole handler: validation,
  merchant resolution, reservation of the idempotency key, routing, provider call, completion,
  and the deferred release of the reservation on every error in between.
\<close>

section \<open>State and operations\<close>

text \<open>
  The service struct; \<^verbatim>\<open>s.now()\<close> is an argument of the operations. \<open>sv_sha256\<close> and \<open>sv_marshal\<close>
  stand for SHA-256 and for \<^verbatim>\<open>json.Marshal\<close> of a request.
\<close>

record 's payments =
  sv_router :: router
  sv_connector :: connector
  sv_store :: "'s payment_store"
  sv_merchants :: "'s authenticator"
  sv_checkoutBase :: string
  sv_sha256 :: digest
  sv_marshal :: "create_payment \<Rightarrow> string"

definition NewPayments ::
  "router \<Rightarrow> connector \<Rightarrow> 's payment_store \<Rightarrow> 's authenticator \<Rightarrow> string \<Rightarrow> digest \<Rightarrow>
   (create_payment \<Rightarrow> string) \<Rightarrow> 's payments" where
  "NewPayments router connector store merchants checkoutBase sha256 marshal =
     \<lparr>sv_router = router, sv_connector = connector, sv_store = store, sv_merchants = merchants,
      sv_checkoutBase = trim_right checkoutBase CHR ''/'', sv_sha256 = sha256, sv_marshal = marshal\<rparr>"

definition create_invalid :: "create_payment \<Rightarrow> string \<Rightarrow> bool" where
  "create_invalid inp idempotencyKey \<longleftrightarrow>
     blank idempotencyKey \<or> cp_ExternalID inp = '''' \<or> cp_Amount inp = '''' \<or> cp_Currency inp = '''' \<or>
     cp_PaymentMethod inp = '''' \<or> cp_Customer inp = []"

definition payment_route_request ::
  "digest \<Rightarrow> principal \<Rightarrow> string \<Rightarrow> string \<Rightarrow> string \<Rightarrow> create_payment \<Rightarrow> route_request" where
  "payment_route_request sha256 prin merchantID txID idempotencyKey inp =
     \<lparr>rq_RequestID = deterministicUUID sha256 (merchantID @ '':route:'' @ idempotencyKey),
      rq_TransactionID = txID, rq_AccountID = pr_AccountID prin, rq_MerchantID = merchantID,
      rq_Operation = ''payment'', rq_Amount = cp_Amount inp, rq_Currency = cp_Currency inp,
      rq_DestinationCurrency = '''',
      rq_MarketCountry = as_string (mget (cp_Customer inp) ''country''),
      rq_PaymentMethod = cp_PaymentMethod inp,
      rq_CustomerHasDocument = (mget (cp_Customer inp) ''documentNumber'' \<noteq> None),
      rq_Rail = cp_Rail inp, rq_DestinationMode = cp_DestinationMode inp, rq_RequiredFeatures = []\<rparr>"

definition new_payment ::
  "time \<Rightarrow> principal \<Rightarrow> string \<Rightarrow> string \<Rightarrow> create_payment \<Rightarrow> route_decision \<Rightarrow> payment" where
  "new_payment now prin merchantID txID inp route =
     \<lparr>pay_TransactionID = txID, pay_MerchantID = merchantID, pay_AccountID = pr_AccountID prin,
      pay_ExternalID = cp_ExternalID inp, pay_Status = ''started'', pay_Amount = cp_Amount inp,
      pay_Currency = cp_Currency inp, pay_PaymentMethod = cp_PaymentMethod inp,
      pay_Description = cp_Description inp, pay_CreationDate = now,
      pay_ExpirationDate = cp_ExpirationDate inp, pay_ActionURL = '''', pay_Customer = cp_Customer inp,
      pay_Metadata = cp_Metadata inp, pay_PaymentData = [], pay_ProviderPaymentID = '''',
      pay_ProviderReference = '''', pay_Route = route, pay_Version = 1, pay_Origin = ''''\<rparr>"

definition completed_payment :: "string \<Rightarrow> provider_payment \<Rightarrow> jmap \<Rightarrow> payment \<Rightarrow> payment" where
  "completed_payment checkoutBase provider paymentData p =
     p\<lparr>pay_PaymentData := paymentData,
       pay_ProviderPaymentID := ppm_ProviderPaymentID provider,
       pay_ProviderReference := ppm_ProviderReference provider,
       pay_ExpirationDate := (if ppm_ExpiresAt provider \<noteq> 0 then ppm_ExpiresAt provider else pay_ExpirationDate p),
       pay_ActionURL := actionURL checkoutBase paymentData (pay_TransactionID p)\<rparr>"

definition created_event :: "digest \<Rightarrow> time \<Rightarrow> string \<Rightarrow> string \<Rightarrow> payment \<Rightarrow> merchant_event" where
  "created_event sha256 now merchantID txID p =
     (let eventID = deterministicUUID sha256 (''payment.created:'' @ txID) in
      \<lparr>me_EventID = eventID, me_EventType = ''payment.created'', me_MerchantID = merchantID,
       me_ResourceID = txID, me_ResourceVersion = 1,
       me_Payload = Some \<lparr>ep_eventId = eventID, ep_eventType = ''payment.created'', ep_apiVersion = ''2'',
          ep_merchantId = merchantID, ep_creationDate = now, ep_resourceVersion = 1,
          ep_previousStatus = None, ep_object = ResPayment p\<rparr>\<rparr>)"

text \<open>The part of \<^verbatim>\<open>Create\<close> that runs under the deferred release, from routing to completion.\<close>

definition create_reserved ::
  "'s payments \<Rightarrow> time \<Rightarrow> principal \<Rightarrow> string \<Rightarrow> string \<Rightarrow> create_payment \<Rightarrow> string \<Rightarrow> ('s world, payment) go_io" where
  "create_reserved s now prin merchantID txID inp idempotencyKey =
     (let rq = payment_route_request (sv_sha256 s) prin merchantID txID idempotencyKey inp in
      io_bind (io_wrap ''resolve route: ''
          (ext_call (CallResolve rq) (\<lambda>h. ro_Resolve (sv_router s) h rq)))
        (\<lambda>route.
          let payment = new_payment now prin merchantID txID inp route in
          io_bind (io_wrap ''create provider payment: ''
              (ext_call (CallCreatePayment route payment (cp_SuccessURL inp) (cp_CancelURL inp))
                (\<lambda>h. co_CreatePayment (sv_connector s) h route payment (cp_SuccessURL inp) (cp_CancelURL inp))))
            (\<lambda>provider.
              io_bind (io_wrap ''map provider completion: ''
                  (\<lambda>w. (publicPaymentData (ppm_Completion provider), w)))
                (\<lambda>paymentData.
                  let payment = completed_payment (sv_checkoutBase s) provider paymentData payment in
                  io_bind (on_store (st_CompleteCreate (sv_store s) payment
                      (created_event (sv_sha256 s) now merchantID txID payment) idempotencyKey))
                    (\<lambda>_. io_return payment)))))"

definition Payments_Create ::
  "'s payments \<Rightarrow> time \<Rightarrow> principal \<Rightarrow> create_payment \<Rightarrow> string \<Rightarrow> ('s world, payment \<times> bool) go_io" where
  "Payments_Create s now prin inp idempotencyKey =
     (if create_invalid inp idempotencyKey then io_fail ErrInvalid
      else
        io_bind (on_store (au_ResolveMerchant (sv_merchants s) prin (cp_MerchantID inp)))
          (\<lambda>merchantID.
            let hash = requestHash (sv_sha256 s) (sv_marshal s) inp;
                inp = (if cp_ExpirationDate inp = 0
                       then inp\<lparr>cp_ExpirationDate := now + 15 * minute_ns\<rparr> else inp);
                txID = deterministicUUID (sv_sha256 s) (merchantID @ '':payment:'' @ idempotencyKey)
            in io_bind (on_store (st_BeginCreate (sv_store s) merchantID idempotencyKey hash txID))
                (\<lambda>(existing, replayed).
                  if replayed then io_return (existing, True)
                  else
                    io_bind (io_on_error
                        (create_reserved s now prin merchantID txID inp idempotencyKey)
                        (on_store (st_ReleaseCreate (sv_store s) merchantID idempotencyKey)))
                      (\<lambda>payment. io_return (payment, False)))))"

definition Payments_Get :: "'s payments \<Rightarrow> principal \<Rightarrow> string \<Rightarrow> ('s world, payment) go_io" where
  "Payments_Get s prin transactionID =
     io_bind (on_store (st_Get (sv_store s) (pr_AccountID prin) (pr_MerchantID prin) transactionID))
       (\<lambda>p. io_return (normalizeRead (sv_checkoutBase s) p))"

definition Payments_List :: "'s payments \<Rightarrow> principal \<Rightarrow> payment_list_options \<Rightarrow> ('s world, payment_page) go_io" where
  "Payments_List s prin options =
     io_bind (on_store (st_List (sv_store s) (pr_AccountID prin) (pr_MerchantID prin) options))
       (\<lambda>page. io_return (page\<lparr>pp_Data := map (normalizeRead (sv_checkoutBase s)) (pp_Data page)\<rparr>))"

section \<open>Inversion lemmas\<close>

text \<open>What a successful reserved part did: two calls, both answered, then the completion.\<close>

lemma create_reserved_ok:
  assumes "create_reserved sv now pr m tx inp key w = (Inr pay, w')"
  obtains rq route provider d e s' where
    "rq = payment_route_request (sv_sha256 sv) pr m tx key inp"
    "ro_Resolve (sv_router sv) (wcalls w) rq = Inr route"
    "publicPaymentData (ppm_Completion provider) = Inr d"
    "pay = completed_payment (sv_checkoutBase sv) provider d (new_payment now pr m tx inp route)"
    "st_CompleteCreate (sv_store sv) pay e key (wstore w) = (Inr (), s')"
    "w' = \<lparr>wstore = s', wcalls = wcalls w @ [(CallResolve rq, True),
       (CallCreatePayment route (new_payment now pr m tx inp route) (cp_SuccessURL inp) (cp_CancelURL inp), True)]\<rparr>"
proof -
  let ?rq = "payment_route_request (sv_sha256 sv) pr m tx key inp"
  obtain route w1 where 1: "ext_call (CallResolve ?rq) (\<lambda>h. ro_Resolve (sv_router sv) h ?rq) w = (Inr route, w1)"
    and k1: "snd (ext_call (CallResolve ?rq) (\<lambda>h. ro_Resolve (sv_router sv) h ?rq) w) = w1"
    using assms unfolding create_reserved_def Let_def
    by (auto elim!: io_bind_InrE dest!: io_wrap_InrD)
  let ?p = "new_payment now pr m tx inp route"
  let ?c = "CallCreatePayment route ?p (cp_SuccessURL inp) (cp_CancelURL inp)"
  let ?f = "\<lambda>h. co_CreatePayment (sv_connector sv) h route ?p (cp_SuccessURL inp) (cp_CancelURL inp)"
  obtain provider w2 where 2: "ext_call ?c ?f w1 = (Inr provider, w2)"
    using assms 1 unfolding create_reserved_def Let_def
    by (auto elim!: io_bind_InrE dest!: io_wrap_InrD)
  obtain d e s' where 3: "publicPaymentData (ppm_Completion provider) = Inr d"
    "pay = completed_payment (sv_checkoutBase sv) provider d ?p"
    "st_CompleteCreate (sv_store sv) pay e key (wstore w2) = (Inr (), s')" "w' = w2\<lparr>wstore := s'\<rparr>"
    using assms 1 2 unfolding create_reserved_def Let_def
    by (auto elim!: io_bind_InrE dest!: io_wrap_InrD on_storeD simp: io_simps)
  from ext_call_InrD [OF 1] ext_call_InrD [OF 2]
  have w2: "wstore w2 = wstore w" "wcalls w2 = wcalls w @ [(CallResolve ?rq, True), (?c, True)]"
    and r: "ro_Resolve (sv_router sv) (wcalls w) ?rq = Inr route" by auto
  show ?thesis
    by (rule that [OF refl r 3(1,2)]) (use 3(3,4) w2 in auto)
qed

text \<open>The reserved part touches the store only through a completion.\<close>

lemma create_reserved_store:
  assumes "create_reserved sv now pr m tx inp key w = (r, w')"
  shows "wstore w' = wstore w \<or>
    (\<exists>pay e rc. pay_MerchantID pay = m \<and> pay_TransactionID pay = tx \<and>
      st_CompleteCreate (sv_store sv) pay e key (wstore w) = (rc, wstore w') \<and>
      ((\<exists>er. r = Inl er \<and> rc = Inl er) \<or> (r = Inr pay \<and> rc = Inr ())))"
  using assms unfolding create_reserved_def Let_def
  by (elim io_bindE io_wrapE)
     (auto dest!: ext_callD on_storeD simp: io_simps completed_payment_def new_payment_def)

lemma create_reserved_fields:
  "completed_payment b provider d (new_payment now pr m tx inp route) =
   (new_payment now pr m tx inp route)
     \<lparr>pay_PaymentData := d, pay_ProviderPaymentID := ppm_ProviderPaymentID provider,
      pay_ProviderReference := ppm_ProviderReference provider,
      pay_ExpirationDate := (if ppm_ExpiresAt provider \<noteq> 0 then ppm_ExpiresAt provider else cp_ExpirationDate inp),
      pay_ActionURL := actionURL b d tx\<rparr>"
  by (simp add: completed_payment_def new_payment_def)

definition request_tx :: "'s payments \<Rightarrow> string \<Rightarrow> string \<Rightarrow> string" where
  "request_tx sv m key = deterministicUUID (sv_sha256 sv) (m @ '':payment:'' @ key)"

definition with_expiration :: "time \<Rightarrow> create_payment \<Rightarrow> create_payment" where
  "with_expiration now inp =
     (if cp_ExpirationDate inp = 0 then inp\<lparr>cp_ExpirationDate := now + 15 * minute_ns\<rparr> else inp)"

lemma create_inversion:
  assumes "Payments_Create sv now pr inp key w = (r, w')"
  obtains (invalid) "create_invalid inp key" "r = Inl ErrInvalid" "w' = w"
    | (merchant) e s1 where "\<not> create_invalid inp key"
        "au_ResolveMerchant (sv_merchants sv) pr (cp_MerchantID inp) (wstore w) = (Inl e, s1)"
        "r = Inl e" "w' = w\<lparr>wstore := s1\<rparr>"
    | (refused) m s1 e s2 where "\<not> create_invalid inp key"
        "au_ResolveMerchant (sv_merchants sv) pr (cp_MerchantID inp) (wstore w) = (Inr m, s1)"
        "st_BeginCreate (sv_store sv) m key (requestHash (sv_sha256 sv) (sv_marshal sv) inp) (request_tx sv m key) s1 = (Inl e, s2)"
        "r = Inl e" "w' = w\<lparr>wstore := s2\<rparr>"
    | (replayed) m s1 p s2 where "\<not> create_invalid inp key"
        "au_ResolveMerchant (sv_merchants sv) pr (cp_MerchantID inp) (wstore w) = (Inr m, s1)"
        "st_BeginCreate (sv_store sv) m key (requestHash (sv_sha256 sv) (sv_marshal sv) inp) (request_tx sv m key) s1 = (Inr (p, True), s2)"
        "r = Inr (p, True)" "w' = w\<lparr>wstore := s2\<rparr>"
    | (failed) m s1 p s2 e w2 where "\<not> create_invalid inp key"
        "au_ResolveMerchant (sv_merchants sv) pr (cp_MerchantID inp) (wstore w) = (Inr m, s1)"
        "st_BeginCreate (sv_store sv) m key (requestHash (sv_sha256 sv) (sv_marshal sv) inp) (request_tx sv m key) s1 = (Inr (p, False), s2)"
        "create_reserved sv now pr m (request_tx sv m key) (with_expiration now inp) key (w\<lparr>wstore := s2\<rparr>) = (Inl e, w2)"
        "r = Inl e" "w' = w2\<lparr>wstore := snd (st_ReleaseCreate (sv_store sv) m key (wstore w2))\<rparr>"
    | (created) m s1 p s2 pay where "\<not> create_invalid inp key"
        "au_ResolveMerchant (sv_merchants sv) pr (cp_MerchantID inp) (wstore w) = (Inr m, s1)"
        "st_BeginCreate (sv_store sv) m key (requestHash (sv_sha256 sv) (sv_marshal sv) inp) (request_tx sv m key) s1 = (Inr (p, False), s2)"
        "create_reserved sv now pr m (request_tx sv m key) (with_expiration now inp) key (w\<lparr>wstore := s2\<rparr>) = (Inr pay, w')"
        "r = Inr (pay, False)"
proof (cases "create_invalid inp key")
  case True
  with assms show ?thesis by (intro invalid) (auto simp: Payments_Create_def io_simps)
next
  case valid: False
  note run = assms [unfolded Payments_Create_def, folded with_expiration_def request_tx_def,
      unfolded Let_def, simplified valid if_False]
  from run show ?thesis
  proof (cases rule: io_bindE)
    case (error e)
    then show ?thesis by (auto dest!: on_storeD intro: merchant [OF valid])
  next
    case (ok m u)
    then obtain s1 where res: "au_ResolveMerchant (sv_merchants sv) pr (cp_MerchantID inp) (wstore w) = (Inr m, s1)"
      and u: "u = w\<lparr>wstore := s1\<rparr>" by (auto dest: on_storeD)
    from ok(2) show ?thesis
    proof (cases rule: io_bindE)
      case (error e)
      then show ?thesis by (auto dest!: on_storeD simp: u intro: refused [OF valid res])
    next
      case (ok pb v)
      obtain p b where pb: "pb = (p, b)" by (cases pb)
      show ?thesis
      proof (cases b)
        case True
        with ok show ?thesis by (auto dest!: on_storeD simp: u pb io_simps intro: replayed [OF valid res])
      next
        case False
        with ok obtain s2 where beg: "st_BeginCreate (sv_store sv) m key (requestHash (sv_sha256 sv) (sv_marshal sv) inp)
            (request_tx sv m key) s1 = (Inr (p, False), s2)" and v: "v = w\<lparr>wstore := s2\<rparr>"
          by (auto dest!: on_storeD simp: u pb)
        from ok(2) False show ?thesis unfolding pb v
          by (auto elim!: io_bindE io_on_errorE simp: io_simps on_store_def split: prod.splits
              intro: failed [OF valid res beg] created [OF valid res beg])
      qed
    qed
  qed
qed

section \<open>What the contract gives the service\<close>

context payment_service begin

lemma reserved_store:
  assumes "create_reserved sv now pr m tx inp key w = (r, w')" and "sv_store sv = st" and "inv (wstore w)"
  shows "inv (wstore w') \<and> (up (wstore w) \<longrightarrow> up (wstore w')) \<and> (isl r \<longrightarrow> same (wstore w) (wstore w'))"
  using create_reserved_store [OF assms(1)] assms(2,3)
  by (auto dest: complete_keeps complete_error intro: same_refl)

lemma create_keeps:
  assumes "Payments_Create sv now pr inp key w = (r, w')" and "sv_store sv = st" and "sv_merchants sv = merchants"
    and "inv (wstore w)"
  shows "inv (wstore w') \<and> (up (wstore w) \<longrightarrow> up (wstore w'))"
  using assms(1)
proof (cases rule: create_inversion)
  case (failed m s1 p s2 e w2)
  obtain rr s3 where rel: "st_ReleaseCreate st m key (wstore w2) = (rr, s3)"
    by (cases "st_ReleaseCreate st m key (wstore w2)")
  from failed assms(2-) have "inv s2 \<and> (up (wstore w) \<longrightarrow> up s2)"
    by (metis resolve_keeps begin_keeps)
  with reserved_store [OF failed(4) assms(2)] have "inv (wstore w2) \<and> (up (wstore w) \<longrightarrow> up (wstore w2))" by simp
  with release_keeps [OF _ rel] failed(6) rel assms(2) show ?thesis by simp
next
  case (created m s1 p s2 pay)
  with assms(2-) have "inv s2 \<and> (up (wstore w) \<longrightarrow> up s2)" by (metis resolve_keeps begin_keeps)
  with reserved_store [OF created(4) assms(2)] show ?thesis by simp
qed (use assms(2-) in \<open>auto dest: resolve_keeps begin_keeps\<close>)

text \<open>A request that fails leaves the store as it found it.\<close>

lemma create_failure_undone:
  assumes "Payments_Create sv now pr inp key w = (Inl e, w')" and "sv_store sv = st" and "sv_merchants sv = merchants"
    and "inv (wstore w)" and "up (wstore w)"
  shows "same (wstore w) (wstore w')"
  using assms(1)
proof (cases rule: create_inversion)
  case (refused m s1 e' s2)
  with assms(2-) show ?thesis
    using resolve_keeps [of "wstore w"] begin_error [of s1] same_trans by fastforce
next
  case (failed m s1 p s2 e' w2)
  obtain rr s3 where rel: "st_ReleaseCreate st m key (wstore w2) = (rr, s3)"
    by (cases "st_ReleaseCreate st m key (wstore w2)")
  have s1: "inv s1" "up s1" "same (wstore w) s1" using resolve_keeps failed(2) assms(3-) by auto
  have s2: "inv s2" "up s2" using begin_keeps [OF s1(1)] failed(3) assms(2) s1 by auto
  from reserved_store [OF failed(4) assms(2)] s2
  have "inv (wstore w2)" "up (wstore w2)" "same s2 (wstore w2)" by auto
  with release_undoes [OF s1(1) failed(3) [unfolded assms(2)]] rel have "same s1 s3" by blast
  with s1(3) failed(6) rel assms(2) show ?thesis by (auto intro: same_trans)
qed (use assms(2-) in \<open>auto dest: resolve_keeps intro: same_refl\<close>)

text \<open>What a successful creation leaves behind.\<close>

lemma create_success:
  assumes "Payments_Create sv now pr inp key w = (Inr (pay, False), w')" and "sv_store sv = st"
    and "sv_merchants sv = merchants" and "inv (wstore w)" and tx: "\<And>m. tx_ok (request_tx sv m key)"
  obtains m s1 route provider d where
    "au_ResolveMerchant merchants pr (cp_MerchantID inp) (wstore w) = (Inr m, s1)" "m \<noteq> ''''"
    "slot (wstore w) m key = None"
    "slot (wstore w') m key = Some (requestHash (sv_sha256 sv) (sv_marshal sv) inp, request_tx sv m key, True)"
    "saved (wstore w') m (request_tx sv m key) = Some (reread pay)"
    "pay = completed_payment (sv_checkoutBase sv) provider d
        (new_payment now pr m (request_tx sv m key) (with_expiration now inp) route)"
    "publicPaymentData (ppm_Completion provider) = Inr d"
    "wcalls w' = wcalls w @
       [(CallResolve (payment_route_request (sv_sha256 sv) pr m (request_tx sv m key) key (with_expiration now inp)), True),
        (CallCreatePayment route (new_payment now pr m (request_tx sv m key) (with_expiration now inp) route)
          (cp_SuccessURL inp) (cp_CancelURL inp), True)]"
  using assms(1)
proof (cases rule: create_inversion)
  case (created m s1 p s2 pay')
  let ?tx = "request_tx sv m key" and ?hash = "requestHash (sv_sha256 sv) (sv_marshal sv) inp"
  have s1: "inv s1" "same (wstore w) s1" and m: "m \<noteq> ''''"
    using resolve_keeps resolve_nonempty created(2) assms(3,4) by auto
  have fresh: "slot s1 m key = None" "slot s2 m key = Some (?hash, ?tx, False)" and s2: "inv s2"
    using begin_fresh [OF s1(1) tx] begin_keeps [OF s1(1)] created(3) assms(2) by auto
  have urls: "cp_SuccessURL (with_expiration now inp) = cp_SuccessURL inp"
    "cp_CancelURL (with_expiration now inp) = cp_CancelURL inp"
    by (simp_all add: with_expiration_def)
  from created(4) show ?thesis
  proof (cases rule: create_reserved_ok)
    case (1 rq route provider d e s')
    have ids: "pay' = pay" "pay_MerchantID pay = m" "pay_TransactionID pay = ?tx"
      using created(5) 1(4) by (auto simp: completed_payment_def new_payment_def)
    have fin: "slot s' m key = Some (?hash, ?tx, True) \<and> saved s' m ?tx = Some (reread pay)"
      using complete_ok [of s2 pay key ?hash e "()" s'] 1(5) ids fresh(2) s2 m assms(2) by simp
    show ?thesis
      by (rule that [of m s1 provider d route])
         (use created(2) m fresh(1) same_views [OF s1(2)] fin 1 ids urls assms(3) in auto)
  qed
qed auto

lemma create_success_slot:
  assumes "Payments_Create sv now pr inp key w = (Inr (pay, False), w')" and "sv_store sv = st"
    and "sv_merchants sv = merchants" and "inv (wstore w)" and "\<And>m. tx_ok (request_tx sv m key)"
  shows "\<exists>m s1. au_ResolveMerchant merchants pr (cp_MerchantID inp) (wstore w) = (Inr m, s1) \<and> m \<noteq> '''' \<and>
    slot (wstore w') m key = Some (requestHash (sv_sha256 sv) (sv_marshal sv) inp, request_tx sv m key, True) \<and>
    saved (wstore w') m (request_tx sv m key) = Some (reread pay)"
  by (rule create_success [OF assms]) blast

text \<open>A known key never reaches the outside: it is answered from the store.\<close>

lemma create_taken:
  assumes "sv_store sv = st" and "sv_merchants sv = merchants" and "inv (wstore w)" and "up (wstore w)"
    and "\<not> create_invalid inp key"
    and "au_ResolveMerchant merchants pr (cp_MerchantID inp) (wstore w) = (Inr m, s1)"
    and "slot (wstore w) m key = Some (h, t, c)"
    and "Payments_Create sv now pr inp key w = (r, w')" and tx: "tx_ok (request_tx sv m key)"
  shows "wcalls w' = wcalls w \<and> same (wstore w) (wstore w') \<and>
    r = (if requestHash (sv_sha256 sv) (sv_marshal sv) inp \<noteq> h then Inl ErrConflict
         else if \<not> c then Inl ErrInProgress
         else Inr (the (saved (wstore w) m t), True))"
proof -
  have s1: "inv s1" "up s1" "same (wstore w) s1" and m: "m \<noteq> ''''"
    using resolve_keeps resolve_nonempty assms(3,4,6) by auto
  note view = same_views [OF s1(3)]
  have slot1: "slot s1 m key = Some (h, t, c)" using view assms(7) by simp
  obtain rb s2 where beg: "st_BeginCreate st m key (requestHash (sv_sha256 sv) (sv_marshal sv) inp)
      (request_tx sv m key) s1 = (rb, s2)" by fastforce
  note taken = begin_taken [OF s1(1,2) tx m slot1 beg]
  show ?thesis
    using assms(8)
  proof (cases rule: create_inversion)
    case (replayed m' s1' p s2')
    with assms beg have eqs: "m' = m" "rb = Inr (p, True)" "s2' = s2" by auto
    with begin_replay [OF s1(1) m] beg slot1 view replayed s1(3) taken
    show ?thesis by (fastforce intro: same_trans)
  qed (use assms beg taken s1 begin_error [OF s1(1)] in \<open>auto intro: same_trans split: if_splits\<close>)
qed

end

section \<open>The service over the in-memory store\<close>

interpretation mem_payments:
  payment_service memory_store mem_slot mem_saved "\<lambda>p. p" "(=)" mem_inv "\<lambda>_. True" "\<lambda>_. True" "static_auth keys" for keys
  by unfold_locales (auto simp: static_auth_def static_resolve_cases split: if_splits)

definition memory_payments ::
  "router \<Rightarrow> connector \<Rightarrow> principal gomap \<Rightarrow> string \<Rightarrow> digest \<Rightarrow> (create_payment \<Rightarrow> string) \<Rightarrow> mem_store payments" where
  "memory_payments rt cn keys checkoutBase sha256 marshal =
     NewPayments rt cn memory_store (static_auth keys) checkoutBase sha256 marshal"

lemma memory_payments_parts [simp]:
  "sv_store (memory_payments rt cn keys b sha marshal) = memory_store"
  "sv_merchants (memory_payments rt cn keys b sha marshal) = static_auth keys"
  "sv_router (memory_payments rt cn keys b sha marshal) = rt"
  "sv_connector (memory_payments rt cn keys b sha marshal) = cn"
  "sv_sha256 (memory_payments rt cn keys b sha marshal) = sha"
  "sv_marshal (memory_payments rt cn keys b sha marshal) = marshal"
  "sv_checkoutBase (memory_payments rt cn keys b sha marshal) = trim_right b CHR ''/''"
  by (simp_all add: memory_payments_def NewPayments_def)

lemma world_eqI: "wstore w = wstore w' \<Longrightarrow> wcalls w = wcalls w' \<Longrightarrow> (w :: 's world) = w'"
  by simp

lemma create_valid: "Payments_Create sv now pr inp key w = (Inr x, w') \<Longrightarrow> \<not> create_invalid inp key"
  by (erule create_inversion) auto

lemma memory_taken:
  assumes "mem_inv (wstore w)" and "\<not> create_invalid inp key"
    and "static_ResolveMerchant pr (cp_MerchantID inp) (wstore w) = (Inr m, wstore w)"
    and "mem_slot (wstore w) m key = Some (h, t, c)"
  shows "Payments_Create (memory_payments rt cn keys b sha marshal) now pr inp key w =
    (if requestHash sha marshal inp \<noteq> h then Inl ErrConflict
     else if \<not> c then Inl ErrInProgress else Inr (the (mem_saved (wstore w) m t), True), w)"
proof -
  obtain r w' where run: "Payments_Create (memory_payments rt cn keys b sha marshal) now pr inp key w = (r, w')"
    by fastforce
  have res: "au_ResolveMerchant (static_auth keys) pr (cp_MerchantID inp) (wstore w) = (Inr m, wstore w)"
    using assms(3) by (simp add: static_auth_def)
  from mem_payments.create_taken [OF _ _ assms(1) _ assms(2) res assms(4) run]
  have "wcalls w' = wcalls w" "wstore w = wstore w'"
    "r = (if requestHash sha marshal inp \<noteq> h then Inl ErrConflict
     else if \<not> c then Inl ErrInProgress else Inr (the (mem_saved (wstore w) m t), True))"
    by simp_all
  moreover from calculation have "w' = w" by (intro world_eqI) simp_all
  ultimately show ?thesis using run by (simp only:)
qed

section \<open>An example environment\<close>

text \<open>
  The stubs of the repository's tests: a router that always selects the same connection and a
  connector whose completion is a web redirect. The encoding is a toy function, as is the digest \<open>ex_sha\<close>.
\<close>

definition ex_route :: route_decision where
  "ex_route = zero_route\<lparr>rd_ConnectorID := ''connector-test'', rd_Provider := ''test'',
     rd_ProviderConnectionID := ''connection1''\<rparr>"

definition ex_router :: router where
  "ex_router = \<lparr>ro_Resolve = (\<lambda>h rq. Inr ex_route)\<rparr>"

definition ex_provider_payment :: provider_payment where
  "ex_provider_payment = \<lparr>ppm_TransactionID = '''', ppm_Provider = ''test'', ppm_ProviderConnectionID = ''connection1'',
     ppm_ProviderPaymentID = ''provider1'', ppm_ProviderReference = '''', ppm_Status = ''created'', ppm_ExpiresAt = 0,
     ppm_Completion = [(''type'', JStr ''redirect''), (''links'', JObj [(''web'', JStr ''https://example.com'')])]\<rparr>"

definition ex_connector :: connector where
  "ex_connector = \<lparr>co_CreatePayment = (\<lambda>h route p succ canc. Inr ex_provider_payment),
     co_CreateRefund = (\<lambda>h route p r key. Inl ErrUnsupported), co_GetRefund = (\<lambda>h route r. Inl ErrUnsupported)\<rparr>"

definition ex_request :: create_payment where
  "ex_request = \<lparr>cp_MerchantID = '''', cp_AccountID = '''', cp_ExternalID = ''order1'', cp_Amount = ''0.25'',
     cp_Currency = ''USDT'', cp_PaymentMethod = ''crypto_payment'', cp_Rail = '''', cp_DestinationMode = '''',
     cp_Description = '''', cp_Customer = [(''country'', JStr ''UY'')], cp_SuccessURL = '''', cp_CancelURL = '''',
     cp_ExpirationDate = 0, cp_Metadata = []\<rparr>"

definition ex_principal :: principal where
  "ex_principal = \<lparr>pr_AccountID = ''account1'', pr_MerchantID = ''merchant1'', pr_Scopes = []\<rparr>"

definition ex_world :: "mem_store world" where
  "ex_world = \<lparr>wstore = mem_NewStore, wcalls = []\<rparr>"

definition ex_service :: "mem_store payments" where
  "ex_service = memory_payments ex_router ex_connector [] '''' ex_sha cp_Amount"

definition ex_run :: "(go_error + payment \<times> bool) \<times> mem_store world" where
  "ex_run = Payments_Create ex_service 1000000 ex_principal ex_request ''key1'' ex_world"

lemma ex_not_blank [simp]: "\<not> blank ''key1''"
  by (rule not_blank_visible) simp_all

lemma ex_valid [simp]: "\<not> create_invalid ex_request ''key1''"
  by (simp add: create_invalid_def ex_request_def)

lemma ex_resolve [simp]:
  "static_ResolveMerchant ex_principal (cp_MerchantID ex_request) s = (Inr ''merchant1'', s)"
  by (simp add: static_resolve_cases ex_principal_def ex_request_def)

lemma ex_data [simp]:
  "publicPaymentData (ppm_Completion ex_provider_payment) = Inr [(''type'', JStr ''redirect''),
     (''redirect'', JObj [(''recommendedAlternative'', JStr ''web''), (''links'', JObj [(''web'', JStr ''https://example.com'')])])]"
  by (simp add: ex_provider_payment_def publicPaymentData_def Let_def recommended_link_def copy_keys_def copy_key_def)

lemma ex_run_ok: "\<exists>pay w1. ex_run = (Inr (pay, False), w1) \<and> pay_Status pay = ''started'' \<and> length (wcalls w1) = 2"
  by (simp add: ex_run_def Payments_Create_def ex_service_def memory_store_def static_auth_def mem_BeginCreate_def
      ex_world_def mem_NewStore_def create_reserved_def io_bind_def io_on_error_def io_wrap_def ext_call_def on_store_def
      ex_router_def ex_connector_def Let_def mem_CompleteCreate_def io_simps completed_payment_def new_payment_def)

section \<open>Properties\<close>

text \<open>
  C16: creation is idempotent on the in-memory store. After a successful creation, the same
  request under the same key returns the same payment as a replay, at any later time, and a
  different request of the same merchant under that key is a conflict; neither calls the router
  or the connector nor changes the store.
\<close>

theorem memory_create_idempotent:
  assumes "mem_inv (wstore w)"
    and "Payments_Create (memory_payments rt cn keys b sha marshal) now pr inp key w = (Inr (pay, False), w1)"
  shows "Payments_Create (memory_payments rt cn keys b sha marshal) later pr inp key w1 = (Inr (pay, True), w1)
    \<and> (\<forall>other. \<not> create_invalid other key \<longrightarrow> cp_MerchantID other = cp_MerchantID inp \<longrightarrow>
        requestHash sha marshal other \<noteq> requestHash sha marshal inp \<longrightarrow>
        Payments_Create (memory_payments rt cn keys b sha marshal) later pr other key w1 = (Inl ErrConflict, w1))"
proof -
  have inv: "mem_inv (wstore w1)"
    using mem_payments.create_keeps [OF assms(2) _ _ assms(1)] by simp
  from mem_payments.create_success_slot [OF assms(2) _ _ assms(1), of keys, simplified]
  obtain m s1 where res: "au_ResolveMerchant (static_auth keys) pr (cp_MerchantID inp) (wstore w) = (Inr m, s1)"
    and slot: "mem_slot (wstore w1) m key =
      Some (requestHash sha marshal inp, request_tx (memory_payments rt cn keys b sha marshal) m key, True)"
    and saved: "mem_saved (wstore w1) m (request_tx (memory_payments rt cn keys b sha marshal) m key) = Some pay"
    by auto
  have res1: "static_ResolveMerchant pr (cp_MerchantID inp) (wstore w1) = (Inr m, wstore w1)"
    using res by (auto simp: static_auth_def static_resolve_cases split: if_splits)
  show ?thesis
    using memory_taken [OF inv _ _ slot] res1 saved create_valid [OF assms(2)] by auto
qed

theorem memory_create_idempotent_witness:
  "\<exists>pay w1. Payments_Create ex_service 1000000 ex_principal ex_request ''key1'' ex_world = (Inr (pay, False), w1)
    \<and> Payments_Create ex_service 9000000 ex_principal ex_request ''key1'' w1 = (Inr (pay, True), w1)"
proof -
  obtain pay w1 where run: "ex_run = (Inr (pay, False), w1)" using ex_run_ok by blast
  have "mem_inv (wstore ex_world)" by (simp add: ex_world_def mem_inv_new)
  from memory_create_idempotent [OF this run [unfolded ex_run_def ex_service_def]] run
  show ?thesis unfolding ex_run_def ex_service_def by blast
qed

text \<open>
  C27: a creation that fails for any reason (validation, authorization, routing, provider,
  completion) leaves the in-memory store exactly as it was, so that the key can be used again.
\<close>

theorem memory_create_failure_undone:
  assumes "mem_inv (wstore w)"
    and "Payments_Create (memory_payments rt cn keys b sha marshal) now pr inp key w = (Inl e, w')"
  shows "wstore w' = wstore w"
  using mem_payments.create_failure_undone [OF assms(2) _ _ assms(1)] by simp

theorem memory_create_failure_undone_witness:
  "\<exists>e w'. Payments_Create (memory_payments \<lparr>ro_Resolve = (\<lambda>h rq. Inl (ErrOther ''no route''))\<rparr> ex_connector [] '''' ex_sha cp_Amount)
     5 ex_principal ex_request ''key1'' ex_world = (Inl e, w') \<and> wstore w' = wstore ex_world \<and> length (wcalls w') = 1"
proof -
  let ?svc = "memory_payments \<lparr>ro_Resolve = (\<lambda>h rq. Inl (ErrOther ''no route''))\<rparr> ex_connector [] '''' ex_sha cp_Amount"
  have "\<exists>w'. Payments_Create ?svc 5 ex_principal ex_request ''key1'' ex_world =
      (Inl (ErrWrap ''resolve route: '' (ErrOther ''no route'') ''''), w') \<and> length (wcalls w') = 1"
    by (simp add: Payments_Create_def memory_store_def static_auth_def mem_BeginCreate_def ex_world_def mem_NewStore_def
        create_reserved_def io_bind_def io_on_error_def io_wrap_def ext_call_def on_store_def Let_def mem_ReleaseCreate_def)
  moreover have "mem_inv (wstore ex_world)" by (simp add: ex_world_def mem_inv_new)
  ultimately show ?thesis using memory_create_failure_undone by blast
qed

text \<open>
  C39: merchants are not kept apart in the idempotency map of the in-memory store. After a successful creation, whoever
  creates under another merchant and key whose scope string (merchant, colon, key) is the same is answered from the first
  merchant's record: with the first merchant's payment when the requests hash alike, with a conflict otherwise, and nothing
  is created.
\<close>

theorem memory_scope_collision:
  assumes "mem_inv (wstore w)"
    and "Payments_Create (memory_payments rt cn keys b sha marshal) now pr inp key w = (Inr (pay, False), w1)"
    and "static_ResolveMerchant other (cp_MerchantID inp') (wstore w1) = (Inr m', wstore w1)" and "\<not> create_invalid inp' key'"
    and "mem_scope (pay_MerchantID pay) key = mem_scope m' key'"
  shows "Payments_Create (memory_payments rt cn keys b sha marshal) later other inp' key' w1 =
    (if requestHash sha marshal inp' = requestHash sha marshal inp then Inr (pay, True) else Inl ErrConflict, w1)"
proof -
  let ?sv = "memory_payments rt cn keys b sha marshal"
  have inv: "mem_inv (wstore w1)" using mem_payments.create_keeps [OF assms(2) _ _ assms(1)] by simp
  have "\<exists>m. mem_slot (wstore w1) m key = Some (requestHash sha marshal inp, request_tx ?sv m key, True) \<and>
    mem_saved (wstore w1) m (request_tx ?sv m key) = Some pay \<and> pay_MerchantID pay = m"
  proof (rule mem_payments.create_success [OF assms(2) _ _ assms(1), of keys], goal_cases)
    case (4 m s1 route provider d)
    from 4(6) have "pay_MerchantID pay = m" by (simp only: completed_payment_def new_payment_def payment.simps)
    with 4(4,5) show ?case by auto
  qed simp_all
  then obtain m where slot: "mem_slot (wstore w1) m key = Some (requestHash sha marshal inp, request_tx ?sv m key, True)"
    and saved: "mem_saved (wstore w1) m (request_tx ?sv m key) = Some pay" and m: "pay_MerchantID pay = m" by blast
  from assms(5) slot have "mem_slot (wstore w1) m' key' = Some (requestHash sha marshal inp, request_tx ?sv m key, True)"
    by (simp add: mem_slot_def m)
  from memory_taken [OF inv assms(4,3) this] saved show ?thesis by (simp add: mem_saved_def)
qed

theorem memory_scope_collision_witness:
  "\<exists>pay w1. Payments_Create ex_service 1000000 (ex_principal\<lparr>pr_MerchantID := ''a''\<rparr>) ex_request ''b:key1'' ex_world = (Inr (pay, False), w1)
    \<and> pay_MerchantID pay = ''a''
    \<and> Payments_Create ex_service 9000000 (ex_principal\<lparr>pr_MerchantID := ''a:b''\<rparr>) ex_request ''key1'' w1 = (Inr (pay, True), w1)"
proof -
  let ?a = "ex_principal\<lparr>pr_MerchantID := ''a''\<rparr>" and ?ab = "ex_principal\<lparr>pr_MerchantID := ''a:b''\<rparr>"
  have key: "\<not> blank ''b:key1''" by (rule not_blank_visible) simp_all
  have valid: "\<not> create_invalid ex_request ''b:key1''" using key by (simp add: create_invalid_def ex_request_def)
  have who: "static_ResolveMerchant ?a (cp_MerchantID ex_request) s = (Inr ''a'', s)" for s :: mem_store
    by (simp add: static_resolve_cases ex_principal_def ex_request_def)
  have "\<exists>pay w1. Payments_Create ex_service 1000000 ?a ex_request ''b:key1'' ex_world = (Inr (pay, False), w1) \<and> pay_MerchantID pay = ''a''"
    by (simp add: Payments_Create_def valid who ex_service_def memory_store_def static_auth_def mem_BeginCreate_def
      ex_world_def mem_NewStore_def create_reserved_def io_bind_def io_on_error_def io_wrap_def ext_call_def on_store_def
      ex_router_def ex_connector_def Let_def mem_CompleteCreate_def io_simps completed_payment_def new_payment_def)
  then obtain pay w1 where run: "Payments_Create ex_service 1000000 ?a ex_request ''b:key1'' ex_world = (Inr (pay, False), w1)"
    and m: "pay_MerchantID pay = ''a''" by blast
  have inv: "mem_inv (wstore ex_world)" by (simp add: ex_world_def mem_inv_new)
  have res: "static_ResolveMerchant ?ab (cp_MerchantID ex_request) (wstore w1) = (Inr ''a:b'', wstore w1)"
    by (simp add: static_resolve_cases ex_principal_def ex_request_def)
  have same: "mem_scope (pay_MerchantID pay) ''b:key1'' = mem_scope ''a:b'' ''key1''" by (simp add: m mem_scope_def)
  from memory_scope_collision [OF inv run [unfolded ex_service_def] res ex_valid same] run m show ?thesis
    by (auto simp: ex_service_def)
qed

end
