(* ===== verification/Events_App.thy ===== *)
theory Events_App
  imports Payments_App
begin

text \<open>
  \<^verbatim>\<open>app/provider_events.go\<close>: the consumer of normalized provider events. \<^verbatim>\<open>payouts\<close> is nil
  (\<open>None\<close>) when the store does not implement \<^verbatim>\<open>core.PayoutEventStore\<close>.
\<close>

section \<open>State and operations\<close>

record 's provider_events =
  ve_store :: "'s payment_store"
  ve_payouts :: "'s payout_event_store option"
  ve_sha256 :: digest

definition payout_event_invalid :: "provider_event \<Rightarrow> bool" where
  "payout_event_invalid event \<longleftrightarrow>
     ev_EventID event = '''' \<or> ev_EventVersion event \<noteq> ''1'' \<or> ev_Provider event = '''' \<or>
     ev_ProviderConnectionID event = '''' \<or> ev_ProviderPayoutID event = '''' \<or> ev_ObservedAt event = 0"

definition payment_event_invalid :: "provider_event \<Rightarrow> bool" where
  "payment_event_invalid event \<longleftrightarrow>
     ev_EventID event = '''' \<or> ev_EventVersion event \<noteq> ''1'' \<or> ev_TransactionID event = '''' \<or>
     ev_Provider event = '''' \<or> ev_ProviderConnectionID event = '''' \<or> ev_ProviderPaymentID event = '''' \<or>
     ev_ObservedAt event = 0 \<or> \<not> has_prefix (ev_EventType event) ''payment.provider_''"

definition ProviderEvents_Handle :: "'s provider_events \<Rightarrow> provider_event \<Rightarrow> ('s, event_result) go_io" where
  "ProviderEvents_Handle s event =
     (if has_prefix (ev_EventType event) ''payout.provider_'' then
        (case ve_payouts s of
           None \<Rightarrow> io_fail ErrInvalid
         | Some payouts \<Rightarrow>
             if payout_event_invalid event then io_fail ErrInvalid
             else
               io_bind (if ev_PayoutID event = '''' then pe_ResolvePayoutProviderEvent payouts event
                        else io_return event)
                 (\<lambda>event. pe_ApplyPayoutProviderEvent payouts event
                    (deterministicUUID (ve_sha256 s) (''merchant-event:'' @ ev_EventID event))))
      else if payment_event_invalid event then io_fail ErrInvalid
      else st_ApplyProviderEvent (ve_store s) event
             (deterministicUUID (ve_sha256 s) (''merchant-event:'' @ ev_EventID event)))"

text \<open>The assertion \<^verbatim>\<open>store.(core.PayoutEventStore)\<close> succeeds for the stores that have the two methods.\<close>

definition NewProviderEvents :: "'s payment_store \<Rightarrow> 's payout_event_store option \<Rightarrow> digest \<Rightarrow> 's provider_events" where
  "NewProviderEvents store payouts sha256 = \<lparr>ve_store = store, ve_payouts = payouts, ve_sha256 = sha256\<rparr>"

text \<open>A sequence of deliveries, one after the other; errors are answered and the next one follows.\<close>

fun handle_all :: "'s provider_events \<Rightarrow> provider_event list \<Rightarrow> 's \<Rightarrow> 's" where
  "handle_all v [] s = s"
| "handle_all v (e # es) s = handle_all v es (snd (ProviderEvents_Handle v e s))"

definition consumer_of :: "'s payment_store \<Rightarrow> 's payout_event_store option \<Rightarrow> 's provider_events \<Rightarrow> bool" where
  "consumer_of st payouts v \<longleftrightarrow> ve_store v = st \<and> ve_payouts v = payouts"

text \<open>
  Events that pass the checks of the consumer and that the store can record. An event about a payout that does not name it
  is left out: it is resolved anew at each delivery.
\<close>

definition recordable :: "'s payout_event_store option \<Rightarrow> (provider_event \<Rightarrow> bool) \<Rightarrow> (provider_event \<Rightarrow> bool) \<Rightarrow> provider_event \<Rightarrow> bool" where
  "recordable payouts event_ok payout_ok e \<longleftrightarrow>
     (if has_prefix (ev_EventType e) ''payout.provider_''
      then payouts \<noteq> None \<and> \<not> payout_event_invalid e \<and> ev_PayoutID e \<noteq> '''' \<and> payout_ok e
      else \<not> payment_event_invalid e \<and> event_ok e)"

section \<open>What the contract gives the consumer\<close>

text \<open>
  Events about payouts never touch a payment and never forget a recorded event; an accepted one is recorded, and a recorded
  one is a duplicate. \<open>payout_ok e\<close> says that the store can record the event about a payout.
\<close>

locale event_service = event_store st status seen inv up event_ok same
  for st :: "'s payment_store" and status seen inv up event_ok same +
  fixes payouts :: "'s payout_event_store option" and payout_ok :: "provider_event \<Rightarrow> bool"
  assumes resolve_payout_frame: "payouts = Some pe \<Longrightarrow> inv s \<Longrightarrow> pe_ResolvePayoutProviderEvent pe e s = (rv, s') \<Longrightarrow>
      inv s' \<and> (up s \<longrightarrow> up s') \<and> status s' = status s \<and> (\<forall>i. seen s i \<longrightarrow> seen s' i)"
    and apply_payout_frame: "payouts = Some pe \<Longrightarrow> inv s \<Longrightarrow> pe_ApplyPayoutProviderEvent pe e i s = (ra, s') \<Longrightarrow>
      inv s' \<and> (up s \<longrightarrow> up s') \<and> status s' = status s \<and> (\<forall>i. seen s i \<longrightarrow> seen s' i)"
    and apply_payout_recorded: "payouts = Some pe \<Longrightarrow> inv s \<Longrightarrow> pe_ApplyPayoutProviderEvent pe e i s = (Inr x, s') \<Longrightarrow>
      seen s' (ev_EventID e) \<and> payout_ok e"
    and apply_payout_duplicate: "payouts = Some pe \<Longrightarrow> inv s \<Longrightarrow> up s \<Longrightarrow> payout_ok e \<Longrightarrow> seen s (ev_EventID e) \<Longrightarrow>
      pe_ApplyPayoutProviderEvent pe e i s = (ra, s') \<Longrightarrow> ra = Inr (zero_result\<lparr>er_Duplicate := True\<rparr>) \<and> same s s'"
begin

lemma apply_seen_mono:
  assumes "inv s" and "st_ApplyProviderEvent st e i s = (r, s')" and "seen s j"
  shows "seen s' j"
proof (cases r)
  case (Inl er)
  with assms apply_error show ?thesis by auto
next
  case (Inr x)
  have "seen s' = seen s \<or> seen s' = (seen s)(ev_EventID e := True)"
    using apply_new [OF assms(1)] apply_duplicate [OF assms(1)] assms(2) Inr by blast
  with assms(3) show ?thesis by auto
qed

lemma handle_payout_frame:
  assumes "consumer_of st payouts v" and "inv s" and "ProviderEvents_Handle v e s = (r, s')"
    and pre: "has_prefix (ev_EventType e) ''payout.provider_''"
  shows "inv s' \<and> (up s \<longrightarrow> up s') \<and> status s' = status s \<and> (\<forall>i. seen s i \<longrightarrow> seen s' i)"
proof (cases "payouts = None \<or> payout_event_invalid e")
  case True
  with assms show ?thesis
    by (auto simp: ProviderEvents_Handle_def consumer_of_def io_simps split: option.splits)
next
  case False
  then obtain pe where pe: "payouts = Some pe" and valid: "\<not> payout_event_invalid e" by auto
  let ?first = "if ev_PayoutID e = '''' then pe_ResolvePayoutProviderEvent pe e else io_return e"
  have first: "inv u \<and> (up s \<longrightarrow> up u) \<and> status u = status s \<and> (\<forall>i. seen s i \<longrightarrow> seen u i)"
    if "?first s = (rf, u)" for rf u
    using that resolve_payout_frame [OF pe assms(2)] assms(2) by (auto simp: io_simps split: if_splits)
  from assms(1,3) pre pe valid
  have "io_bind ?first (\<lambda>event. pe_ApplyPayoutProviderEvent pe event
      (deterministicUUID (ve_sha256 v) (''merchant-event:'' @ ev_EventID event))) s = (r, s')"
    by (simp add: ProviderEvents_Handle_def consumer_of_def split del: if_split)
  then show ?thesis
  proof (cases rule: io_bindE)
    case (error e')
    with first show ?thesis by blast
  next
    case (ok e' u)
    with first [OF ok(1)] apply_payout_frame [OF pe _ ok(2)] show ?thesis by simp
  qed
qed

lemma handle_frame:
  assumes "consumer_of st payouts v" and "inv s" and "ProviderEvents_Handle v e s = (r, s')"
  shows "inv s' \<and> (up s \<longrightarrow> up s') \<and> (\<forall>i. seen s i \<longrightarrow> seen s' i) \<and>
    (\<forall>t old. status s t = Some old \<longrightarrow> (\<exists>new. status s' t = Some new \<and> PaymentTransitionAllowed old new))"
proof (cases "has_prefix (ev_EventType e) ''payout.provider_''")
  case True
  from handle_payout_frame [OF assms True] show ?thesis by auto
next
  case False
  with assms show ?thesis
    by (auto simp: ProviderEvents_Handle_def consumer_of_def io_simps split: if_splits
        dest: apply_keeps apply_status_allowed intro: apply_seen_mono)
qed

lemma handle_all_path:
  assumes "consumer_of st payouts v" and "inv s" and "status s t = Some old"
  shows "\<exists>new. status (handle_all v es s) t = Some new \<and> PaymentTransitionAllowed old new"
  using assms(2,3)
proof (induction es arbitrary: s old)
  case Nil
  then show ?case by simp
next
  case (Cons e es)
  obtain r s' where run: "ProviderEvents_Handle v e s = (r, s')" by fastforce
  from handle_frame [OF assms(1) Cons.prems(1) run] Cons.prems(2)
  obtain mid where mid: "inv s'" "status s' t = Some mid" "PaymentTransitionAllowed old mid" by blast
  from Cons.IH [OF mid(1,2)] mid(3) run show ?case by (auto intro: transition_trans)
qed

text \<open>A final status survives every later sequence of events.\<close>

lemma handle_all_final:
  assumes "consumer_of st payouts v" and "inv s" and "status s t = Some old" and "final_status old"
  shows "status (handle_all v es s) t = Some old"
  using handle_all_path [OF assms(1-3)] final_absorbing [OF assms(4)] by blast

text \<open>A recorded event stays recorded.\<close>

lemma handle_all_seen:
  assumes "consumer_of st payouts v" and "inv s" and "up s" and "seen s i"
  shows "inv (handle_all v es s) \<and> up (handle_all v es s) \<and> seen (handle_all v es s) i"
  using assms(2-)
proof (induction es arbitrary: s)
  case (Cons e es)
  with handle_frame [OF assms(1), of s e] show ?case by (cases "ProviderEvents_Handle v e s") auto
qed simp

text \<open>Delivering a recorded event changes nothing.\<close>

lemma handle_recorded:
  assumes "consumer_of st payouts v" and "inv s" and "up s" and "seen s (ev_EventID e)" and ok: "recordable payouts event_ok payout_ok e"
  shows "\<exists>s'. ProviderEvents_Handle v e s = (Inr (zero_result\<lparr>er_Duplicate := True\<rparr>), s') \<and> same s s'"
proof (cases "has_prefix (ev_EventType e) ''payout.provider_''")
  case True
  then obtain pe where pe: "payouts = Some pe" and valid: "\<not> payout_event_invalid e" "ev_PayoutID e \<noteq> ''''" "payout_ok e"
    using ok by (auto simp: recordable_def)
  obtain r s' where run: "pe_ApplyPayoutProviderEvent pe e (deterministicUUID (ve_sha256 v) (''merchant-event:'' @ ev_EventID e)) s = (r, s')"
    by fastforce
  from apply_payout_duplicate [OF pe assms(2,3) valid(3) assms(4) run] run True pe valid assms(1) show ?thesis
    by (simp add: ProviderEvents_Handle_def consumer_of_def io_bind_return)
next
  case False
  then have valid: "\<not> payment_event_invalid e" "event_ok e" using ok by (simp_all add: recordable_def)
  obtain r s' where run: "st_ApplyProviderEvent st e (deterministicUUID (ve_sha256 v) (''merchant-event:'' @ ev_EventID e)) s = (r, s')"
    by fastforce
  then obtain y where "r = Inr y" using apply_duplicate_ok [OF assms(2,3) valid(2) assms(4)] by blast
  with apply_duplicate [OF assms(2,4)] run False valid assms(1) show ?thesis
    by (simp add: ProviderEvents_Handle_def consumer_of_def)
qed

text \<open>An accepted event is recorded, so delivering it again changes nothing more.\<close>

lemma handle_accepted:
  assumes "consumer_of st payouts v" and "inv s" and "ProviderEvents_Handle v e s = (Inr x, s1)"
    and named: "has_prefix (ev_EventType e) ''payout.provider_'' \<longrightarrow> ev_PayoutID e \<noteq> ''''"
  shows "seen s1 (ev_EventID e) \<and> recordable payouts event_ok payout_ok e"
proof (cases "has_prefix (ev_EventType e) ''payout.provider_''")
  case True
  then obtain pe where "payouts = Some pe" "\<not> payout_event_invalid e"
    "pe_ApplyPayoutProviderEvent pe e (deterministicUUID (ve_sha256 v) (''merchant-event:'' @ ev_EventID e)) s = (Inr x, s1)"
    using assms(1,3) named
    by (auto simp: ProviderEvents_Handle_def consumer_of_def io_simps io_bind_return split: option.splits if_splits)
  with apply_payout_recorded assms(2) True named show ?thesis by (auto simp: recordable_def)
next
  case False
  then have run: "\<not> payment_event_invalid e"
    "st_ApplyProviderEvent st e (deterministicUUID (ve_sha256 v) (''merchant-event:'' @ ev_EventID e)) s = (Inr x, s1)"
    using assms(1,3) by (auto simp: ProviderEvents_Handle_def consumer_of_def io_simps split: if_splits)
  have "seen s1 (ev_EventID e)"
    using apply_new [OF assms(2) _ run(2)] apply_duplicate [OF assms(2) _ run(2)]
    by (cases "seen s (ev_EventID e)") auto
  with apply_event_ok [OF assms(2) run(2)] run(1) False show ?thesis by (simp add: recordable_def)
qed

lemma handle_twice:
  assumes "consumer_of st payouts v" and "inv s" and "up s" and "ProviderEvents_Handle v e s = (Inr x, s1)"
    and "has_prefix (ev_EventType e) ''payout.provider_'' \<longrightarrow> ev_PayoutID e \<noteq> ''''"
  shows "\<exists>s2. ProviderEvents_Handle v e (handle_all v es s1) = (Inr (zero_result\<lparr>er_Duplicate := True\<rparr>), s2)
    \<and> same (handle_all v es s1) s2"
proof -
  note acc = handle_accepted [OF assms(1,2,4,5)]
  have "inv s1" "up s1" using handle_frame [OF assms(1,2,4)] assms(3) by auto
  with handle_all_seen [OF assms(1)] acc handle_recorded [OF assms(1)] show ?thesis by blast
qed

end

section \<open>The consumer over the in-memory store\<close>

interpretation mem_consumer: event_service memory_store mem_status mem_seen mem_inv "\<lambda>_. True" "\<lambda>_. True" "(=)" None "\<lambda>_. True"
  by unfold_locales auto

definition memory_events :: "digest \<Rightarrow> mem_store provider_events" where
  "memory_events sha256 = NewProviderEvents memory_store None sha256"

lemma memory_events_handled: "consumer_of memory_store None (memory_events sha)"
  by (simp add: consumer_of_def memory_events_def NewProviderEvents_def)

section \<open>Example\<close>

definition ex_event :: provider_event where
  "ex_event = \<lparr>ev_EventID = ''e1'', ev_EventType = ''payment.provider_pending'', ev_EventVersion = ''1'', ev_Source = '''',
     ev_OccurredAt = 1, ev_ObservedAt = 1, ev_TraceID = '''', ev_TransactionID = ''t1'', ev_RefundID = '''', ev_PayoutID = '''',
     ev_Provider = ''test'', ev_ProviderConnectionID = ''connection1'', ev_ProviderPaymentID = ''provider1'',
     ev_ProviderRefundID = '''', ev_ProviderPayoutID = '''', ev_Sequence = None,
     ev_Data = \<lparr>ed_Status = ''confirmed'', ed_RawStatus = '''', ed_Amount = '''', ed_Currency = '''',
        ed_ProviderReference = '''', ed_ProviderData = []\<rparr>\<rparr>"

definition ex_paid_store :: "string \<Rightarrow> mem_store" where
  "ex_paid_store status = \<lparr>ms_payments = [(''t1'', zero_payment\<lparr>pay_TransactionID := ''t1'', pay_Status := status\<rparr>)],
     ms_events = [], ms_keys = []\<rparr>"

text \<open>An accepted event over the in-memory store.\<close>

lemma memory_event_accepted:
  assumes "ProviderEvents_Handle (memory_events sha) e s = (Inr x, s1)"
  shows "\<not> has_prefix (ev_EventType e) ''payout.provider_''"
  using assms by (auto simp: ProviderEvents_Handle_def memory_events_def NewProviderEvents_def io_simps)

lemma ex_memory_event:
  "\<exists>s1. ProviderEvents_Handle (memory_events ex_sha) ex_event (ex_paid_store ''expired'') =
    (Inr \<lparr>er_Duplicate = False, er_Changed = True, er_Status = ''confirmed''\<rparr>, s1)"
  by (simp add: ProviderEvents_Handle_def memory_events_def NewProviderEvents_def memory_store_def mem_ApplyProviderEvent_def ex_event_def
      ex_paid_store_def payment_event_invalid_def has_prefix_def PublicStatusFromProvider_def
      PaymentTransitionAllowed_def Let_def mput_def)

lemma ex_paid_store_inv [simp]: "mem_inv (ex_paid_store st)"
  by (simp add: mem_inv_def ex_paid_store_def)

end
