(* ===== verification/Pg_Service.thy ===== *)
theory Pg_Service
  imports Pg_Payments Pg_Auth Events_App
begin

text \<open>
  The payment service over PostgreSQL: the contract's client lemmas for the pair of
  \<^verbatim>\<open>postgres.Store\<close> and \<^verbatim>\<open>postgres.Auth\<close>, as \<^verbatim>\<open>main.go\<close> wires them when a database is configured.
\<close>

section \<open>The service\<close>

definition digest_ok :: "pg_env \<Rightarrow> bool" where
  "digest_ok E \<longleftrightarrow> (\<forall>v. length (en_sha256 E v) = 32)"

definition pg_payments ::
  "pg_env \<Rightarrow> pg_auth_config \<Rightarrow> router \<Rightarrow> connector \<Rightarrow> string \<Rightarrow> (create_payment \<Rightarrow> string) \<Rightarrow> pgstate payments" where
  "pg_payments E cfg rt cn checkoutBase marshal =
     NewPayments rt cn (pg_store E) (pg_auth E cfg) checkoutBase (en_sha256 E) marshal"

lemma pg_payments_parts [simp]:
  "sv_store (pg_payments E cfg rt cn b marshal) = pg_store E"
  "sv_merchants (pg_payments E cfg rt cn b marshal) = pg_auth E cfg"
  "sv_router (pg_payments E cfg rt cn b marshal) = rt"
  "sv_connector (pg_payments E cfg rt cn b marshal) = cn"
  "sv_sha256 (pg_payments E cfg rt cn b marshal) = en_sha256 E"
  "sv_marshal (pg_payments E cfg rt cn b marshal) = marshal"
  "sv_checkoutBase (pg_payments E cfg rt cn b marshal) = trim_right b CHR ''/''"
  by (simp_all add: pg_payments_def NewPayments_def)

lemma pg_inv_merchants: "pg_inv E s \<Longrightarrow> r \<in> set (db_merchants (pg_db s)) \<Longrightarrow> mr_id r \<noteq> ''''"
  by (simp add: pg_inv_def pg_inv_db_def)

interpretation pg_service:
  payment_service "pg_store E" pg_slot pg_saved pg_reread pg_same "pg_inv E" "pg_up E" "canonical E" "pg_auth E cfg" for E cfg
proof (unfold_locales, goal_cases)
  case (1 s pr req ra s')
  then have run: "pg_ResolveMerchant E pr req s = (ra, s')" by (simp add: pg_auth_def)
  have "pg_same s s'" unfolding pg_same_def by (rule pg_ResolveMerchant_db [OF run])
  moreover from pg_inv_same [OF this] 1(1) have "pg_inv E s'" by simp
  ultimately show ?case using ticks_up [OF ticks_pg_ResolveMerchant run] by blast
next
  case (2 s pr req m s')
  then have "pg_ResolveMerchant E pr req s = (Inr m, s')" by (simp add: pg_auth_def)
  from pg_ResolveMerchant_sound [OF this] pg_inv_merchants [OF 2(1)] show ?case by metis
qed

lemma request_tx_canonical:
  assumes "digest_ok E" and "pg_inv E s"
  shows "canonical E (request_tx (pg_payments E cfg rt cn b marshal) m key)"
proof -
  have "uuid_v4 (request_tx (pg_payments E cfg rt cn b marshal) m key)"
    using assms(1) by (simp add: request_tx_def digest_ok_def deterministicUUID_v4)
  with assms(2) show ?thesis by (auto simp: pg_inv_def pg_inv_db_def uuid_laws_def)
qed

text \<open>Resolving a merchant only depends on the merchants.\<close>

lemma pg_resolve_again:
  assumes "pg_ResolveMerchant E p req s = (Inr m, s1)" and "pg_up E u" and "db_merchants (pg_db u) = db_merchants (pg_db s)"
  shows "\<exists>u1. pg_ResolveMerchant E p req u = (Inr m, u1)"
proof (cases "pr_MerchantID p \<noteq> ''''")
  case True
  with assms(1) show ?thesis by (auto simp: pg_ResolveMerchant_def io_simps split: if_splits)
next
  case none: False
  show ?thesis
  proof (cases "req \<noteq> ''''")
    case True
    have "m = req \<and> list_ex (\<lambda>r. mr_id r = req \<and> active_merchant (pr_AccountID p) r) (db_merchants (pg_db s))"
      using assms(1) none True
      by (auto simp: pg_ResolveMerchant_def io_simps split: if_splits elim!: io_bind_InrE db_queryE)
    with none True assms(2,3) show ?thesis
      by (simp add: pg_ResolveMerchant_def io_bind_def db_query_up io_simps)
  next
    case False
    have "map mr_id (take 2 (sort_key mr_created_at (filter (active_merchant (pr_AccountID p)) (db_merchants (pg_db s))))) = [m]"
      using assms(1) none False
      by (auto simp: pg_ResolveMerchant_def io_simps split: if_splits list.splits elim!: io_bind_InrE db_queryE)
    with none False assms(2,3) show ?thesis
      by (simp add: pg_ResolveMerchant_def io_bind_def db_query_up io_simps)
  qed
qed

lemma pg_taken:
  assumes "pg_inv E (wstore w)" and "pg_up E (wstore w)" and "digest_ok E" and "\<not> create_invalid inp key"
    and "pg_ResolveMerchant E pr (cp_MerchantID inp) (wstore w) = (Inr m, s1)"
    and "pg_slot (wstore w) m key = Some (h, t, c)"
  shows "\<exists>w'. Payments_Create (pg_payments E cfg rt cn b marshal) now pr inp key w =
      (if requestHash (en_sha256 E) marshal inp \<noteq> h then Inl ErrConflict
       else if \<not> c then Inl ErrInProgress else Inr (the (pg_saved (wstore w) m t), True), w')
    \<and> wcalls w' = wcalls w \<and> pg_db (wstore w') = pg_db (wstore w)"
proof -
  obtain r w' where run: "Payments_Create (pg_payments E cfg rt cn b marshal) now pr inp key w = (r, w')" by fastforce
  have res: "au_ResolveMerchant (pg_auth E cfg) pr (cp_MerchantID inp) (wstore w) = (Inr m, s1)"
    using assms(5) by (simp add: pg_auth_def)
  from pg_service.create_taken [OF _ _ assms(1,2,4) res assms(6) run request_tx_canonical [OF assms(3,1)]]
  show ?thesis using run by (auto simp: pg_same_def)
qed

text \<open>A successful creation only adds to the merchants' tables what it has to.\<close>

lemma pg_begin_merchants: "pg_BeginCreate E m k h t s = (r, s') \<Longrightarrow> db_merchants (pg_db s') = db_merchants (pg_db s)"
  by (erule pg_beginE) (auto simp: pg_same_def)

lemma pg_complete_merchants: "pg_CompleteCreate E p e k s = (r, s') \<Longrightarrow> db_merchants (pg_db s') = db_merchants (pg_db s)"
  by (erule pg_completeE) (auto simp: pg_same_def)

lemma pg_create_merchants:
  assumes "Payments_Create (pg_payments E cfg rt cn b marshal) now pr inp key w = (Inr x, w')"
  shows "db_merchants (pg_db (wstore w')) = db_merchants (pg_db (wstore w))"
  using assms
proof (cases rule: create_inversion)
  case (replayed m s1 p s2)
  then show ?thesis using pg_begin_merchants pg_ResolveMerchant_db by (auto simp: pg_store_def pg_auth_def)
next
  case (created m s1 p s2 pay)
  have "db_merchants (pg_db s2) = db_merchants (pg_db (wstore w))"
    using created pg_begin_merchants pg_ResolveMerchant_db by (auto simp: pg_store_def pg_auth_def)
  moreover have "db_merchants (pg_db (wstore w')) = db_merchants (pg_db s2)"
    using create_reserved_store [OF created(4)] pg_complete_merchants by (auto simp: pg_store_def)
  ultimately show ?thesis by simp
qed auto

text \<open>
  After a successful creation the same request is a replay of the stored payment, whatever reads and failures came in
  between, as long as the tables are as the creation left them.
\<close>

lemma pg_created_slot:
  assumes "pg_inv E (wstore w)" and "digest_ok E" and "pg_up E (wstore w)"
    and "Payments_Create (pg_payments E cfg rt cn b marshal) now pr inp key w = (Inr (pay, False), w1)"
    and "pg_db (wstore u) = pg_db (wstore w1)" and "pg_up E (wstore u)"
  shows "pg_inv E (wstore u) \<and> (\<exists>m t u1. pg_ResolveMerchant E pr (cp_MerchantID inp) (wstore u) = (Inr m, u1) \<and>
    pg_slot (wstore u) m key = Some (requestHash (en_sha256 E) marshal inp, t, True) \<and> pg_saved (wstore u) m t = Some (pg_reread pay))"
proof -
  let ?sv = "pg_payments E cfg rt cn b marshal"
  have same: "pg_same (wstore w1) (wstore u)" using assms(5) by (simp add: pg_same_def)
  have "pg_inv E (wstore w1)" using pg_service.create_keeps [OF assms(4) _ _ assms(1)] assms(3) by auto
  then have inv: "pg_inv E (wstore u)" using pg_inv_same [OF same] by simp
  from pg_service.create_success_slot [OF assms(4) _ _ assms(1) request_tx_canonical [OF assms(2,1)], of cfg]
  obtain m s1 where res: "pg_ResolveMerchant E pr (cp_MerchantID inp) (wstore w) = (Inr m, s1)"
    and slot: "pg_slot (wstore w1) m key = Some (requestHash (en_sha256 E) marshal inp, request_tx ?sv m key, True)"
    and saved: "pg_saved (wstore w1) m (request_tx ?sv m key) = Some (pg_reread pay)"
    by (auto simp: pg_auth_def)
  have "db_merchants (pg_db (wstore u)) = db_merchants (pg_db (wstore w))"
    using pg_create_merchants [OF assms(4)] assms(5) by simp
  from pg_resolve_again [OF res assms(6) this] slot saved pg_same_views [OF same] inv show ?thesis by metis
qed

lemma pg_replays:
  assumes "pg_inv E (wstore w)" and "digest_ok E" and "pg_up E (wstore w)"
    and "Payments_Create (pg_payments E cfg rt cn b marshal) now pr inp key w = (Inr (pay, False), w1)"
    and "pg_db (wstore u) = pg_db (wstore w1)" and "pg_up E (wstore u)"
  shows "\<exists>w2. Payments_Create (pg_payments E cfg rt' cn' b marshal) later pr inp key u = (Inr (pg_reread pay, True), w2)
      \<and> wcalls w2 = wcalls u \<and> pg_db (wstore w2) = pg_db (wstore w1)"
proof -
  from pg_created_slot [OF assms] obtain m t u1 where inv: "pg_inv E (wstore u)"
    and res: "pg_ResolveMerchant E pr (cp_MerchantID inp) (wstore u) = (Inr m, u1)"
    and slot: "pg_slot (wstore u) m key = Some (requestHash (en_sha256 E) marshal inp, t, True)"
    and saved: "pg_saved (wstore u) m t = Some (pg_reread pay)" by blast
  from pg_taken [OF inv assms(6,2) create_valid [OF assms(4)] res slot, of cfg rt' cn' b marshal later] saved assms(5)
  show ?thesis by auto
qed

section \<open>An example database\<close>

definition ex_pg_world :: "pgstate world" where
  "ex_pg_world = \<lparr>wstore = \<lparr>pg_db = empty_db, pg_tick = 0\<rparr>, wcalls = []\<rparr>"

definition ex_pg_service :: "router \<Rightarrow> pgstate payments" where
  "ex_pg_service rt = pg_payments ex_env (pg_NewAuth []) rt ex_connector '''' cp_Amount"

lemma ex_env_laws [simp]: "uuid_laws ex_env" "digest_ok ex_env"
  by (simp_all add: uuid_laws_def canonical_def ex_env_def digest_ok_def)

text \<open>The environment with a constant digest, which is quick to evaluate; one resource needs no other.\<close>

definition ex_flat_env :: pg_env where
  "ex_flat_env = ex_env\<lparr>en_sha256 := (\<lambda>_. replicate 32 0)\<rparr>"

lemma ex_flat_laws [simp]: "uuid_laws ex_flat_env" "digest_ok ex_flat_env"
  by (simp_all add: uuid_laws_def canonical_def ex_flat_env_def ex_env_def digest_ok_def)

lemma ex_flat_up [simp]: "pg_up ex_flat_env s"
  by (simp add: pg_up_def ex_flat_env_def ex_env_def)

lemma ex_pg_inv [simp]: "pg_inv ex_env (wstore ex_pg_world)"
  by (simp add: pg_inv_def ex_pg_world_def pg_inv_empty)

lemma ex_request_merchant [simp]: "cp_MerchantID ex_request = ''''"
  by (simp add: ex_request_def)

lemma ex_env_down [simp]: "\<not> en_down ex_env n"
  by (simp add: ex_env_def)

lemma ex_env_uuid [simp]: "en_uuid ex_env t = Some t"
  by (simp add: ex_env_def)

lemmas pg_run_simps = Payments_Create_def pg_store_def pg_auth_def pg_ResolveMerchant_def pg_BeginCreate_def
  pg_CompleteCreate_def pg_ReleaseCreate_def insert_payment_def insert_deliveries_def complete_idempotency_def
  create_reserved_def io_bind_def io_on_error_def io_wrap_def ext_call_def on_store_def db_exec_def db_tx_def db_begin_def db_commit_def
  db_call_def Let_def io_simps

definition ex_pg_run :: "(go_error + payment \<times> bool) \<times> pgstate world" where
  "ex_pg_run = Payments_Create (ex_pg_service ex_router) 1000000 ex_principal ex_request ''key1'' ex_pg_world"

lemma ex_pg_run_ok: "\<exists>pay w1. ex_pg_run = (Inr (pay, False), w1) \<and> length (wcalls w1) = 2"
  by (simp add: ex_pg_run_def pg_run_simps ex_pg_service_def ex_pg_world_def ex_router_def ex_connector_def
      ex_principal_def ex_env_down completed_payment_def new_payment_def created_event_def sql_conflict_def empty_db_def fan_out_def
      sql_count_def idem_key_def)

section \<open>Properties\<close>

text \<open>
  C5: creation is idempotent on PostgreSQL. After a successful creation, while the database
  answers, the same request under the same key returns the stored payment as a replay (the same
  payment, its dates in microseconds), and a different request of the same merchant under that
  key is a conflict; neither calls the router or the connector nor changes a table.
\<close>

theorem pg_create_idempotent:
  assumes "pg_inv E (wstore w)" and "digest_ok E" and "pg_up E (wstore w)"
    and "Payments_Create (pg_payments E cfg rt cn b marshal) now pr inp key w = (Inr (pay, False), w1)"
  shows "(\<exists>w2. Payments_Create (pg_payments E cfg rt cn b marshal) later pr inp key w1 = (Inr (pg_reread pay, True), w2)
      \<and> wcalls w2 = wcalls w1 \<and> pg_db (wstore w2) = pg_db (wstore w1))
    \<and> (\<forall>other. \<not> create_invalid other key \<longrightarrow> cp_MerchantID other = cp_MerchantID inp \<longrightarrow>
        requestHash (en_sha256 E) marshal other \<noteq> requestHash (en_sha256 E) marshal inp \<longrightarrow>
        (\<exists>w2. Payments_Create (pg_payments E cfg rt cn b marshal) later pr other key w1 = (Inl ErrConflict, w2)
          \<and> wcalls w2 = wcalls w1 \<and> pg_db (wstore w2) = pg_db (wstore w1)))"
proof -
  let ?sv = "pg_payments E cfg rt cn b marshal"
  have up: "pg_up E (wstore w1)" using pg_service.create_keeps [OF assms(4) _ _ assms(1)] assms(3) by auto
  from pg_created_slot [OF assms refl up] obtain m t u1 where inv: "pg_inv E (wstore w1)"
    and res1: "pg_ResolveMerchant E pr (cp_MerchantID inp) (wstore w1) = (Inr m, u1)"
    and slot: "pg_slot (wstore w1) m key = Some (requestHash (en_sha256 E) marshal inp, t, True)" by blast
  have same: "\<exists>w2. Payments_Create ?sv later pr inp key w1 = (Inr (pg_reread pay, True), w2)
      \<and> wcalls w2 = wcalls w1 \<and> pg_db (wstore w2) = pg_db (wstore w1)"
    by (rule pg_replays [OF assms refl up])
  have "\<exists>w2. Payments_Create ?sv later pr other key w1 = (Inl ErrConflict, w2)
      \<and> wcalls w2 = wcalls w1 \<and> pg_db (wstore w2) = pg_db (wstore w1)"
    if "\<not> create_invalid other key" "cp_MerchantID other = cp_MerchantID inp"
      "requestHash (en_sha256 E) marshal other \<noteq> requestHash (en_sha256 E) marshal inp" for other
    using pg_taken [OF inv up assms(2) that(1) _ slot, of pr u1 cfg rt cn b marshal later] res1 that by auto
  with same show ?thesis by blast
qed

theorem pg_create_idempotent_witness:
  "\<exists>pay w1 w2. Payments_Create (ex_pg_service ex_router) 1000000 ex_principal ex_request ''key1'' ex_pg_world = (Inr (pay, False), w1)
    \<and> Payments_Create (ex_pg_service ex_router) 9000000 ex_principal ex_request ''key1'' w1 = (Inr (pg_reread pay, True), w2)
    \<and> wcalls w2 = wcalls w1"
proof -
  obtain pay w1 where run: "ex_pg_run = (Inr (pay, False), w1)" using ex_pg_run_ok by blast
  from pg_create_idempotent [OF ex_pg_inv ex_env_laws(2) ex_env_up run [unfolded ex_pg_run_def ex_pg_service_def], of 9000000]
  show ?thesis using run unfolding ex_pg_run_def ex_pg_service_def by blast
qed

text \<open>
  C17: a creation that fails for any reason while the database answers leaves every table of
  PostgreSQL exactly as it was, the reservation of the key included.
\<close>

theorem pg_create_failure_undone:
  assumes "pg_inv E (wstore w)" and "pg_up E (wstore w)"
    and "Payments_Create (pg_payments E cfg rt cn b marshal) now pr inp key w = (Inl e, w')"
  shows "pg_db (wstore w') = pg_db (wstore w)"
  using pg_service.create_failure_undone [OF assms(3) _ _ assms(1,2)] by (simp add: pg_same_def)

theorem pg_create_failure_undone_witness:
  "\<exists>e w'. Payments_Create (ex_pg_service \<lparr>ro_Resolve = (\<lambda>h rq. Inl (ErrOther ''no route''))\<rparr>) 5 ex_principal ex_request ''key1''
      ex_pg_world = (Inl e, w') \<and> pg_db (wstore w') = empty_db \<and> length (wcalls w') = 1"
proof -
  let ?svc = "pg_payments ex_env (pg_NewAuth []) \<lparr>ro_Resolve = (\<lambda>h rq. Inl (ErrOther ''no route''))\<rparr> ex_connector '''' cp_Amount"
  have "\<exists>w'. Payments_Create ?svc 5 ex_principal ex_request ''key1'' ex_pg_world =
      (Inl (ErrWrap ''resolve route: '' (ErrOther ''no route'') ''''), w') \<and> length (wcalls w') = 1"
    by (simp add: pg_run_simps ex_pg_world_def ex_principal_def ex_env_down sql_conflict_def empty_db_def)
  moreover have "pg_db (wstore ex_pg_world) = empty_db" by (simp add: ex_pg_world_def)
  ultimately show ?thesis
    using pg_create_failure_undone [OF ex_pg_inv ex_env_up] unfolding ex_pg_service_def by metis
qed

end
