(* ===== verification/Pg_Payouts.thy ===== *)
theory Pg_Payouts
  imports Pg_Payments
begin

text \<open>
  \<^verbatim>\<open>adapters/postgres/payouts.go\<close>: the PostgreSQL payout store. The operational status of a row
  drives the worker; the public status is a function of it.
\<close>

section \<open>Rows and payouts\<close>

definition publicPayoutStatus :: "string \<Rightarrow> string" where
  "publicPayoutStatus v =
     (if v = ''confirmed'' then ''confirmed''
      else if v = ''pending_compensation_reversed'' then ''confirmed''
      else if v = ''failed'' then ''failed''
      else if v = ''cancelled'' then ''cancelled''
      else if v = ''reversed'' then ''reversed''
      else ''processing'')"

definition payoutOperationalTransitionAllowed :: "string \<Rightarrow> string \<Rightarrow> bool" where
  "payoutOperationalTransitionAllowed current to =
     (if current = to then False
      else if current = ''pending_debit'' then to = ''pending_provider'' \<or> to = ''failed''
      else if current = ''pending_provider'' \<or> current = ''provider_unknown'' \<or> current = ''processing'' then
        to = ''processing'' \<or> to = ''confirmed'' \<or> to = ''pending_compensation'' \<or> to = ''pending_compensation_cancelled''
      else if current = ''confirmed'' then to = ''pending_compensation_reversed''
      else if current = ''pending_compensation'' then to = ''failed''
      else if current = ''pending_compensation_cancelled'' then to = ''cancelled''
      else if current = ''pending_compensation_reversed'' then to = ''reversed''
      else False)"

definition scanPayout :: "payout_row \<Rightarrow> payout" where
  "scanPayout r =
     \<lparr>po_PayoutID = pu_payout_id r, po_ExternalID = pu_external_id r,
      po_Source = \<lparr>mo_Amount = pu_source_amount r, mo_Currency = pu_source_currency r\<rparr>,
      po_Destination = pu_destination r, po_Pricing = pu_pricing r, po_Remitter = pu_remitter r,
      po_Description = coalesce (pu_description r), po_Status = publicPayoutStatus (pu_status r),
      po_BankSystemTrxID = coalesce (pu_provider_reference r), po_CreationDate = pu_creation_date r,
      po_ConfirmationDate = pu_confirmation_date r, po_FailureDate = pu_failure_date r,
      po_CancellationDate = pu_cancellation_date r, po_ReversalDate = pu_reversal_date r,
      po_Failure = (if pu_status r = ''failed'' \<and> coalesce (pu_last_error r) \<noteq> ''''
        then [(''code'', JStr ''payout_failed''), (''message'', JStr (coalesce (pu_last_error r))), (''retryable'', JBool False)]
        else []),
      po_Metadata = pu_metadata r, po_AccountID = pu_account_id r, po_MerchantID = pu_merchant_id r,
      po_ProviderPayoutID = coalesce (pu_provider_payout_id r), po_Route = pu_route_decision r,
      po_BalanceDebited = pu_balance_debited r, po_ProviderSubmitted = pu_provider_submitted r,
      po_ResourceVersion = pu_resource_version r, po_NextAttemptAt = pu_next_attempt_at r,
      po_OperationalStatus = pu_status r\<rparr>"

text \<open>\<^verbatim>\<open>scanPayout(QueryRow(payoutSelect + WHERE payout_id=$1 AND ...))\<close> for a condition on the row.\<close>

definition select_payout :: "pg_env \<Rightarrow> string \<Rightarrow> (payout_row \<Rightarrow> bool) \<Rightarrow> (pgstate, payout) go_io" where
  "select_payout E i visible = db_query E (\<lambda>db.
     case en_uuid E i of
       None \<Rightarrow> Inl db_error
     | Some u \<Rightarrow>
         (case find (\<lambda>r. pu_payout_id r = u \<and> visible r) (db_payouts db) of
            None \<Rightarrow> Inl ErrNotFound
          | Some r \<Rightarrow> Inr (scanPayout r)))"

definition pg_GetPayout :: "pg_env \<Rightarrow> principal \<Rightarrow> string \<Rightarrow> (pgstate, payout) go_io" where
  "pg_GetPayout E p i =
     select_payout E i (\<lambda>r. scope (pr_MerchantID p) (pr_AccountID p) (pu_merchant_id r) (pu_account_id r))"

section \<open>Creating a payout\<close>

definition pg_BeginPayout ::
  "pg_env \<Rightarrow> principal \<Rightarrow> string \<Rightarrow> string \<Rightarrow> string \<Rightarrow> (pgstate, payout \<times> bool) go_io" where
  "pg_BeginPayout E prin key hash i =
     io_bind (db_exec E (\<lambda>db.
         case en_uuid E i of
           None \<Rightarrow> Inl db_error
         | Some u \<Rightarrow>
             if sql_conflict idem_key (pr_MerchantID prin, key) (db_payout_idempotency db) then Inr (0, db)
             else Inr (1, db\<lparr>db_payout_idempotency := db_payout_idempotency db @
                [\<lparr>ix_merchant_id = pr_MerchantID prin, ix_idempotency_key = key, ix_request_hash = hash,
                  ix_resource_id = u, ix_status = ''pending''\<rparr>]\<rparr>)))
       (\<lambda>affected.
         if affected = (1 :: nat) then io_return (zero_payout, False)
         else
           io_bind (db_query E (\<lambda>db.
               case find (\<lambda>r. idem_key r = (pr_MerchantID prin, key)) (db_payout_idempotency db) of
                 None \<Rightarrow> Inl no_rows
               | Some r \<Rightarrow> Inr (ix_request_hash r, ix_resource_id r, ix_status r)))
             (\<lambda>(storedHash, storedID, status).
               if storedHash \<noteq> hash then io_fail ErrConflict
               else if status \<noteq> ''complete'' then io_fail ErrInProgress
               else io_bind (pg_GetPayout E prin storedID) (\<lambda>p. io_return (p, True))))"

definition pg_ReleasePayout :: "pg_env \<Rightarrow> string \<Rightarrow> string \<Rightarrow> (pgstate, unit) go_io" where
  "pg_ReleasePayout E merchantID key = db_exec E (\<lambda>db.
     Inr ((), db\<lparr>db_payout_idempotency :=
       sql_delete (\<lambda>r. idem_key r = (merchantID, key) \<and> ix_status r = ''pending'') (db_payout_idempotency db)\<rparr>))"

definition new_payout_row ::
  "time \<Rightarrow> string \<Rightarrow> principal \<Rightarrow> string \<Rightarrow> string \<Rightarrow> create_payout \<Rightarrow> route_decision \<Rightarrow> payout_row" where
  "new_payout_row now u prin key hash inp route =
     \<lparr>pu_payout_id = u, pu_account_id = pr_AccountID prin, pu_merchant_id = pr_MerchantID prin,
      pu_external_id = cpo_ExternalID inp, pu_idempotency_key = key, pu_request_hash = hash,
      pu_status = ''pending_debit'', pu_source_amount = mo_Amount (cpo_Source inp),
      pu_source_currency = mo_Currency (cpo_Source inp), pu_destination = cpo_Destination inp, pu_pricing = [],
      pu_remitter = cpo_Remitter inp, pu_description = nullif (cpo_Description inp), pu_metadata = cpo_Metadata inp,
      pu_provider_payout_id = None, pu_provider_reference = None, pu_provider_status = None,
      pu_route_decision = route, pu_balance_debited = False, pu_provider_submitted = False,
      pu_resource_version = 1, pu_attempt_count = 0, pu_next_attempt_at = now, pu_last_error = None,
      pu_creation_date = now, pu_confirmation_date = None, pu_failure_date = None,
      pu_cancellation_date = None, pu_reversal_date = None\<rparr>"

text \<open>\<^verbatim>\<open>INSERT ... SELECT ... FROM dinapay_v2_payout_idempotency\<close>: nothing is inserted without a reservation.\<close>

definition insert_payout ::
  "pg_env \<Rightarrow> time \<Rightarrow> principal \<Rightarrow> string \<Rightarrow> string \<Rightarrow> create_payout \<Rightarrow> route_decision \<Rightarrow> (pgstate, nat) go_io" where
  "insert_payout E now prin key i inp route = db_exec E (\<lambda>db.
     case en_uuid E i of
       None \<Rightarrow> Inl db_error
     | Some u \<Rightarrow>
         (case find (completion_hit (pr_MerchantID prin) key u) (db_payout_idempotency db) of
            None \<Rightarrow> Inr (0, db)
          | Some r \<Rightarrow>
              if sql_conflict pu_payout_id u (db_payouts db) \<or>
                 sql_conflict (\<lambda>q. (pu_merchant_id q, pu_idempotency_key q)) (pr_MerchantID prin, key) (db_payouts db)
              then Inl db_error
              else Inr (1, db\<lparr>db_payouts := db_payouts db @ [new_payout_row now u prin key (ix_request_hash r) inp route]\<rparr>)))"

definition created_payout :: "time \<Rightarrow> principal \<Rightarrow> string \<Rightarrow> create_payout \<Rightarrow> route_decision \<Rightarrow> payout" where
  "created_payout wall prin i inp route =
     \<lparr>po_PayoutID = i, po_ExternalID = cpo_ExternalID inp, po_Source = cpo_Source inp,
      po_Destination = cpo_Destination inp, po_Pricing = [], po_Remitter = cpo_Remitter inp,
      po_Description = cpo_Description inp, po_Status = ''processing'', po_BankSystemTrxID = '''',
      po_CreationDate = wall, po_ConfirmationDate = None, po_FailureDate = None, po_CancellationDate = None,
      po_ReversalDate = None, po_Failure = [], po_Metadata = cpo_Metadata inp, po_AccountID = pr_AccountID prin,
      po_MerchantID = pr_MerchantID prin, po_ProviderPayoutID = '''', po_Route = route, po_BalanceDebited = False,
      po_ProviderSubmitted = False, po_ResourceVersion = 1, po_NextAttemptAt = 0, po_OperationalStatus = ''pending_debit''\<rparr>"

definition payout_created_payload :: "pg_env \<Rightarrow> payout \<Rightarrow> event_payload" where
  "payout_created_payload E p =
     \<lparr>ep_eventId = deterministicID (en_sha256 E) (''payout.created:'' @ po_PayoutID p), ep_eventType = ''payout.created'',
      ep_apiVersion = ''2'', ep_merchantId = po_MerchantID p, ep_creationDate = po_CreationDate p, ep_resourceVersion = 1,
      ep_previousStatus = None, ep_object = ResPayout p\<rparr>"

definition complete_payout_idempotency :: "pg_env \<Rightarrow> string \<Rightarrow> string \<Rightarrow> string \<Rightarrow> (pgstate, nat) go_io" where
  "complete_payout_idempotency E merchantID key i = db_exec E (\<lambda>db.
     case en_uuid E i of
       None \<Rightarrow> Inl db_error
     | Some u \<Rightarrow>
         Inr (sql_count (completion_hit merchantID key u) (db_payout_idempotency db),
              db\<lparr>db_payout_idempotency := sql_update (completion_hit merchantID key u)
                 (\<lambda>r. r\<lparr>ix_status := ''complete''\<rparr>) (db_payout_idempotency db)\<rparr>))"

definition pg_CompletePayout ::
  "pg_env \<Rightarrow> principal \<Rightarrow> string \<Rightarrow> string \<Rightarrow> create_payout \<Rightarrow> route_decision \<Rightarrow> (pgstate, payout) go_io" where
  "pg_CompletePayout E prin key i inp route =
     db_tx E (\<lambda>now.
       io_bind (insert_payout E now prin key i inp route) (\<lambda>inserted.
       if inserted \<noteq> 1 then io_fail ErrConflict
       else
       io_bind (nowUTC E) (\<lambda>wall.
       let p = created_payout wall prin i inp route;
           payload = payout_created_payload E p
       in io_bind (insert_deliveries E now (po_MerchantID p) (po_AccountID p) (ep_eventId payload) ''payout.created'' (Some payload)) (\<lambda>_.
       io_bind (complete_payout_idempotency E (pr_MerchantID prin) key i) (\<lambda>affected.
         if affected \<noteq> 1 then io_fail ErrConflict else io_return p)))))"
section \<open>Listing and claiming\<close>

definition payout_before :: "payout_row \<Rightarrow> payout_row \<Rightarrow> bool" where
  "payout_before p q \<longleftrightarrow> pu_creation_date p > pu_creation_date q \<or>
     (pu_creation_date p = pu_creation_date q \<and> pu_payout_id p > pu_payout_id q)"

definition payout_limit :: "int \<Rightarrow> int" where
  "payout_limit n = (if n < 1 \<or> n > 100 then 50 else n)"

text \<open>The cursor of the options is not used; the next one is the last identifier.\<close>

definition pg_ListPayouts :: "pg_env \<Rightarrow> principal \<Rightarrow> payout_list_options \<Rightarrow> (pgstate, payout_page) go_io" where
  "pg_ListPayouts E p options =
     (let limit = nat (payout_limit (polo_Limit options)) in
      db_query E (\<lambda>db.
        let rows = take (limit + 1) (sort_by payout_before
              (filter (\<lambda>r. scope (pr_MerchantID p) (pr_AccountID p) (pu_merchant_id r) (pu_account_id r) \<and>
                 (polo_ExternalID options = '''' \<or> pu_external_id r = polo_ExternalID options) \<and>
                 (polo_Status options = '''' \<or> pu_status r = polo_Status options)) (db_payouts db)));
            items = map scanPayout rows
        in Inr (if limit < length items
             then \<lparr>pop_Data = take limit items, pop_HasMore = True, pop_NextCursor = po_PayoutID (last (take limit items))\<rparr>
             else \<lparr>pop_Data = items, pop_HasMore = False, pop_NextCursor = ''''\<rparr>)))"

definition payout_work :: "string list" where
  "payout_work = [''pending_debit'', ''pending_provider'', ''provider_unknown'', ''processing'', ''pending_compensation'',
     ''pending_compensation_cancelled'', ''pending_compensation_reversed'']"

definition claimable_payout :: "time \<Rightarrow> payout_row \<Rightarrow> bool" where
  "claimable_payout now r \<longleftrightarrow> pu_status r \<in> set payout_work \<and> pu_next_attempt_at r \<le> now"

definition claim_payout_rows :: "pg_env \<Rightarrow> nat \<Rightarrow> (pgstate, string list) go_io" where
  "claim_payout_rows E limit = db_call E (\<lambda>now db.
     let ids = map pu_payout_id (take limit (sort_key pu_creation_date (filter (claimable_payout now) (db_payouts db))));
         hit = (\<lambda>r. pu_payout_id r \<in> set ids)
     in Inr (map pu_payout_id (filter hit (db_payouts db)),
          db\<lparr>db_payouts := sql_update hit (\<lambda>r. r\<lparr>pu_next_attempt_at := now + minute_ns,
             pu_attempt_count := pu_attempt_count r + 1\<rparr>) (db_payouts db)\<rparr>))"

fun select_payouts :: "pg_env \<Rightarrow> string list \<Rightarrow> (pgstate, payout list) go_io" where
  "select_payouts E [] = io_return []"
| "select_payouts E (i # is) =
     io_bind (select_payout E i (\<lambda>_. True)) (\<lambda>p. io_bind (select_payouts E is) (\<lambda>ps. io_return (p # ps)))"

definition pg_ClaimPayouts :: "pg_env \<Rightarrow> int \<Rightarrow> (pgstate, payout list) go_io" where
  "pg_ClaimPayouts E limit = io_bind (claim_payout_rows E (nat limit)) (select_payouts E)"

section \<open>Transitions\<close>

text \<open>The row after the \<^verbatim>\<open>UPDATE\<close> of a transition with the fields \<open>f\<close>.\<close>

definition transitioned_row :: "time \<Rightarrow> string \<Rightarrow> jmap \<Rightarrow> payout_row \<Rightarrow> payout_row" where
  "transitioned_row now nx f r = r
     \<lparr>pu_status := nx,
      pu_provider_payout_id := keep_unless (as_string (mget f ''providerPayoutId'')) (pu_provider_payout_id r),
      pu_provider_reference := keep_unless (as_string (mget f ''providerReference'')) (pu_provider_reference r),
      pu_provider_status := keep_unless (as_string (mget f ''providerStatus'')) (pu_provider_status r),
      pu_last_error := nullif (as_string (mget f ''lastError'')),
      pu_balance_debited := pu_balance_debited r \<or> as_bool (mget f ''balanceDebited''),
      pu_provider_submitted := pu_provider_submitted r \<or> as_bool (mget f ''providerSubmitted''),
      pu_destination := (if as_string (mget f ''destinationAmount'') = '''' then pu_destination r
        else (pu_destination r)\<lparr>de_Amount := as_string (mget f ''destinationAmount'')\<rparr>),
      pu_resource_version := pu_resource_version r + 1,
      pu_next_attempt_at := now,
      pu_confirmation_date := (if nx = ''confirmed'' then Some now else pu_confirmation_date r),
      pu_failure_date := (if nx = ''failed'' then Some now else pu_failure_date r),
      pu_cancellation_date := (if nx = ''cancelled'' then Some now else pu_cancellation_date r),
      pu_reversal_date := (if nx = ''reversed'' then Some now else pu_reversal_date r)\<rparr>"

definition update_payout :: "pg_env \<Rightarrow> time \<Rightarrow> string \<Rightarrow> string \<Rightarrow> jmap \<Rightarrow> (pgstate, nat) go_io" where
  "update_payout E now i nx f = db_exec E (\<lambda>db.
     case en_uuid E i of
       None \<Rightarrow> Inl db_error
     | Some u \<Rightarrow>
         let hit = (\<lambda>r. pu_payout_id r = u \<and> pu_status r = as_string (mget f ''expectedStatus''))
         in if list_ex (\<lambda>r. hit r \<and> bigint_succ (pu_resource_version r) = None) (db_payouts db) then Inl db_error
            else Inr (sql_count hit (db_payouts db),
                   db\<lparr>db_payouts := sql_update hit (transitioned_row now nx f) (db_payouts db)\<rparr>))"

definition payout_changed_payload :: "pg_env \<Rightarrow> time \<Rightarrow> string \<Rightarrow> string \<Rightarrow> string \<Rightarrow> payout \<Rightarrow> event_payload" where
  "payout_changed_payload E wall i nx expected p =
     \<lparr>ep_eventId = deterministicID (en_sha256 E) (''payout.status_changed:'' @ i @ '':'' @ nx),
      ep_eventType = ''payout.status_changed'', ep_apiVersion = ''2'', ep_merchantId = po_MerchantID p,
      ep_creationDate = wall, ep_resourceVersion = po_ResourceVersion p,
      ep_previousStatus = Some (publicPayoutStatus expected), ep_object = ResPayout p\<rparr>"

definition transition_tx :: "pg_env \<Rightarrow> string \<Rightarrow> string \<Rightarrow> jmap \<Rightarrow> time \<Rightarrow> (pgstate, payout) go_io" where
  "transition_tx E i nx f now =
     (let expected = as_string (mget f ''expectedStatus'') in
      io_bind (update_payout E now i nx f) (\<lambda>affected.
      if affected \<noteq> 1 then io_fail ErrConflict
      else
      io_bind (select_payout E i (\<lambda>_. True)) (\<lambda>p.
      if publicPayoutStatus expected = po_Status p then io_return p
      else
      io_bind (nowUTC E) (\<lambda>wall.
      let payload = payout_changed_payload E wall i nx expected p
      in io_bind (insert_deliveries E now (po_MerchantID p) (po_AccountID p) (ep_eventId payload)
             ''payout.status_changed'' (Some payload)) (\<lambda>_. io_return p)))))"

definition pg_TransitionPayout :: "pg_env \<Rightarrow> string \<Rightarrow> string \<Rightarrow> jmap \<Rightarrow> (pgstate, payout) go_io" where
  "pg_TransitionPayout E i nx f = db_tx E (transition_tx E i nx f)"

section \<open>Provider events about payouts\<close>

definition record_payout_event :: "pg_env \<Rightarrow> provider_event \<Rightarrow> (pgstate, nat) go_io" where
  "record_payout_event E event = db_exec E (\<lambda>db.
     case en_uuid E (ev_PayoutID event) of
       None \<Rightarrow> Inl db_error
     | Some u \<Rightarrow>
         if sql_conflict pv_event_id (ev_EventID event) (db_provider_events db) then Inr (0, db)
         else Inr (1, db\<lparr>db_provider_events := db_provider_events db @
            [\<lparr>pv_event_id = ev_EventID event, pv_event_type = ev_EventType event, pv_transaction_id = None,
              pv_payout_id = Some u, pv_provider = ev_Provider event, pv_source = ev_Source event,
              pv_payload = event, pv_changed_state = False\<rparr>]\<rparr>))"

definition forget_event :: "pg_env \<Rightarrow> string \<Rightarrow> (pgstate, unit) go_io" where
  "forget_event E eventID = db_exec E (\<lambda>db.
     Inr ((), db\<lparr>db_provider_events := sql_delete (\<lambda>r. pv_event_id r = eventID) (db_provider_events db)\<rparr>))"

definition payout_next_status :: "string \<Rightarrow> string" where
  "payout_next_status status =
     (if status = ''confirmed'' then ''confirmed''
      else if status = ''failed'' \<or> status = ''rejected'' then ''pending_compensation''
      else if status = ''cancelled'' then ''pending_compensation_cancelled''
      else if status = ''reversed'' then ''pending_compensation_reversed''
      else ''processing'')"

definition payout_event_mismatch :: "payout \<Rightarrow> provider_event \<Rightarrow> bool" where
  "payout_event_mismatch p event \<longleftrightarrow>
     rd_Provider (po_Route p) \<noteq> ev_Provider event \<or>
     rd_ProviderConnectionID (po_Route p) \<noteq> ev_ProviderConnectionID event \<or>
     (po_ProviderPayoutID p \<noteq> '''' \<and> po_ProviderPayoutID p \<noteq> ev_ProviderPayoutID event)"

definition payout_event_fields :: "provider_event \<Rightarrow> payout \<Rightarrow> jmap" where
  "payout_event_fields event p =
     [(''expectedStatus'', JStr (po_OperationalStatus p)), (''providerSubmitted'', JBool True),
      (''providerPayoutId'', JStr (ev_ProviderPayoutID event)),
      (''providerReference'', JStr (ed_ProviderReference (ev_Data event))),
      (''providerStatus'', JStr (ed_RawStatus (ev_Data event)))]"

text \<open>The part of \<^verbatim>\<open>ApplyPayoutProviderEvent\<close> whose errors delete the recorded event again.\<close>

definition check_payout_event :: "pg_env \<Rightarrow> provider_event \<Rightarrow> (pgstate, payout) go_io" where
  "check_payout_event E event =
     io_bind (select_payout E (ev_PayoutID event) (\<lambda>_. True)) (\<lambda>p.
       if payout_event_mismatch p event then io_fail ErrConflict else io_return p)"

definition pg_ApplyPayoutProviderEvent :: "pg_env \<Rightarrow> provider_event \<Rightarrow> string \<Rightarrow> (pgstate, event_result) go_io" where
  "pg_ApplyPayoutProviderEvent E event merchantEventID =
     io_bind (record_payout_event E event) (\<lambda>affected.
     if affected = 0 then io_return (zero_result\<lparr>er_Duplicate := True\<rparr>)
     else
     io_bind (io_on_error (check_payout_event E event) (forget_event E (ev_EventID event))) (\<lambda>p.
     let nx = payout_next_status (ed_Status (ev_Data event)) in
     if \<not> payoutOperationalTransitionAllowed (po_OperationalStatus p) nx then io_return (zero_result\<lparr>er_Status := po_Status p\<rparr>)
     else if nx = po_OperationalStatus p then io_return (zero_result\<lparr>er_Status := po_Status p\<rparr>)
     else
     io_bind (io_on_error (pg_TransitionPayout E (po_PayoutID p) nx (payout_event_fields event p))
         (forget_event E (ev_EventID event))) (\<lambda>updated.
     io_bind (io_ignore (mark_changed E (ev_EventID event))) (\<lambda>_.
       io_return \<lparr>er_Duplicate = False, er_Changed = (po_Status updated \<noteq> po_Status p), er_Status = po_Status updated\<rparr>))))"

definition drop_dashes :: "string \<Rightarrow> string" where
  "drop_dashes s = filter (\<lambda>c. c \<noteq> CHR ''-'') s"

text \<open>\<^verbatim>\<open>->>\<close>: the text of a JSON member, \<open>None\<close> (\<^verbatim>\<open>NULL\<close>) when it is missing or null.\<close>

definition json_member_text :: "pg_env \<Rightarrow> jmap \<Rightarrow> string \<Rightarrow> string option" where
  "json_member_text E m k =
     (case mget m k of
        None \<Rightarrow> None | Some JNull \<Rightarrow> None
      | Some (JStr s) \<Rightarrow> Some s | Some (JNum n) \<Rightarrow> Some n
      | Some (JBool b) \<Rightarrow> Some (if b then ''true'' else ''false'')
      | Some v \<Rightarrow> Some (en_json_text E v))"

definition unresolved_match :: "pg_env \<Rightarrow> time \<Rightarrow> provider_event \<Rightarrow> string \<Rightarrow> payout_row \<Rightarrow> bool" where
  "unresolved_match E now event document r \<longleftrightarrow>
     pu_status r = ''provider_unknown'' \<and> rd_Provider (pu_route_decision r) = ev_Provider event \<and>
     rd_ProviderConnectionID (pu_route_decision r) = ev_ProviderConnectionID event \<and>
     (case json_member_text E (de_Beneficiary (pu_destination r)) ''documentNumber'' of
        None \<Rightarrow> False | Some d \<Rightarrow> en_upper E (drop_dashes d) = en_upper E (drop_dashes document)) \<and>
     pu_creation_date r \<ge> now - 48 * 60 * minute_ns"

definition pg_ResolvePayoutProviderEvent :: "pg_env \<Rightarrow> provider_event \<Rightarrow> (pgstate, provider_event) go_io" where
  "pg_ResolvePayoutProviderEvent E event =
     (let document = as_string (mget (ed_ProviderData (ev_Data event)) ''beneficiaryDocument'');
          amount = (if ed_Amount (ev_Data event) = '''' then as_string (mget (ed_ProviderData (ev_Data event)) ''sourceAmount'')
                    else ed_Amount (ev_Data event))
      in if document = '''' \<or> amount = '''' then io_fail ErrNotFound
         else
         io_bind (db_call E (\<lambda>now db.
             let rows = filter (unresolved_match E now event document) (db_payouts db) in
             if en_numeric E amount = None \<or> list_ex (\<lambda>r. en_numeric E (pu_source_amount r) = None) rows then Inl db_error
             else Inr (map pu_payout_id (take 2 (rev (sort_key pu_creation_date
                   (filter (\<lambda>r. en_numeric E (pu_source_amount r) = en_numeric E amount) rows)))), db)))
           (\<lambda>ids. case ids of
              [] \<Rightarrow> io_fail ErrNotFound
            | [i] \<Rightarrow> io_return (event\<lparr>ev_PayoutID := i\<rparr>)
            | _ \<Rightarrow> io_fail ErrConflict))"

definition pg_payout_store :: "pg_env \<Rightarrow> pgstate payout_store" where
  "pg_payout_store E = \<lparr>ps_BeginPayout = pg_BeginPayout E, ps_CompletePayout = pg_CompletePayout E,
     ps_ReleasePayout = pg_ReleasePayout E, ps_GetPayout = pg_GetPayout E, ps_ListPayouts = pg_ListPayouts E,
     ps_ClaimPayouts = pg_ClaimPayouts E, ps_TransitionPayout = pg_TransitionPayout E\<rparr>"

definition pg_payout_event_store :: "pg_env \<Rightarrow> pgstate payout_event_store" where
  "pg_payout_event_store E = \<lparr>pe_ResolvePayoutProviderEvent = pg_ResolvePayoutProviderEvent E,
     pe_ApplyPayoutProviderEvent = pg_ApplyPayoutProviderEvent E\<rparr>"

section \<open>What the operations do to the tables\<close>

definition payout_ids_ok :: "pg_env \<Rightarrow> pgdb \<Rightarrow> bool" where
  "payout_ids_ok E db \<longleftrightarrow> uuid_laws E \<and> distinct (map pu_payout_id (db_payouts db)) \<and>
     list_all (canonical E) (map pu_payout_id (db_payouts db))"

lemma payout_ids_ok_frame: "db_payouts db' = db_payouts db \<Longrightarrow> payout_ids_ok E db' = payout_ids_ok E db"
  by (simp add: payout_ids_ok_def)

lemma payout_ids_ok_update:
  "(\<And>r. pu_payout_id (g r) = pu_payout_id r) \<Longrightarrow> db_payouts db' = sql_update P g (db_payouts db) \<Longrightarrow>
   payout_ids_ok E db' = payout_ids_ok E db"
  by (simp add: payout_ids_ok_def map_sql_update)

lemma transitioned_row_id [simp]: "pu_payout_id (transitioned_row now nx f r) = pu_payout_id r"
  by (simp add: transitioned_row_def)

lemma ticks_select_payout [simp, intro]: "ticks (select_payout E i P)"
  by (simp add: select_payout_def)

lemma ticks_pg_GetPayout [simp, intro]: "ticks (pg_GetPayout E p i)"
  by (simp add: pg_GetPayout_def)

lemma ticks_transition_tx [simp, intro]: "ticks (transition_tx E i nx f now)"
  unfolding transition_tx_def update_payout_def Let_def
  by (intro ticks_bind ticks_db_exec) (auto intro!: ticks_bind)

lemma ticks_pg_TransitionPayout [simp, intro]: "ticks (pg_TransitionPayout E i nx f)"
  by (auto simp: pg_TransitionPayout_def)

lemma select_payout_db: "select_payout E i P s = (r, s') \<Longrightarrow> pg_db s' = pg_db s"
  unfolding select_payout_def by (erule db_queryE) auto

lemma select_payoutE:
  assumes "select_payout E i P s = (Inr p, s')"
  obtains u r where "en_uuid E i = Some u" "find (\<lambda>q. pu_payout_id q = u \<and> P q) (db_payouts (pg_db s)) = Some r"
    "p = scanPayout r" "pg_db s' = pg_db s"
  using assms unfolding select_payout_def
  by (elim db_queryE) (auto split: option.splits)

lemma select_payout_up:
  "pg_up E s \<Longrightarrow> en_uuid E i = Some u \<Longrightarrow> find (\<lambda>q. pu_payout_id q = u \<and> P q) (db_payouts (pg_db s)) = Some r \<Longrightarrow>
   select_payout E i P s = (Inr (scanPayout r), s\<lparr>pg_tick := Suc (pg_tick s)\<rparr>)"
  by (simp add: select_payout_def db_query_up)

definition expected_status :: "jmap \<Rightarrow> string" where
  "expected_status f = as_string (mget f ''expectedStatus'')"

definition transition_hit :: "string \<Rightarrow> jmap \<Rightarrow> payout_row \<Rightarrow> bool" where
  "transition_hit u f r \<longleftrightarrow> pu_payout_id r = u \<and> pu_status r = expected_status f"

lemma transition_hit_fold:
  "(\<lambda>r. pu_payout_id r = u \<and> pu_status r = as_string (mget f ''expectedStatus'')) = transition_hit u f"
  by (simp add: fun_eq_iff transition_hit_def expected_status_def)

lemma update_payoutE:
  assumes "update_payout E now i nx f s = (Inr n, s')"
  obtains u where "en_uuid E i = Some u" "n = sql_count (transition_hit u f) (db_payouts (pg_db s))"
    "pg_db s' = (pg_db s)\<lparr>db_payouts := sql_update (transition_hit u f) (transitioned_row now nx f) (db_payouts (pg_db s))\<rparr>"
  using assms unfolding update_payout_def transition_hit_fold
  by (elim db_execE) (auto simp: Let_def transition_hit_fold split: option.splits if_splits)

lemma transitionE:
  assumes "pg_TransitionPayout E i nx f s = (r, s')" and ids: "distinct (map pu_payout_id (db_payouts (pg_db s)))"
  obtains (error) e where "r = Inl e" "pg_db s' = pg_db s"
    | (moved) now u row ds where "en_uuid E i = Some u" "row \<in> set (db_payouts (pg_db s))" "transition_hit u f row"
        "r = Inr (scanPayout (transitioned_row now nx f row))"
        "pg_db s' = (pg_db s)\<lparr>db_payouts := sql_update (transition_hit u f) (transitioned_row now nx f) (db_payouts (pg_db s)),
           db_deliveries := ds\<rparr>"
proof -
  from assms(1) have tx: "db_tx E (transition_tx E i nx f) s = (r, s')" by (simp add: pg_TransitionPayout_def)
  then show thesis
  proof (cases rule: db_txE)
    case (error e)
    then show thesis by (rule that(1))
  next
    case (committed now s1 p s2)
    let ?ps = "db_payouts (pg_db s)"
    from committed(4) [unfolded transition_tx_def Let_def]
    obtain s3 where upd: "update_payout E now i nx f s1 = (Inr 1, s3)"
      and rest: "io_bind (select_payout E i (\<lambda>_. True)) (\<lambda>p.
        if publicPayoutStatus (as_string (mget f ''expectedStatus'')) = po_Status p then io_return p
        else io_bind (nowUTC E) (\<lambda>wall. io_bind (insert_deliveries E now (po_MerchantID p) (po_AccountID p)
           (ep_eventId (payout_changed_payload E wall i nx (as_string (mget f ''expectedStatus'')) p)) ''payout.status_changed''
           (Some (payout_changed_payload E wall i nx (as_string (mget f ''expectedStatus'')) p))) (\<lambda>_. io_return p))) s3 = (Inr p, s2)"
      by (elim io_bind_InrE) (auto simp: io_simps split: if_splits)
    from upd obtain u where u: "en_uuid E i = Some u" and one: "sql_count (transition_hit u f) ?ps = 1"
      and s3: "pg_db s3 = (pg_db s)\<lparr>db_payouts := sql_update (transition_hit u f) (transitioned_row now nx f) ?ps\<rparr>"
      using committed(2) by (auto elim!: update_payoutE)
    from one have "0 < sql_count (transition_hit u f) ?ps" by simp
    then obtain row where row: "row \<in> set ?ps" "transition_hit u f row" by (auto simp: sql_count_pos)
    let ?row = "transitioned_row now nx f row"
    have "?row \<in> set (db_payouts (pg_db s3))" using row by (force simp: s3 table_simps)
    moreover have "distinct (map pu_payout_id (db_payouts (pg_db s3)))" using ids by (simp add: s3 table_simps)
    ultimately have fnd: "find (\<lambda>q. pu_payout_id q = u \<and> True) (db_payouts (pg_db s3)) = Some ?row"
      by (intro find_unique [where key = pu_payout_id]) (use row in \<open>auto simp: transition_hit_def\<close>)
    from rest obtain s4 where sel: "select_payout E i (\<lambda>_. True) s3 = (Inr p, s4)"
      and fin: "s2 = s4 \<or> (\<exists>wall s5 m a e et pl x. nowUTC E s4 = (Inr wall, s5) \<and> insert_deliveries E now m a e et pl s5 = (Inr x, s2))"
      by (elim io_bind_InrE) (fastforce simp: io_simps split: if_splits elim!: io_bind_InrE)
    from sel have p: "p = scanPayout ?row" and s4: "pg_db s4 = pg_db s3"
      using u fnd by (auto elim!: select_payoutE)
    from fin have "\<exists>ds. pg_db s2 = (pg_db s3)\<lparr>db_deliveries := ds\<rparr>"
    proof
      assume "s2 = s4"
      then show ?thesis using s4 by (intro exI [of _ "db_deliveries (pg_db s3)"]) simp
    next
      assume "\<exists>wall s5 m a e et pl x. nowUTC E s4 = (Inr wall, s5) \<and> insert_deliveries E now m a e et pl s5 = (Inr x, s2)"
      then show ?thesis using s4 by (auto simp: nowUTC_def dest!: insert_deliveries_effect)
    qed
    with s3 committed p u row show thesis by (auto intro: that(2))
  qed
qed

lemma pg_GetPayout_db: "pg_GetPayout E p i s = (r, s') \<Longrightarrow> pg_db s' = pg_db s"
  unfolding pg_GetPayout_def by (rule select_payout_db)

definition payout_begin_rest :: "pg_env \<Rightarrow> principal \<Rightarrow> string \<Rightarrow> string \<Rightarrow> (pgstate, payout \<times> bool) go_io" where
  "payout_begin_rest E prin key hash =
     io_bind (db_query E (\<lambda>db. case find (\<lambda>r. idem_key r = (pr_MerchantID prin, key)) (db_payout_idempotency db) of
         None \<Rightarrow> Inl no_rows | Some r \<Rightarrow> Inr (ix_request_hash r, ix_resource_id r, ix_status r)))
       (\<lambda>(storedHash, storedID, status).
         if storedHash \<noteq> hash then io_fail ErrConflict
         else if status \<noteq> ''complete'' then io_fail ErrInProgress
         else io_bind (pg_GetPayout E prin storedID) (\<lambda>p. io_return (p, True)))"

lemma payout_begin_restE:
  assumes "payout_begin_rest E prin key hash s = (r, s')"
  obtains (error) e where "r = Inl e" "pg_db s' = pg_db s"
    | (replay) q p s1 where "find (\<lambda>r. idem_key r = (pr_MerchantID prin, key)) (db_payout_idempotency (pg_db s)) = Some q"
        "ix_request_hash q = hash" "ix_status q = ''complete''" "pg_db s1 = pg_db s"
        "pg_GetPayout E prin (ix_resource_id q) s1 = (Inr p, s')" "r = Inr (p, True)" "pg_db s' = pg_db s"
  using assms unfolding payout_begin_rest_def
proof (cases rule: io_bindE)
  case (error e)
  then show thesis using that(1) by (auto dest: db_query_dbD)
next
  case (ok x u)
  then obtain q where q: "find (\<lambda>r. idem_key r = (pr_MerchantID prin, key)) (db_payout_idempotency (pg_db s)) = Some q"
    "x = (ix_request_hash q, ix_resource_id q, ix_status q)" "pg_db u = pg_db s"
    by (auto dest!: db_query_InrD split: option.splits)
  show thesis
  proof (cases "ix_request_hash q = hash \<and> ix_status q = ''complete''")
    case False
    with ok(2) q show thesis using that(1) by (auto simp: io_simps split: if_splits)
  next
    case True
    with ok(2) q have "io_bind (pg_GetPayout E prin (ix_resource_id q)) (\<lambda>p. io_return (p, True)) u = (r, s')" by simp
    then show thesis
    proof (cases rule: io_bindE)
      case (error e)
      with q show thesis using that(1) pg_GetPayout_db by auto
    next
      case (ok p v)
      with q True show thesis using that(2) [of q u p] pg_GetPayout_db by (auto simp: io_simps)
    qed
  qed
qed

lemma pg_BeginPayoutE:
  assumes "pg_BeginPayout E prin key hash i s = (r, s')"
  obtains (error) e where "r = Inl e" "pg_db s' = pg_db s"
    | (fresh) u where "r = Inr (zero_payout, False)" "en_uuid E i = Some u"
        "\<not> sql_conflict idem_key (pr_MerchantID prin, key) (db_payout_idempotency (pg_db s))"
        "pg_db s' = (pg_db s)\<lparr>db_payout_idempotency := db_payout_idempotency (pg_db s) @ [pending_row (pr_MerchantID prin) key hash u]\<rparr>"
    | (replay) q p s1 where "find (\<lambda>r. idem_key r = (pr_MerchantID prin, key)) (db_payout_idempotency (pg_db s)) = Some q"
        "ix_request_hash q = hash" "ix_status q = ''complete''" "pg_db s1 = pg_db s"
        "pg_GetPayout E prin (ix_resource_id q) s1 = (Inr p, s')" "r = Inr (p, True)" "pg_db s' = pg_db s"
  using assms unfolding pg_BeginPayout_def payout_begin_rest_def [symmetric]
proof (cases rule: io_bindE)
  case (error e)
  then show thesis using that(1) by (auto elim!: db_execE)
next
  case (ok n u)
  from ok(1) show thesis
  proof (cases rule: db_execE)
    case ins: (ok x)
    show thesis
    proof (cases "n = 1")
      case True
      with ins ok(2) show thesis
        using that(2) by (auto simp: io_simps pending_row_def split: option.splits if_splits)
    next
      case False
      with ins have db1: "pg_db u = pg_db s" by (auto split: option.splits if_splits)
      from ok(2) False have "payout_begin_rest E prin key hash u = (r, s')" by simp
      then show thesis
        by (cases rule: payout_begin_restE) (use db1 that(1,3) in auto)
    qed
  qed (use ok in auto)
qed

text \<open>A payout and its webhook deliveries are written, and its key is marked complete, or nothing is.\<close>

lemma pg_CompletePayoutE:
  assumes "pg_CompletePayout E prin key i inp route s = (r, s')"
  obtains (error) e where "r = Inl e" "pg_db s' = pg_db s"
    | (created) now wall u q ds where "en_uuid E i = Some u" "u \<notin> pu_payout_id ` set (db_payouts (pg_db s))"
        "find (completion_hit (pr_MerchantID prin) key u) (db_payout_idempotency (pg_db s)) = Some q"
        "r = Inr (created_payout wall prin i inp route)"
        "pg_db s' = (pg_db s)\<lparr>db_payouts := db_payouts (pg_db s) @ [new_payout_row now u prin key (ix_request_hash q) inp route],
           db_deliveries := ds,
           db_payout_idempotency := sql_update (completion_hit (pr_MerchantID prin) key u)
             (\<lambda>r. r\<lparr>ix_status := ''complete''\<rparr>) (db_payout_idempotency (pg_db s))\<rparr>"
  using assms unfolding pg_CompletePayout_def
proof (cases rule: db_txE)
  case (error e)
  then show thesis by (rule that(1))
next
  case (committed now s1 p s2)
  from committed(4) obtain s3 wall s4 x s5 where
      ins: "insert_payout E now prin key i inp route s1 = (Inr 1, s3)"
    and wall: "nowUTC E s3 = (Inr wall, s4)" and p: "p = created_payout wall prin i inp route"
    and del: "\<exists>m a e et pl. insert_deliveries E now m a e et pl s4 = (Inr x, s5)"
    and idem: "complete_payout_idempotency E (pr_MerchantID prin) key i s5 = (Inr 1, s2)"
    by (elim io_bind_InrE) (fastforce simp: io_simps Let_def split: if_splits elim!: io_bind_InrE)
  from ins committed(2) obtain u q where u: "en_uuid E i = Some u" "u \<notin> pu_payout_id ` set (db_payouts (pg_db s))"
    and q: "find (completion_hit (pr_MerchantID prin) key u) (db_payout_idempotency (pg_db s)) = Some q"
    and s3: "pg_db s3 = (pg_db s)\<lparr>db_payouts := db_payouts (pg_db s) @ [new_payout_row now u prin key (ix_request_hash q) inp route]\<rparr>"
    unfolding insert_payout_def by (auto elim!: db_execE simp: sql_conflict_iff split: option.splits if_splits)
  from del wall s3 obtain ds where s5: "pg_db s5 = (pg_db s)\<lparr>db_payouts :=
      db_payouts (pg_db s) @ [new_payout_row now u prin key (ix_request_hash q) inp route], db_deliveries := ds\<rparr>"
    by (auto simp: nowUTC_def dest!: insert_deliveries_effect)
  from idem u(1) have "pg_db s2 = (pg_db s5)\<lparr>db_payout_idempotency := sql_update (completion_hit (pr_MerchantID prin) key u)
      (\<lambda>r. r\<lparr>ix_status := ''complete''\<rparr>) (db_payout_idempotency (pg_db s5))\<rparr>"
    unfolding complete_payout_idempotency_def by (auto elim!: db_execE)
  with s5 committed(5,6) p u q show thesis by (intro that(2)) auto
qed

lemma pg_ReleasePayout_payouts: "pg_ReleasePayout E m k s = (r, s') \<Longrightarrow> db_payouts (pg_db s') = db_payouts (pg_db s)"
  unfolding pg_ReleasePayout_def by (erule db_execE) (auto dest!: sym [of _ "pg_db s'"])

text \<open>A claim only moves the lease; what it returns are rows of the table, read after it.\<close>

definition leased :: "time \<Rightarrow> string set \<Rightarrow> payout_row \<Rightarrow> payout_row" where
  "leased now ids r = (if pu_payout_id r \<in> ids
     then r\<lparr>pu_next_attempt_at := now + minute_ns, pu_attempt_count := pu_attempt_count r + 1\<rparr> else r)"

lemma leased_simps [simp]:
  "pu_payout_id (leased now ids r) = pu_payout_id r" "pu_status (leased now ids r) = pu_status r"
  "pu_account_id (leased now ids r) = pu_account_id r" "pu_source_amount (leased now ids r) = pu_source_amount r"
  "pu_source_currency (leased now ids r) = pu_source_currency r" "pu_balance_debited (leased now ids r) = pu_balance_debited r"
  by (simp_all add: leased_def)

lemma claim_payout_rowsE:
  assumes "claim_payout_rows E n s = (r, s')"
  obtains (error) e where "r = Inl e" "pg_db s' = pg_db s"
    | (claimed) now ids where "now = pg_time (en_clock E (pg_tick s))"
       "ids = map pu_payout_id (take n (sort_key pu_creation_date (filter (claimable_payout now) (db_payouts (pg_db s)))))"
       "r = Inr (map pu_payout_id (filter (\<lambda>r. pu_payout_id r \<in> set ids) (db_payouts (pg_db s))))"
       "pg_db s' = (pg_db s)\<lparr>db_payouts := map (leased now (set ids)) (db_payouts (pg_db s))\<rparr>"
proof -
  have leased: "sql_update (\<lambda>r. pu_payout_id r \<in> ids) (\<lambda>r. r\<lparr>pu_next_attempt_at := now + minute_ns,
      pu_attempt_count := pu_attempt_count r + 1\<rparr>) rows = map (leased now ids) rows" for ids now rows
    by (simp add: sql_update_def leased_def)
  from assms show thesis unfolding claim_payout_rows_def
    by (cases rule: db_callE) (use that in \<open>auto simp: Let_def leased\<close>)
qed

lemma select_payouts_sound:
  "select_payouts E ids s = (r, s') \<Longrightarrow> pg_db s' = pg_db s \<and>
    (\<forall>ps. r = Inr ps \<longrightarrow> (\<forall>p \<in> set ps. \<exists>row \<in> set (db_payouts (pg_db s)). p = scanPayout row))"
proof (induction ids arbitrary: s r s')
  case (Cons i ids)
  from Cons.prems have "io_bind (select_payout E i (\<lambda>_. True))
    (\<lambda>p. io_bind (select_payouts E ids) (\<lambda>ps. io_return (p # ps))) s = (r, s')" by simp
  then show ?case
  proof (cases rule: io_bindE)
    case (error e)
    then show ?thesis by (auto dest: select_payout_db)
  next
    case (ok p u)
    then have u: "pg_db u = pg_db s" and p: "\<exists>row \<in> set (db_payouts (pg_db s)). p = scanPayout row"
      by (auto elim!: select_payoutE dest!: find_SomeD)
    from ok(2) show ?thesis
    proof (cases rule: io_bindE)
      case (error e)
      with Cons.IH [OF error(1)] u show ?thesis by simp
    next
      case (ok ps v)
      with Cons.IH [OF ok(1)] u p show ?thesis by (auto simp: io_simps)
    qed
  qed
qed (simp add: io_simps)

lemma pg_ClaimPayoutsE:
  assumes "pg_ClaimPayouts E n s = (r, s')"
  obtains now ids where "now = pg_time (en_clock E (pg_tick s))"
    "db_payouts (pg_db s') = map (leased now ids) (db_payouts (pg_db s))"
    "\<And>ps. r = Inr ps \<Longrightarrow> \<forall>p \<in> set ps. \<exists>row \<in> set (db_payouts (pg_db s')). p = scanPayout row"
proof -
  have same: "db_payouts (pg_db s) = map (leased now {}) (db_payouts (pg_db s))" for now
    by (simp add: leased_def map_idI)
  from assms show thesis unfolding pg_ClaimPayouts_def
  proof (cases rule: io_bindE)
    case failed: (error e)
    from failed(1) show thesis
    proof (cases rule: claim_payout_rowsE)
      case (error e')
      with failed same show thesis by (intro that [of _ "{}"]) auto
    qed auto
  next
    case (ok ids u)
    from ok(1) show thesis
    proof (cases rule: claim_payout_rowsE)
      case (claimed now ids')
      have "pg_db s' = pg_db u \<and> (\<forall>ps. r = Inr ps \<longrightarrow> (\<forall>p \<in> set ps. \<exists>row \<in> set (db_payouts (pg_db u)). p = scanPayout row))"
        by (rule select_payouts_sound [OF ok(2)])
      with claimed show thesis by (intro that [of now "set ids'"]) auto
    qed auto
  qed
qed

lemma record_payout_eventE:
  assumes "record_payout_event E event s = (r, s')"
  obtains (error) e where "r = Inl e" "pg_db s' = pg_db s"
    | (duplicate) "r = Inr 0" "ev_EventID event \<in> pv_event_id ` set (db_provider_events (pg_db s))" "pg_db s' = pg_db s"
    | (fresh) row where "r = Inr 1" "ev_EventID event \<notin> pv_event_id ` set (db_provider_events (pg_db s))"
        "pv_event_id row = ev_EventID event" "pg_db s' = (pg_db s)\<lparr>db_provider_events := db_provider_events (pg_db s) @ [row]\<rparr>"
  using assms unfolding record_payout_event_def
proof (cases rule: db_execE)
  case (ok n)
  show thesis
  proof (cases "sql_conflict pv_event_id (ev_EventID event) (db_provider_events (pg_db s))")
    case True
    with ok show thesis by (intro that(2)) (auto simp: sql_conflict_iff split: option.splits)
  next
    case False
    with ok obtain u where "n = 1" and db: "pg_db s' = (pg_db s)\<lparr>db_provider_events := db_provider_events (pg_db s) @
        [\<lparr>pv_event_id = ev_EventID event, pv_event_type = ev_EventType event, pv_transaction_id = None,
          pv_payout_id = Some u, pv_provider = ev_Provider event, pv_source = ev_Source event,
          pv_payload = event, pv_changed_state = False\<rparr>]\<rparr>"
      by (auto split: option.splits dest!: sym [of _ "pg_db s'"])
    with ok False show thesis by (intro that(3) [OF _ _ _ db]) (auto simp: sql_conflict_iff)
  qed
qed (use that(1) in auto)

text \<open>What a provider event may change: the payout it moves, the record of the event, deliveries.\<close>

definition payout_moved :: "provider_event \<Rightarrow> payout_row list \<Rightarrow> payout_row list \<Rightarrow> bool" where
  "payout_moved event rows rows' \<longleftrightarrow> (\<exists>now row nx. row \<in> set rows \<and> nx = payout_next_status (ed_Status (ev_Data event)) \<and>
     payoutOperationalTransitionAllowed (pu_status row) nx \<and>
     rows' = sql_update (\<lambda>r. pu_payout_id r = pu_payout_id row \<and> pu_status r = pu_status row)
       (transitioned_row now nx (payout_event_fields event (scanPayout row))) rows)"

definition payout_event_frame :: "provider_event \<Rightarrow> pgdb \<Rightarrow> pgdb \<Rightarrow> bool" where
  "payout_event_frame event db db' \<longleftrightarrow>
     (db_payouts db' = db_payouts db \<or> payout_moved event (db_payouts db) (db_payouts db')) \<and>
     (pv_event_id ` set (db_provider_events db') = pv_event_id ` set (db_provider_events db) \<or>
      pv_event_id ` set (db_provider_events db') = insert (ev_EventID event) (pv_event_id ` set (db_provider_events db))) \<and>
     db' = db\<lparr>db_payouts := db_payouts db', db_provider_events := db_provider_events db', db_deliveries := db_deliveries db'\<rparr>"

lemma payout_event_frame_refl: "payout_event_frame event db db"
  by (simp add: payout_event_frame_def)

lemma check_payout_eventE:
  assumes "check_payout_event E event s = (r, s')"
  obtains (error) e where "r = Inl e" "pg_db s' = pg_db s"
    | (ok) row where "r = Inr (scanPayout row)" "row \<in> set (db_payouts (pg_db s))"
        "en_uuid E (ev_PayoutID event) = Some (pu_payout_id row)"
        "\<not> payout_event_mismatch (scanPayout row) event" "pg_db s' = pg_db s"
  using assms unfolding check_payout_event_def
proof (cases rule: io_bindE)
  case (error e)
  then show thesis using that(1) by (auto dest: select_payout_db)
next
  case (ok p u)
  from ok(1) show thesis
  proof (cases rule: select_payoutE)
    case (1 v row)
    then have "row \<in> set (db_payouts (pg_db s))" "v = pu_payout_id row" by (auto dest!: find_SomeD)
    with 1 ok(2) show thesis using that by (auto simp: io_simps split: if_splits)
  qed
qed

lemma forget_event_restores:
  assumes "pg_db s = db\<lparr>db_provider_events := db_provider_events db @ [row]\<rparr>" and "pv_event_id row = i"
    and "i \<notin> pv_event_id ` set (db_provider_events db)" and "forget_event E i s = (r, s')"
  shows "pg_db s' = db \<or> pg_db s' = pg_db s"
  using assms(4) unfolding forget_event_def
proof (cases rule: db_execE)
  case (ok u)
  have "sql_delete (\<lambda>r. pv_event_id r = i) (db_provider_events db @ [row]) = db_provider_events db"
    unfolding sql_delete_def using assms(2,3) by (auto intro!: filter_True intro: image_eqI [OF sym])
  with ok assms(1) have "pg_db s' = db" by (auto dest!: sym [of _ "pg_db s'"])
  then show ?thesis ..
qed auto

lemma mark_changed_frame:
  assumes "mark_changed E i s = (r, s')"
  shows "pv_event_id ` set (db_provider_events (pg_db s')) = pv_event_id ` set (db_provider_events (pg_db s)) \<and>
    (\<exists>evs. pg_db s' = (pg_db s)\<lparr>db_provider_events := evs\<rparr>)"
  using assms unfolding mark_changed_def
proof (cases rule: db_execE)
  case (ok u)
  then have "pg_db s' = (pg_db s)\<lparr>db_provider_events := sql_update (\<lambda>r. pv_event_id r = i)
      (\<lambda>r. r\<lparr>pv_changed_state := True\<rparr>) (db_provider_events (pg_db s))\<rparr>" by (auto dest!: sym [of _ "pg_db s'"])
  moreover have "map pv_event_id (sql_update (\<lambda>r. pv_event_id r = i) (\<lambda>r. r\<lparr>pv_changed_state := True\<rparr>) (db_provider_events (pg_db s))) =
      map pv_event_id (db_provider_events (pg_db s))" by (simp add: map_sql_update)
  ultimately show ?thesis by (auto dest!: arg_cong [of _ _ set])
qed (auto intro: exI [of _ "db_provider_events (pg_db s)"])

definition payout_event_rest :: "pg_env \<Rightarrow> provider_event \<Rightarrow> payout \<Rightarrow> (pgstate, event_result) go_io" where
  "payout_event_rest E event p =
     (let nx = payout_next_status (ed_Status (ev_Data event)) in
      if \<not> payoutOperationalTransitionAllowed (po_OperationalStatus p) nx then io_return (zero_result\<lparr>er_Status := po_Status p\<rparr>)
      else if nx = po_OperationalStatus p then io_return (zero_result\<lparr>er_Status := po_Status p\<rparr>)
      else
      io_bind (io_on_error (pg_TransitionPayout E (po_PayoutID p) nx (payout_event_fields event p))
          (forget_event E (ev_EventID event))) (\<lambda>updated.
      io_bind (io_ignore (mark_changed E (ev_EventID event))) (\<lambda>_.
        io_return \<lparr>er_Duplicate = False, er_Changed = (po_Status updated \<noteq> po_Status p), er_Status = po_Status updated\<rparr>)))"

lemma pg_ApplyPayoutProviderEvent_unfold:
  "pg_ApplyPayoutProviderEvent E event i = io_bind (record_payout_event E event) (\<lambda>affected.
     if affected = 0 then io_return (zero_result\<lparr>er_Duplicate := True\<rparr>)
     else io_bind (io_on_error (check_payout_event E event) (forget_event E (ev_EventID event))) (payout_event_rest E event))"
  unfolding pg_ApplyPayoutProviderEvent_def payout_event_rest_def [abs_def] ..

lemma scanPayout_simps [simp]:
  "po_PayoutID (scanPayout r) = pu_payout_id r" "po_OperationalStatus (scanPayout r) = pu_status r"
  "po_AccountID (scanPayout r) = pu_account_id r" "mo_Amount (po_Source (scanPayout r)) = pu_source_amount r"
  "mo_Currency (po_Source (scanPayout r)) = pu_source_currency r" "po_BalanceDebited (scanPayout r) = pu_balance_debited r"
  "po_Status (scanPayout r) = publicPayoutStatus (pu_status r)" "po_Route (scanPayout r) = pu_route_decision r"
  "po_MerchantID (scanPayout r) = pu_merchant_id r" "po_ResourceVersion (scanPayout r) = pu_resource_version r"
  by (simp_all add: scanPayout_def)

lemma expected_event_fields [simp]: "expected_status (payout_event_fields event p) = po_OperationalStatus p"
  by (simp add: expected_status_def payout_event_fields_def as_string_def)

text \<open>From the state with the fresh event record on, both paths stay within the frame.\<close>

lemma payout_event_rest_frame:
  assumes "payout_ids_ok E db" and "pg_db s = db\<lparr>db_provider_events := db_provider_events db @ [new]\<rparr>"
    and "pv_event_id new = ev_EventID event" and "ev_EventID event \<notin> pv_event_id ` set (db_provider_events db)"
    and "row \<in> set (db_payouts db)" and "payout_event_rest E event (scanPayout row) s = (r, s')"
  shows "payout_event_frame event db (pg_db s')"
proof -
  let ?nx = "payout_next_status (ed_Status (ev_Data event))" and ?f = "payout_event_fields event (scanPayout row)"
  have frame0: "payout_event_frame event db (pg_db s)"
    using assms(2,3) by (auto simp: payout_event_frame_def)
  show ?thesis
  proof (cases "payoutOperationalTransitionAllowed (pu_status row) ?nx \<and> ?nx \<noteq> pu_status row")
    case False
    with assms(6) frame0 show ?thesis by (auto simp: payout_event_rest_def Let_def io_simps split: if_splits)
  next
    case True
    with assms(6) have "io_bind (io_on_error (pg_TransitionPayout E (pu_payout_id row) ?nx ?f) (forget_event E (ev_EventID event)))
        (\<lambda>updated. io_bind (io_ignore (mark_changed E (ev_EventID event))) (\<lambda>_.
          io_return \<lparr>er_Duplicate = False, er_Changed = (po_Status updated \<noteq> publicPayoutStatus (pu_status row)),
            er_Status = po_Status updated\<rparr>)) s = (r, s')"
      by (simp add: payout_event_rest_def Let_def)
    then show ?thesis
    proof (cases rule: io_bindE)
      case (error e)
      from error(1) show ?thesis
      proof (cases rule: io_on_errorE)
        case inner: (error e' u)
        have "distinct (map pu_payout_id (db_payouts (pg_db s)))" using assms(1,2) by (simp add: payout_ids_ok_def)
        with inner(1) have u: "pg_db u = pg_db s" by (auto elim!: transitionE)
        obtain x where "forget_event E (ev_EventID event) u = (x, s')" using inner(3) by (metis prod.collapse)
        from forget_event_restores [OF _ assms(3,4) this] u assms(2)
        have "pg_db s' = db \<or> pg_db s' = pg_db s" by simp
        with frame0 show ?thesis by (auto simp: payout_event_frame_refl)
      qed simp
    next
      case (ok p u)
      from ok(1) have tr: "pg_TransitionPayout E (pu_payout_id row) ?nx ?f s = (Inr p, u)" by (auto elim!: io_on_errorE)
      obtain x where mk: "mark_changed E (ev_EventID event) u = (x, s')"
        using ok(2) by (auto simp: io_ignore_def io_bind_def io_simps) (metis prod.collapse)
      have "distinct (map pu_payout_id (db_payouts (pg_db s)))" using assms(1,2) by (simp add: payout_ids_ok_def)
      with tr show ?thesis
      proof (cases rule: transitionE)
        case (moved now v row' ds)
        have "canonical E (pu_payout_id row)" using assms(1,5) by (auto simp: payout_ids_ok_def list_all_iff)
        with moved(1) have v: "v = pu_payout_id row" by (simp add: canonical_def)
        have hit: "transition_hit v ?f = (\<lambda>r. pu_payout_id r = pu_payout_id row \<and> pu_status r = pu_status row)"
          by (simp add: fun_eq_iff transition_hit_def v)
        obtain evs where s': "pg_db s' = (pg_db u)\<lparr>db_provider_events := evs\<rparr>"
            "pv_event_id ` set evs = pv_event_id ` set (db_provider_events (pg_db u))"
          using mark_changed_frame [OF mk] by auto
        have "payout_moved event (db_payouts db) (db_payouts (pg_db s'))"
          unfolding payout_moved_def using moved(5) s'(1) assms(2,5) True hit
          by (intro exI [of _ now] exI [of _ row] exI [of _ ?nx]) auto
        with moved(5) s' assms(2,3) show ?thesis by (auto simp: payout_event_frame_def)
      qed simp
    qed
  qed
qed

lemma pg_ApplyPayout_frame:
  assumes "payout_ids_ok E (pg_db s)" and "pg_ApplyPayoutProviderEvent E event i s = (r, s')"
  shows "payout_event_frame event (pg_db s) (pg_db s')"
  using assms(2) unfolding pg_ApplyPayoutProviderEvent_unfold
proof (cases rule: io_bindE)
  case (error e)
  then show ?thesis by (auto elim!: record_payout_eventE simp: payout_event_frame_refl)
next
  case (ok n u)
  from ok(1) show ?thesis
  proof (cases rule: record_payout_eventE)
    case (fresh new)
    with ok(2) have rest: "io_bind (io_on_error (check_payout_event E event) (forget_event E (ev_EventID event)))
        (payout_event_rest E event) u = (r, s')" by simp
    then show ?thesis
    proof (cases rule: io_bindE)
      case (error e)
      from error(1) show ?thesis
      proof (cases rule: io_on_errorE)
        case inner: (error e' v)
        then have v: "pg_db v = pg_db u" by (auto elim!: check_payout_eventE)
        obtain x where "forget_event E (ev_EventID event) v = (x, s')" using inner(3) by (metis prod.collapse)
        from forget_event_restores [OF _ fresh(3,2) this] v fresh(4)
        have "pg_db s' = pg_db s \<or> pg_db s' = pg_db u" by simp
        with fresh show ?thesis by (auto simp: payout_event_frame_def)
      qed simp
    next
      case (ok p v)
      then obtain row where p: "p = scanPayout row" "row \<in> set (db_payouts (pg_db u))" and v: "pg_db v = pg_db u"
        by (auto elim!: io_on_errorE check_payout_eventE)
      from ok(2) have "payout_event_rest E event (scanPayout row) v = (r, s')" by (simp add: p)
      from payout_event_rest_frame [OF assms(1) _ fresh(3,2) _ this] v fresh(4) p(2) show ?thesis by simp
    qed
  qed (use ok in \<open>auto simp: payout_event_frame_refl io_simps\<close>)
qed

text \<open>While the database answers, an update whose expected status is current succeeds.\<close>

lemma transition_up:
  assumes "pg_up E s" and "payout_ids_ok E (pg_db s)" and "row \<in> set (db_payouts (pg_db s))"
    and "pu_status row = expected_status f" and "bigint_succ (pu_resource_version row) \<noteq> None"
  shows "\<exists>p s'. pg_TransitionPayout E (pu_payout_id row) nx f s = (Inr p, s')"
proof -
  let ?ps = "db_payouts (pg_db s)" and ?u = "pu_payout_id row"
  let ?now = "pg_time (en_clock E (pg_tick s))" and ?s1 = "\<lparr>pg_db = pg_db s, pg_tick = Suc (pg_tick s)\<rparr>"
  have ids: "distinct (map pu_payout_id ?ps)" and can: "en_uuid E ?u = Some ?u"
    using assms(2,3) by (auto simp: payout_ids_ok_def list_all_iff canonical_def)
  have up1: "pg_up E ?s1" using assms(1) by (rule pg_up_later) simp
  have only: "transition_hit ?u f r \<longleftrightarrow> r = row" if "r \<in> set ?ps" for r
    using distinct_key_unique [OF ids that assms(3)] assms(4) by (auto simp: transition_hit_def)
  have one: "sql_count (transition_hit ?u f) ?ps = 1"
  proof -
    have "sql_count (transition_hit ?u f) ?ps \<le> 1"
      by (rule sql_count_key_le_one [OF ids, of _ ?u]) (simp add: transition_hit_def)
    moreover have "0 < sql_count (transition_hit ?u f) ?ps" using only assms(3) by (auto simp: sql_count_pos)
    ultimately show ?thesis by simp
  qed
  let ?db2 = "(pg_db s)\<lparr>db_payouts := sql_update (transition_hit ?u f) (transitioned_row ?now nx f) ?ps\<rparr>"
  let ?s2 = "\<lparr>pg_db = ?db2, pg_tick = Suc (Suc (pg_tick s))\<rparr>" and ?row = "transitioned_row ?now nx f row"
  have room: "\<not> list_ex (\<lambda>r. transition_hit ?u f r \<and> bigint_succ (pu_resource_version r) = None) ?ps"
    using only assms(5) by (auto simp: list_ex_iff)
  have upd: "update_payout E ?now ?u nx f ?s1 = (Inr 1, ?s2)"
    using up1 can one room by (simp add: update_payout_def transition_hit_fold db_exec_up Let_def)
  have up2: "pg_up E ?s2" using assms(1) by (rule pg_up_later) simp
  have "?row \<in> set (db_payouts ?db2)" using assms(3) only by (force simp: table_simps)
  moreover have "distinct (map pu_payout_id (db_payouts ?db2))" using ids by (simp add: map_sql_update)
  ultimately have fnd: "find (\<lambda>q. pu_payout_id q = ?u \<and> True) (db_payouts ?db2) = Some ?row"
    by (intro find_unique [where key = pu_payout_id]) auto
  let ?s3 = "\<lparr>pg_db = ?db2, pg_tick = Suc (Suc (Suc (pg_tick s)))\<rparr>"
  have sel: "select_payout E ?u (\<lambda>_. True) ?s2 = (Inr (scanPayout ?row), ?s3)"
    using select_payout_up [OF up2 can, of "\<lambda>_. True"] fnd by simp
  have up3: "pg_up E ?s3" using assms(1) by (rule pg_up_later) simp
  let ?p = "scanPayout ?row"
  have deliver: "\<exists>s4. io_bind (insert_deliveries E ?now m a e et (Some body)) (\<lambda>_. io_return ?p) ?s3 = (Inr ?p, s4)" for m a e et body
    using insert_deliveries_up [OF up3, of ?now m a e et body] by (auto simp: io_bind_def io_simps)
  have wall: "nowUTC E ?s3 = (Inr (en_wall E (pg_tick ?s3)), ?s3)" by (simp add: nowUTC_def)
  have "\<exists>s4. transition_tx E ?u nx f ?now ?s1 = (Inr ?p, s4)"
    unfolding transition_tx_def Let_def
    using deliver by (simp add: io_bind_Inr [where m = "update_payout E ?now ?u nx f" and s = ?s1, OF upd]
        io_bind_Inr [where m = "select_payout E ?u (\<lambda>_. True)" and s = ?s2, OF sel]
        io_bind_Inr [where m = "nowUTC E" and s = ?s3, OF wall] io_return_def)
  then obtain s4 where body: "transition_tx E ?u nx f ?now ?s1 = (Inr ?p, s4)" by blast
  have "fst (db_tx E (transition_tx E ?u nx f) s) = Inr ?p"
    by (rule db_tx_up [where body = "transition_tx E ?u nx f", OF assms(1) _ body]) simp
  then have "fst (pg_TransitionPayout E ?u nx f s) = Inr (scanPayout ?row)"
    by (simp add: pg_TransitionPayout_def)
  then show ?thesis by (metis prod.collapse)
qed

end
