(* ===== verification/Payouts_App.thy ===== *)
theory Payouts_App
  imports Ports
begin

text \<open>
  \<^verbatim>\<open>app/payouts.go\<close>: the payout service and its worker, over any \<^verbatim>\<open>core.PayoutStore\<close>.
\<close>

section \<open>State\<close>

record 's payouts =
  ys_store :: "'s payout_store"
  ys_router :: router
  ys_connector :: payout_connector
  ys_ledger :: "payout_ledger option"
  ys_auth :: "'s authenticator"
  ys_sha256 :: digest
  ys_marshal :: "create_payout \<Rightarrow> string"

definition stringValue :: "jmap \<Rightarrow> string \<Rightarrow> string" where
  "stringValue v key = as_string (mget v key)"

section \<open>The worker\<close>

text \<open>\<^verbatim>\<open>transition(expected)\<close> of \<^verbatim>\<open>app/refunds.go\<close>.\<close>

definition transition :: "string \<Rightarrow> jmap" where
  "transition expected = [(''expectedStatus'', JStr expected)]"

definition send_payout_update :: "'s payouts \<Rightarrow> string \<Rightarrow> string \<Rightarrow> jmap \<Rightarrow> ('s world, unit) go_io" where
  "send_payout_update s i next f = io_ignore (on_store (ps_TransitionPayout (ys_store s) i next f))"

definition Payouts_next :: "string \<Rightarrow> string" where
  "Payouts_next status =
     (if status = ''confirmed'' then ''confirmed''
      else if status = ''failed'' \<or> status = ''rejected'' then ''pending_compensation''
      else if status = ''cancelled'' then ''pending_compensation_cancelled''
      else if status = ''reversed'' then ''pending_compensation_reversed''
      else ''processing'')"

definition Payouts_applyProvider :: "'s payouts \<Rightarrow> payout \<Rightarrow> provider_payout \<Rightarrow> ('s world, unit) go_io" where
  "Payouts_applyProvider s p result =
     (let f = transition (po_OperationalStatus p);
          f = mput ''providerSubmitted'' (JBool True) f;
          f = mput ''providerPayoutId'' (JStr (ppo_ProviderPayoutID result)) f;
          f = mput ''providerReference'' (JStr (ppo_ProviderReference result)) f;
          f = mput ''providerStatus'' (JStr (ppo_RawStatus result)) f;
          f = mput ''destinationAmount'' (JStr (ppo_DestinationAmount result)) f
      in send_payout_update s (po_PayoutID p) (Payouts_next (ppo_Status result)) f)"

definition debit_payout :: "payout_ledger \<Rightarrow> payout \<Rightarrow> ('s world, unit) go_io" where
  "debit_payout l p = ext_call
     (CallDebitPayout (po_AccountID p) (po_PayoutID p) (mo_Amount (po_Source p)) (mo_Currency (po_Source p)))
     (\<lambda>h. pl_DebitPayout l h (po_AccountID p) (po_PayoutID p) (mo_Amount (po_Source p)) (mo_Currency (po_Source p)))"

definition credit_payout :: "payout_ledger \<Rightarrow> payout \<Rightarrow> ('s world, unit) go_io" where
  "credit_payout l p = ext_call
     (CallCreditFailedPayout (po_AccountID p) (po_PayoutID p) (mo_Amount (po_Source p)) (mo_Currency (po_Source p)))
     (\<lambda>h. pl_CreditFailedPayout l h (po_AccountID p) (po_PayoutID p) (mo_Amount (po_Source p)) (mo_Currency (po_Source p)))"

definition ask_create_payout :: "'s payouts \<Rightarrow> payout \<Rightarrow> ('s world, provider_payout) go_io" where
  "ask_create_payout s p = ext_call (CallCreatePayout (po_Route p) p (''payout:'' @ po_PayoutID p))
     (\<lambda>h. pc_CreatePayout (ys_connector s) h (po_Route p) p (''payout:'' @ po_PayoutID p))"

definition ask_get_payout :: "'s payouts \<Rightarrow> payout \<Rightarrow> ('s world, provider_payout) go_io" where
  "ask_get_payout s p = ext_call (CallGetPayout (po_Route p) p)
     (\<lambda>h. pc_GetPayout (ys_connector s) h (po_Route p) p)"

definition Payouts_process :: "'s payouts \<Rightarrow> payout \<Rightarrow> ('s world, unit) go_io" where
  "Payouts_process s p =
     (let st = po_OperationalStatus p in
      if st = ''pending_debit'' then
        (case ys_ledger s of
           None \<Rightarrow> io_return ()
         | Some l \<Rightarrow>
             io_bind (io_try (debit_payout l p)) (\<lambda>r. case r of
               Inl err \<Rightarrow>
                 if errors_is err ErrInsufficientBalance
                 then send_payout_update s (po_PayoutID p) ''failed''
                        (mput ''lastError'' (JStr ''insufficient balance'') (transition ''pending_debit''))
                 else io_return ()
             | Inr _ \<Rightarrow> send_payout_update s (po_PayoutID p) ''pending_provider''
                        (mput ''balanceDebited'' (JBool True) (transition ''pending_debit''))))
      else if st = ''pending_provider'' then
        io_bind (io_try (ask_create_payout s p)) (\<lambda>r. case r of
          Inr result \<Rightarrow> Payouts_applyProvider s p result
        | Inl err \<Rightarrow>
            if errors_is err ErrProviderRejected
            then send_payout_update s (po_PayoutID p) ''pending_compensation''
                   (mput ''lastError'' (JStr ''provider rejected payout'') (transition ''pending_provider''))
            else io_bind (io_try (ask_get_payout s p)) (\<lambda>r. case r of
                Inl _ \<Rightarrow> send_payout_update s (po_PayoutID p) ''provider_unknown''
                   (mput ''lastError'' (JStr ''provider create result is ambiguous'') (transition ''pending_provider''))
              | Inr result \<Rightarrow> Payouts_applyProvider s p result))
      else if st = ''provider_unknown'' \<or> st = ''processing'' then
        io_bind (io_try (ask_get_payout s p)) (\<lambda>r. case r of
          Inl _ \<Rightarrow> io_return () | Inr result \<Rightarrow> Payouts_applyProvider s p result)
      else if st = ''pending_compensation'' \<or> st = ''pending_compensation_cancelled'' \<or> st = ''pending_compensation_reversed'' then
        (case ys_ledger s of
           None \<Rightarrow> io_return ()
         | Some l \<Rightarrow>
             io_bind (io_try (credit_payout l p)) (\<lambda>r. case r of
               Inl _ \<Rightarrow> io_return ()
             | Inr _ \<Rightarrow>
                 let next = ''failed'';
                     next = (if st = ''pending_compensation_cancelled'' then ''cancelled'' else next);
                     next = (if st = ''pending_compensation_reversed'' then ''reversed'' else next)
                 in send_payout_update s (po_PayoutID p) next (transition st)))
      else io_return ())"

definition Payouts_runBatch :: "'s payouts \<Rightarrow> ('s world, unit) go_io" where
  "Payouts_runBatch s =
     io_bind (io_try (on_store (ps_ClaimPayouts (ys_store s) 50))) (\<lambda>r. case r of
       Inl _ \<Rightarrow> io_return ()
     | Inr items \<Rightarrow> io_each (Payouts_process s) items)"

text \<open>The loop of the worker, which the program starts beside the server.\<close>

definition Payouts_Run :: "'s payouts \<Rightarrow> 's world signal list \<Rightarrow> ('s world, bool) go_io" where
  "Payouts_Run s = ticker_loop (Payouts_runBatch s)"

section \<open>Requests\<close>

definition payout_invalid :: "string \<Rightarrow> create_payout \<Rightarrow> bool" where
  "payout_invalid key inp \<longleftrightarrow>
     blank key \<or> blank (cpo_ExternalID inp) \<or> blank (mo_Amount (cpo_Source inp)) \<or> blank (mo_Currency (cpo_Source inp)) \<or>
     blank (de_Country (cpo_Destination inp)) \<or> blank (de_Currency (cpo_Destination inp)) \<or>
     de_Beneficiary (cpo_Destination inp) = [] \<or> blank (stringValue (de_Rail (cpo_Destination inp)) ''type'')"

definition payout_route_request :: "digest \<Rightarrow> principal \<Rightarrow> string \<Rightarrow> string \<Rightarrow> create_payout \<Rightarrow> route_request" where
  "payout_route_request sha256 prin i key inp =
     \<lparr>rq_RequestID = deterministicUUID sha256 (pr_MerchantID prin @ '':payout-route:'' @ key), rq_TransactionID = i,
      rq_AccountID = pr_AccountID prin, rq_MerchantID = pr_MerchantID prin, rq_Operation = ''payout'',
      rq_Amount = mo_Amount (cpo_Source inp), rq_Currency = mo_Currency (cpo_Source inp),
      rq_DestinationCurrency = de_Currency (cpo_Destination inp), rq_MarketCountry = de_Country (cpo_Destination inp),
      rq_PaymentMethod = '''', rq_CustomerHasDocument = False,
      rq_Rail = stringValue (de_Rail (cpo_Destination inp)) ''type'', rq_DestinationMode = '''', rq_RequiredFeatures = []\<rparr>"

text \<open>The part of \<^verbatim>\<open>Create\<close> under the deferred release, and the whole handler.\<close>

definition payout_reserved ::
  "'s payouts \<Rightarrow> principal \<Rightarrow> string \<Rightarrow> string \<Rightarrow> create_payout \<Rightarrow> ('s world, payout) go_io" where
  "payout_reserved s prin key i inp =
     (let rq = payout_route_request (ys_sha256 s) prin i key inp in
      io_bind (ext_call (CallResolve rq) (\<lambda>h. ro_Resolve (ys_router s) h rq))
        (\<lambda>route. on_store (ps_CompletePayout (ys_store s) prin key i inp route)))"

definition Payouts_accept ::
  "'s payouts \<Rightarrow> principal \<Rightarrow> string \<Rightarrow> create_payout \<Rightarrow> ('s world, payout \<times> bool) go_io" where
  "Payouts_accept s prin key inp =
     (if payout_invalid key inp then io_fail ErrInvalid
      else
        io_bind (on_store (au_ResolveMerchant (ys_auth s) prin (cpo_MerchantID inp))) (\<lambda>merchantID.
          let prin = prin\<lparr>pr_MerchantID := merchantID\<rparr>;
              i = deterministicUUID (ys_sha256 s) (merchantID @ '':payout:'' @ key)
          in io_bind (on_store (ps_BeginPayout (ys_store s) prin key (requestHash (ys_sha256 s) (ys_marshal s) inp) i))
               (\<lambda>(existing, replayed).
                 if replayed then io_return (existing, True)
                 else io_bind (io_on_error (payout_reserved s prin key i inp)
                          (on_store (ps_ReleasePayout (ys_store s) merchantID key)))
                        (\<lambda>p. io_return (p, False)))))"

definition Payouts_Create ::
  "'s payouts \<Rightarrow> principal \<Rightarrow> string \<Rightarrow> create_payout \<Rightarrow> ('s world, payout \<times> bool) go_io" where
  "Payouts_Create s prin key inp =
     io_bind (Payouts_accept s prin key inp) (\<lambda>(p, replayed).
       if replayed then io_return (p, True)
       else io_bind (Payouts_process s p) (\<lambda>_. io_return (p, False)))"

definition Payouts_Get :: "'s payouts \<Rightarrow> principal \<Rightarrow> string \<Rightarrow> ('s world, payout) go_io" where
  "Payouts_Get s p i = on_store (ps_GetPayout (ys_store s) p i)"

definition Payouts_List :: "'s payouts \<Rightarrow> principal \<Rightarrow> payout_list_options \<Rightarrow> ('s world, payout_page) go_io" where
  "Payouts_List s p options = on_store (ps_ListPayouts (ys_store s) p options)"

section \<open>The outcomes of a request\<close>

definition payout_id :: "'s payouts \<Rightarrow> string \<Rightarrow> string \<Rightarrow> string" where
  "payout_id s m key = deterministicUUID (ys_sha256 s) (m @ '':payout:'' @ key)"

definition payout_hash :: "'s payouts \<Rightarrow> create_payout \<Rightarrow> string" where
  "payout_hash s inp = requestHash (ys_sha256 s) (ys_marshal s) inp"

lemma accept_inversion:
  assumes "Payouts_accept sv pr key inp w = (r, w')"
  obtains (invalid) "payout_invalid key inp" "r = Inl ErrInvalid" "w' = w"
    | (merchant) e s1 where "au_ResolveMerchant (ys_auth sv) pr (cpo_MerchantID inp) (wstore w) = (Inl e, s1)"
        "r = Inl e" "w' = w\<lparr>wstore := s1\<rparr>"
    | (refused) m s1 e s2 where "au_ResolveMerchant (ys_auth sv) pr (cpo_MerchantID inp) (wstore w) = (Inr m, s1)"
        "ps_BeginPayout (ys_store sv) (pr\<lparr>pr_MerchantID := m\<rparr>) key (payout_hash sv inp) (payout_id sv m key) s1 = (Inl e, s2)"
        "r = Inl e" "w' = w\<lparr>wstore := s2\<rparr>"
    | (replayed) m s1 p s2 where "au_ResolveMerchant (ys_auth sv) pr (cpo_MerchantID inp) (wstore w) = (Inr m, s1)"
        "ps_BeginPayout (ys_store sv) (pr\<lparr>pr_MerchantID := m\<rparr>) key (payout_hash sv inp) (payout_id sv m key) s1 = (Inr (p, True), s2)"
        "r = Inr (p, True)" "w' = w\<lparr>wstore := s2\<rparr>"
    | (failed) m s1 p s2 e w2 where "au_ResolveMerchant (ys_auth sv) pr (cpo_MerchantID inp) (wstore w) = (Inr m, s1)"
        "ps_BeginPayout (ys_store sv) (pr\<lparr>pr_MerchantID := m\<rparr>) key (payout_hash sv inp) (payout_id sv m key) s1 = (Inr (p, False), s2)"
        "payout_reserved sv (pr\<lparr>pr_MerchantID := m\<rparr>) key (payout_id sv m key) inp (w\<lparr>wstore := s2\<rparr>) = (Inl e, w2)"
        "r = Inl e" "w' = w2\<lparr>wstore := snd (ps_ReleasePayout (ys_store sv) m key (wstore w2))\<rparr>"
    | (created) m s1 p s2 pay where "\<not> payout_invalid key inp"
        "au_ResolveMerchant (ys_auth sv) pr (cpo_MerchantID inp) (wstore w) = (Inr m, s1)"
        "ps_BeginPayout (ys_store sv) (pr\<lparr>pr_MerchantID := m\<rparr>) key (payout_hash sv inp) (payout_id sv m key) s1 = (Inr (p, False), s2)"
        "payout_reserved sv (pr\<lparr>pr_MerchantID := m\<rparr>) key (payout_id sv m key) inp (w\<lparr>wstore := s2\<rparr>) = (Inr pay, w')"
        "r = Inr (pay, False)"
proof (cases "payout_invalid key inp")
  case True
  with assms show ?thesis by (intro invalid) (auto simp: Payouts_accept_def io_simps)
next
  case valid: False
  note run = assms [unfolded Payouts_accept_def, folded payout_id_def payout_hash_def, unfolded Let_def, simplified valid if_False]
  from run show ?thesis
  proof (cases rule: io_bindE)
    case (error e)
    then show ?thesis by (auto dest!: on_storeD intro: merchant)
  next
    case (ok m u)
    then obtain s1 where res: "au_ResolveMerchant (ys_auth sv) pr (cpo_MerchantID inp) (wstore w) = (Inr m, s1)"
      and u: "u = w\<lparr>wstore := s1\<rparr>" by (auto dest: on_storeD)
    from ok(2) show ?thesis
    proof (cases rule: io_bindE)
      case (error e)
      then show ?thesis by (auto dest!: on_storeD simp: u intro: refused [OF res])
    next
      case (ok pb v)
      obtain p b where pb: "pb = (p, b)" by (cases pb)
      show ?thesis
      proof (cases b)
        case True
        with ok show ?thesis by (auto dest!: on_storeD simp: u pb io_simps intro: replayed [OF res])
      next
        case False
        with ok obtain s2 where beg: "ps_BeginPayout (ys_store sv) (pr\<lparr>pr_MerchantID := m\<rparr>) key (payout_hash sv inp)
            (payout_id sv m key) s1 = (Inr (p, False), s2)" and v: "v = w\<lparr>wstore := s2\<rparr>"
          by (auto dest!: on_storeD simp: u pb)
        from ok(2) False show ?thesis unfolding pb v
          by (auto elim!: io_bindE io_on_errorE simp: io_simps on_store_def split: prod.splits
              intro: failed [OF res beg] created [OF valid res beg])
      qed
    qed
  qed
qed

lemma payout_reservedE:
  assumes "payout_reserved sv prin key i inp w = (r, w')"
  obtains (unrouted) e where "r = Inl e" "wstore w' = wstore w"
      "\<exists>rq ok. wcalls w' = wcalls w @ [(CallResolve rq, ok)]"
    | (routed) route s' where "ps_CompletePayout (ys_store sv) prin key i inp route (wstore w) = (r, s')"
      "wstore w' = s'" "\<exists>rq ok. wcalls w' = wcalls w @ [(CallResolve rq, ok)]"
  using assms unfolding payout_reserved_def Let_def
proof (cases rule: io_bindE)
  case (error e)
  then show thesis using that(1) by (auto dest!: ext_callD)
next
  case (ok route u)
  then show thesis using that(2) by (auto dest!: ext_callD on_storeD)
qed

end
