(* ===== verification/Saga.thy ===== *)
theory Saga
  imports Prelude
begin

text \<open>
  The contract that the payout worker and the refund worker share: money is debited before the
  provider is asked, a failure after the debit is compensated by a credit, and a resource that
  succeeded is never credited back. The specification is an abstract transition system with
  stale snapshots; both workers are shown to refine it.
\<close>

section \<open>The transition system\<close>

text \<open>
  \<open>sp_initial\<close> is the status before the debit, \<open>sp_active\<close> the ones after it (success
  included), \<open>sp_compensating\<close> those that wait for the credit, \<open>sp_credited\<close> where each of them
  ends, and \<open>sp_rejected\<close> the end of a resource whose debit was refused.
\<close>

record saga_spec =
  sp_initial :: string
  sp_active :: "string list"
  sp_compensating :: "string list"
  sp_credited :: "string \<Rightarrow> string"
  sp_rejected :: string

text \<open>Calls about resource \<open>i\<close> moving the money \<open>m\<close>; the flag says whether the ledger accepted.\<close>

datatype 'm saga_event =
    Debit string 'm bool
  | Credit string 'm bool
  | Provider string 'm
  | Unrelated

text \<open>
  Work in flight: a snapshot that a worker has read (\<open>Look\<close>: resource, money, status at that
  time) or an update it is about to send (\<open>Move\<close>: resource, expected status, next status, and
  whether it marks the balance as debited).
\<close>

datatype 'm saga_task = Look string 'm string | Move string string string bool

record 'm saga =
  sg_view :: "string \<Rightarrow> ('m \<times> string \<times> bool) option"
  sg_calls :: "'m saga_event list"
  sg_tasks :: "'m saga_task set"

inductive saga_step :: "saga_spec \<Rightarrow> 'm saga \<Rightarrow> 'm saga \<Rightarrow> bool" for sp :: saga_spec where
  create: "sg_view s i = None \<Longrightarrow>
    saga_step sp s (s\<lparr>sg_view := (sg_view s)(i \<mapsto> (m, sp_initial sp, False))\<rparr>)"
| look: "sg_view s i = Some (m, st, d) \<Longrightarrow>
    saga_step sp s (s\<lparr>sg_tasks := insert (Look i m st) (sg_tasks s)\<rparr>)"
| debited: "Look i m (sp_initial sp) \<in> sg_tasks s \<Longrightarrow> to \<in> set (sp_active sp) \<Longrightarrow>
    saga_step sp s (s\<lparr>sg_calls := sg_calls s @ [Debit i m True],
      sg_tasks := insert (Move i (sp_initial sp) to True) (sg_tasks s)\<rparr>)"
| debit_refused: "Look i m (sp_initial sp) \<in> sg_tasks s \<Longrightarrow>
    saga_step sp s (s\<lparr>sg_calls := sg_calls s @ [Debit i m False],
      sg_tasks := insert (Move i (sp_initial sp) (sp_rejected sp) False) (sg_tasks s)\<rparr>)"
| asked: "Look i m st \<in> sg_tasks s \<Longrightarrow> st \<in> set (sp_active sp) \<Longrightarrow>
    saga_step sp s (s\<lparr>sg_calls := sg_calls s @ [Provider i m]\<rparr>)"
| answered: "Look i m st \<in> sg_tasks s \<Longrightarrow> st \<in> set (sp_active sp) \<Longrightarrow>
    to \<in> set (sp_active sp) \<union> set (sp_compensating sp) \<Longrightarrow>
    saga_step sp s (s\<lparr>sg_tasks := insert (Move i st to False) (sg_tasks s)\<rparr>)"
| credited: "Look i m st \<in> sg_tasks s \<Longrightarrow> st \<in> set (sp_compensating sp) \<Longrightarrow>
    saga_step sp s (s\<lparr>sg_calls := sg_calls s @ [Credit i m True],
      sg_tasks := insert (Move i st (sp_credited sp st) False) (sg_tasks s)\<rparr>)"
| credit_refused: "Look i m st \<in> sg_tasks s \<Longrightarrow> st \<in> set (sp_compensating sp) \<Longrightarrow>
    saga_step sp s (s\<lparr>sg_calls := sg_calls s @ [Credit i m False]\<rparr>)"
| move: "Move i frm to b \<in> sg_tasks s \<Longrightarrow> sg_view s i = Some (m, frm, d) \<Longrightarrow>
    saga_step sp s (s\<lparr>sg_view := (sg_view s)(i \<mapsto> (m, to, d \<or> b))\<rparr>)"
| event: "sg_view s i = Some (m, frm, d) \<Longrightarrow> frm \<in> set (sp_active sp) \<Longrightarrow>
    to \<in> set (sp_active sp) \<union> set (sp_compensating sp) \<Longrightarrow>
    saga_step sp s (s\<lparr>sg_view := (sg_view s)(i \<mapsto> (m, to, d))\<rparr>)"
| drop: "ts \<subseteq> sg_tasks s \<Longrightarrow> saga_step sp s (s\<lparr>sg_tasks := ts\<rparr>)"
| other: "saga_step sp s (s\<lparr>sg_calls := sg_calls s @ [Unrelated]\<rparr>)"

inductive_cases saga_stepE [elim]: "saga_step sp s s'"

section \<open>What it guarantees\<close>

text \<open>Every call to the provider and every credit comes after a successful debit of the same money.\<close>

definition debit_first :: "'m saga_event list \<Rightarrow> bool" where
  "debit_first h \<longleftrightarrow> (\<forall>h1 c h2. h = h1 @ c # h2 \<longrightarrow>
     (\<forall>i m b. c = Provider i m \<or> c = Credit i m b \<longrightarrow> Debit i m True \<in> set h1))"

definition never_credited :: "string \<Rightarrow> 'm saga_event list \<Rightarrow> bool" where
  "never_credited i h \<longleftrightarrow> (\<forall>m b. Credit i m b \<notin> set h)"

definition money_ok :: "saga_spec \<Rightarrow> 'm saga \<Rightarrow> string \<Rightarrow> 'm \<times> string \<times> bool \<Rightarrow> bool" where
  "money_ok sp s i = (\<lambda>(m, st, d).
     (st = sp_initial sp \<or> st \<in> set (sp_active sp) \<or> st \<in> set (sp_compensating sp) \<or>
      st \<in> sp_credited sp ` set (sp_compensating sp) \<or> st = sp_rejected sp) \<and>
     (st \<in> set (sp_active sp) \<union> set (sp_compensating sp) \<longrightarrow> d) \<and>
     (d \<longrightarrow> st \<in> set (sp_active sp) \<union> set (sp_compensating sp) \<union> sp_credited sp ` set (sp_compensating sp)) \<and>
     (d \<longrightarrow> Debit i m True \<in> set (sg_calls s)) \<and>
     (st \<notin> set (sp_compensating sp) \<and> (d \<longrightarrow> st \<in> set (sp_active sp)) \<longrightarrow> never_credited i (sg_calls s)) \<and>
     (d \<and> st \<in> sp_credited sp ` set (sp_compensating sp) \<longrightarrow> Credit i m True \<in> set (sg_calls s)))"

definition task_ok :: "saga_spec \<Rightarrow> 'm saga \<Rightarrow> 'm saga_task \<Rightarrow> bool" where
  "task_ok sp s t = (case t of
     Look i m st \<Rightarrow> (\<exists>st' d. sg_view s i = Some (m, st', d) \<and>
        (st \<in> set (sp_active sp) \<longrightarrow> Debit i m True \<in> set (sg_calls s)) \<and>
        (st \<in> set (sp_compensating sp) \<longrightarrow> Debit i m True \<in> set (sg_calls s) \<and> d \<and> (st' = st \<or> st' = sp_credited sp st)))
   | Move i frm to b \<Rightarrow> (\<exists>m st' d. sg_view s i = Some (m, st', d) \<and>
        ((frm = sp_initial sp \<and> to = sp_rejected sp \<and> \<not> b) \<or>
         (frm = sp_initial sp \<and> to \<in> set (sp_active sp) \<and> b \<and> Debit i m True \<in> set (sg_calls s)) \<or>
         (frm \<in> set (sp_active sp) \<and> to \<in> set (sp_active sp) \<union> set (sp_compensating sp) \<and> \<not> b) \<or>
         (frm \<in> set (sp_compensating sp) \<and> to = sp_credited sp frm \<and> \<not> b \<and> Credit i m True \<in> set (sg_calls s)))))"

definition saga_inv :: "saga_spec \<Rightarrow> 'm saga \<Rightarrow> bool" where
  "saga_inv sp s \<longleftrightarrow> debit_first (sg_calls s) \<and>
     (\<forall>i e. sg_view s i = Some e \<longrightarrow> money_ok sp s i e) \<and>
     (\<forall>i. sg_view s i = None \<longrightarrow> never_credited i (sg_calls s)) \<and>
     (\<forall>t \<in> sg_tasks s. task_ok sp s t)"

lemma saga_moneyD: "saga_inv sp s \<Longrightarrow> sg_view s i = Some e \<Longrightarrow> money_ok sp s i e"
  unfolding saga_inv_def by blast

lemma saga_taskD: "saga_inv sp s \<Longrightarrow> t \<in> sg_tasks s \<Longrightarrow> task_ok sp s t"
  unfolding saga_inv_def by blast

lemma money_ok_cong: "sg_calls s' = sg_calls s \<Longrightarrow> money_ok sp s' i e = money_ok sp s i e"
  by (simp add: money_ok_def)

lemma task_ok_cong: "sg_calls s' = sg_calls s \<Longrightarrow> sg_view s' = sg_view s \<Longrightarrow> task_ok sp s' t = task_ok sp s t"
  by (simp only: task_ok_def)

lemma debit_firstD: "debit_first (h1 @ c # h2) \<Longrightarrow> c = Provider i m \<or> c = Credit i m b \<Longrightarrow> Debit i m True \<in> set h1"
  unfolding debit_first_def by blast

lemma debit_first_Nil [simp]: "debit_first []"
  by (simp add: debit_first_def)

lemma debit_first_snoc:
  "debit_first (h @ [c]) \<longleftrightarrow> debit_first h \<and> (\<forall>i m b. c = Provider i m \<or> c = Credit i m b \<longrightarrow> Debit i m True \<in> set h)"
proof
  assume new: "debit_first (h @ [c])"
  have "debit_first h"
    unfolding debit_first_def
  proof (intro allI impI)
    fix h1 c' h2 i m b
    assume "h = h1 @ c' # h2" "c' = Provider i m \<or> c' = Credit i m b"
    then have "h @ [c] = h1 @ c' # (h2 @ [c])" by simp
    with new \<open>c' = Provider i m \<or> c' = Credit i m b\<close> show "Debit i m True \<in> set h1"
      unfolding debit_first_def by blast
  qed
  moreover have "\<forall>i m b. c = Provider i m \<or> c = Credit i m b \<longrightarrow> Debit i m True \<in> set h"
    using new unfolding debit_first_def by (metis append.right_neutral)
  ultimately show "debit_first h \<and> (\<forall>i m b. c = Provider i m \<or> c = Credit i m b \<longrightarrow> Debit i m True \<in> set h)" by blast
next
  assume old: "debit_first h \<and> (\<forall>i m b. c = Provider i m \<or> c = Credit i m b \<longrightarrow> Debit i m True \<in> set h)"
  show "debit_first (h @ [c])"
    unfolding debit_first_def
  proof (intro allI impI)
    fix h1 c' h2 i m b
    assume eq: "h @ [c] = h1 @ c' # h2" and c': "c' = Provider i m \<or> c' = Credit i m b"
    show "Debit i m True \<in> set h1"
    proof (cases h2 rule: rev_cases)
      case Nil
      with eq c' old show ?thesis by auto
    next
      case (snoc ys y)
      with eq have "h = h1 @ c' # ys" by simp
      with old c' show ?thesis unfolding debit_first_def by blast
    qed
  qed
qed

lemma never_credited_snoc [simp]:
  "never_credited i (h @ [c]) \<longleftrightarrow> never_credited i h \<and> (\<forall>m b. c \<noteq> Credit i m b)"
  by (auto simp: never_credited_def)

locale saga_statuses =
  fixes sp :: saga_spec
  assumes initial_apart: "sp_initial sp \<notin> set (sp_active sp)" "sp_initial sp \<notin> set (sp_compensating sp)"
      "sp_initial sp \<noteq> sp_rejected sp" "sp_initial sp \<notin> sp_credited sp ` set (sp_compensating sp)"
    and active_apart: "set (sp_active sp) \<inter> set (sp_compensating sp) = {}" "sp_rejected sp \<notin> set (sp_active sp)"
      "set (sp_active sp) \<inter> sp_credited sp ` set (sp_compensating sp) = {}"
    and compensating_apart: "sp_rejected sp \<notin> set (sp_compensating sp)"
      "set (sp_compensating sp) \<inter> sp_credited sp ` set (sp_compensating sp) = {}"
begin

lemma empty_inv: "saga_inv sp \<lparr>sg_view = (\<lambda>_. None), sg_calls = [], sg_tasks = {}\<rparr>"
  by (simp add: saga_inv_def never_credited_def)


lemma inv_call:
  assumes "saga_inv sp s"
    and "\<And>i m b. c = Provider i m \<or> c = Credit i m b \<Longrightarrow> Debit i m True \<in> set (sg_calls s)"
    and "\<And>i m b. c = Credit i m b \<Longrightarrow> \<exists>m' st. sg_view s i = Some (m', st, True) \<and> st \<notin> set (sp_active sp)"
  shows "saga_inv sp (s\<lparr>sg_calls := sg_calls s @ [c]\<rparr>)"
proof -
  let ?s = "s\<lparr>sg_calls := sg_calls s @ [c]\<rparr>"
  have "debit_first (sg_calls ?s)"
    using assms(1,2) by (auto simp: saga_inv_def debit_first_snoc)
  moreover have "money_ok sp ?s i e" if "sg_view ?s i = Some e" for i e
  proof -
    obtain m st d where e: "e = (m, st, d)" by (cases e)
    have "money_ok sp s i e" using saga_moneyD [OF assms(1)] that by simp
    then show ?thesis using assms(3) [of i] that unfolding e money_ok_def by auto
  qed
  moreover have "never_credited i (sg_calls ?s)" if "sg_view ?s i = None" for i
    using assms(1,3) that by (fastforce simp: saga_inv_def)
  moreover have "task_ok sp ?s t" if "t \<in> sg_tasks ?s" for t
  proof -
    have "task_ok sp s t" using saga_taskD [OF assms(1)] that by simp
    then show ?thesis by (cases t) (fastforce simp: task_ok_def)+
  qed
  ultimately show ?thesis by (simp add: saga_inv_def)
qed

lemma inv_task:
  assumes "saga_inv sp s" and "task_ok sp s t"
  shows "saga_inv sp (s\<lparr>sg_tasks := insert t (sg_tasks s)\<rparr>)"
proof -
  let ?s = "s\<lparr>sg_tasks := insert t (sg_tasks s)\<rparr>"
  have "task_ok sp ?s u = task_ok sp s u" "money_ok sp ?s i e = money_ok sp s i e" for u i e
    by (rule task_ok_cong; simp) (rule money_ok_cong; simp)
  with assms show ?thesis unfolding saga_inv_def by simp
qed

text \<open>A status change of one resource, by an update in flight or by an event.\<close>

definition change_ok :: "'m saga \<Rightarrow> string \<Rightarrow> 'm \<Rightarrow> string \<Rightarrow> string \<Rightarrow> bool \<Rightarrow> bool" where
  "change_ok s i m frm to b \<longleftrightarrow>
     (frm = sp_initial sp \<and> to = sp_rejected sp \<and> \<not> b) \<or>
     (frm = sp_initial sp \<and> to \<in> set (sp_active sp) \<and> b \<and> Debit i m True \<in> set (sg_calls s)) \<or>
     (frm \<in> set (sp_active sp) \<and> to \<in> set (sp_active sp) \<union> set (sp_compensating sp) \<and> \<not> b) \<or>
     (frm \<in> set (sp_compensating sp) \<and> to = sp_credited sp frm \<and> \<not> b \<and> Credit i m True \<in> set (sg_calls s))"

lemma money_change:
  assumes "money_ok sp s i (m, frm, d)" and "change_ok s i m frm to b" and "sg_calls s' = sg_calls s"
  shows "money_ok sp s' i (m, to, d \<or> b)"
  using assms initial_apart active_apart compensating_apart
  unfolding money_ok_def change_ok_def by (auto simp: disjoint_iff)

lemma task_change:
  assumes "task_ok sp s t" and "sg_view s i = Some (m, frm, d)" and "money_ok sp s i (m, frm, d)" and "change_ok s i m frm to b"
  shows "task_ok sp (s\<lparr>sg_view := (sg_view s)(i \<mapsto> (m, to, d \<or> b))\<rparr>) t"
proof (cases t)
  case (Look j m' st)
  show ?thesis
  proof (cases "j = i \<and> st \<in> set (sp_compensating sp)")
    case True
    with assms(1,2) Look have "frm = st \<or> frm = sp_credited sp st" "m' = m" "d"
      by (auto simp: task_ok_def)
    with assms(4) True initial_apart active_apart compensating_apart have "frm = st" "to = sp_credited sp st" "\<not> b"
      unfolding change_ok_def by (auto simp: disjoint_iff image_iff)
    with assms(1,2) Look True \<open>d\<close> show ?thesis by (auto simp: task_ok_def)
  next
    case False
    with assms(1,2) Look show ?thesis by (auto simp: task_ok_def)
  qed
next
  case (Move j f u b')
  with assms(1,2) show ?thesis by (cases "j = i") (auto simp: task_ok_def)
qed

lemma inv_change:
  assumes "saga_inv sp s" and "sg_view s i = Some (m, frm, d)" and "change_ok s i m frm to b"
  shows "saga_inv sp (s\<lparr>sg_view := (sg_view s)(i \<mapsto> (m, to, d \<or> b))\<rparr>)"
proof -
  let ?s = "s\<lparr>sg_view := (sg_view s)(i \<mapsto> (m, to, d \<or> b))\<rparr>"
  have ok: "money_ok sp s i (m, frm, d)" by (rule saga_moneyD [OF assms(1,2)])
  have "money_ok sp ?s j e" if "sg_view ?s j = Some e" for j e
  proof (cases "j = i")
    case True
    with that money_change [OF ok assms(3)] show ?thesis by simp
  next
    case False
    with that saga_moneyD [OF assms(1)] have "money_ok sp s j e" by simp
    then show ?thesis by (simp add: money_ok_def)
  qed
  moreover have "task_ok sp ?s t" if "t \<in> sg_tasks ?s" for t
    using task_change [OF _ assms(2) ok assms(3)] assms(1) that by (simp add: saga_inv_def)
  ultimately show ?thesis using assms(1) by (simp add: saga_inv_def)
qed

text \<open>What the tasks allow.\<close>

lemma look_debited:
  assumes "saga_inv sp s" and "Look i m st \<in> sg_tasks s" and "st \<in> set (sp_active sp) \<union> set (sp_compensating sp)"
  shows "Debit i m True \<in> set (sg_calls s)"
proof -
  have "task_ok sp s (Look i m st)" by (rule saga_taskD [OF assms(1,2)])
  with assms(3) show ?thesis by (auto simp: task_ok_def)
qed

lemma look_entry:
  assumes "saga_inv sp s" and "Look i m st \<in> sg_tasks s"
  shows "\<exists>st' d. sg_view s i = Some (m, st', d) \<and> (st \<in> set (sp_compensating sp) \<longrightarrow> d \<and> st' \<notin> set (sp_active sp))"
proof -
  have "task_ok sp s (Look i m st)" by (rule saga_taskD [OF assms])
  then obtain st' d where e: "sg_view s i = Some (m, st', d)"
    and c: "st \<in> set (sp_compensating sp) \<longrightarrow> d \<and> (st' = st \<or> st' = sp_credited sp st)"
    by (auto simp: task_ok_def)
  have "st \<in> set (sp_compensating sp) \<longrightarrow> d \<and> st' \<notin> set (sp_active sp)"
    using c active_apart by (auto simp: disjoint_iff image_iff)
  with e show ?thesis by blast
qed

lemma move_change_ok:
  assumes "saga_inv sp s" and "Move i frm to b \<in> sg_tasks s" and "sg_view s i = Some (m, st', d)"
  shows "change_ok s i m frm to b"
proof -
  have "task_ok sp s (Move i frm to b)" by (rule saga_taskD [OF assms(1,2)])
  with assms(3) show ?thesis by (auto simp: task_ok_def change_ok_def)
qed

lemma saga_inv_step:
  assumes "saga_step sp s s'" and "saga_inv sp s"
  shows "saga_inv sp s'"
  using assms(1)
proof cases
  case (create i m)
  let ?e = "(m, sp_initial sp, False)"
  have none: "never_credited i (sg_calls s)" using assms(2) create by (simp add: saga_inv_def)
  have "money_ok sp s' j e" if "sg_view s' j = Some e" for j e
  proof (cases "j = i")
    case True
    with that create none show ?thesis using initial_apart by (auto simp: money_ok_def)
  next
    case False
    with that create saga_moneyD [OF assms(2)] have "money_ok sp s j e" by simp
    then show ?thesis using create by (simp add: money_ok_def)
  qed
  moreover have "task_ok sp s' t" if "t \<in> sg_tasks s'" for t
  proof -
    have "task_ok sp s t" using saga_taskD [OF assms(2)] that create by simp
    then show ?thesis using create by (cases t) (fastforce simp: task_ok_def)+
  qed
  ultimately show ?thesis using assms(2) create by (simp add: saga_inv_def)
next
  case (look i m st d)
  have ok: "money_ok sp s i (m, st, d)" by (rule saga_moneyD [OF assms(2) look(2)])
  have "task_ok sp s (Look i m st)"
    using look ok by (auto simp: task_ok_def money_ok_def)
  with inv_task [OF assms(2)] look show ?thesis by simp
next
  case (debited i m to)
  let ?s1 = "s\<lparr>sg_calls := sg_calls s @ [Debit i m True]\<rparr>"
  have "saga_inv sp ?s1" by (rule inv_call [OF assms(2)]) auto
  moreover have "task_ok sp ?s1 (Move i (sp_initial sp) to True)"
    using look_entry [OF assms(2) debited(2)] debited by (auto simp: task_ok_def)
  ultimately have "saga_inv sp (?s1\<lparr>sg_tasks := insert (Move i (sp_initial sp) to True) (sg_tasks ?s1)\<rparr>)" by (rule inv_task)
  with debited show ?thesis by simp
next
  case (debit_refused i m)
  let ?s1 = "s\<lparr>sg_calls := sg_calls s @ [Debit i m False]\<rparr>"
  have "saga_inv sp ?s1" by (rule inv_call [OF assms(2)]) auto
  moreover have "task_ok sp ?s1 (Move i (sp_initial sp) (sp_rejected sp) False)"
    using look_entry [OF assms(2) debit_refused(2)] debit_refused by (auto simp: task_ok_def)
  ultimately have "saga_inv sp (?s1\<lparr>sg_tasks := insert (Move i (sp_initial sp) (sp_rejected sp) False) (sg_tasks ?s1)\<rparr>)" by (rule inv_task)
  with debit_refused show ?thesis by simp
next
  case (asked i m st)
  then show ?thesis using look_debited [OF assms(2) asked(2)] by (auto intro!: inv_call [OF assms(2)])
next
  case (answered i m st to)
  have "task_ok sp s (Move i st to False)"
    using look_entry [OF assms(2) answered(2)] answered by (auto simp: task_ok_def)
  with inv_task [OF assms(2)] answered show ?thesis by simp
next
  case (credited i m st)
  let ?s1 = "s\<lparr>sg_calls := sg_calls s @ [Credit i m True]\<rparr>"
  have "saga_inv sp ?s1"
    by (rule inv_call [OF assms(2)])
       (use look_debited [OF assms(2) credited(2)] look_entry [OF assms(2) credited(2)] credited in auto)
  moreover have "task_ok sp ?s1 (Move i st (sp_credited sp st) False)"
    using look_entry [OF assms(2) credited(2)] credited by (auto simp: task_ok_def)
  ultimately have "saga_inv sp (?s1\<lparr>sg_tasks := insert (Move i st (sp_credited sp st) False) (sg_tasks ?s1)\<rparr>)" by (rule inv_task)
  with credited show ?thesis by simp
next
  case (credit_refused i m st)
  have "saga_inv sp (s\<lparr>sg_calls := sg_calls s @ [Credit i m False]\<rparr>)"
    by (rule inv_call [OF assms(2)])
       (use look_debited [OF assms(2) credit_refused(2)] look_entry [OF assms(2) credit_refused(2)] credit_refused in auto)
  with credit_refused show ?thesis by simp
next
  case (move i frm to b m d)
  with inv_change [OF assms(2) move(3) move_change_ok [OF assms(2) move(2,3)]] show ?thesis by simp
next
  case (event i m frm d to)
  have "change_ok s i m frm to False" using event by (auto simp: change_ok_def)
  from inv_change [OF assms(2) event(2) this] event show ?thesis by simp
next
  case (drop ts)
  have "task_ok sp s' u = task_ok sp s u" "money_ok sp s' i e = money_ok sp s i e" for u i e
    by (rule task_ok_cong; simp add: drop) (rule money_ok_cong; simp add: drop)
  with assms(2) drop show ?thesis unfolding saga_inv_def by auto
next
  case other
  have "saga_inv sp (s\<lparr>sg_calls := sg_calls s @ [Unrelated]\<rparr>)" by (rule inv_call [OF assms(2)]) auto
  with other show ?thesis by simp
qed

lemma saga_inv_steps: "(saga_step sp)\<^sup>*\<^sup>* s s' \<Longrightarrow> saga_inv sp s \<Longrightarrow> saga_inv sp s'"
  by (induction rule: rtranclp_induct) (auto intro: saga_inv_step)

end

section \<open>Tables and paths\<close>

text \<open>The entry of a resource in a table with a key column.\<close>

definition table_view :: "('r \<Rightarrow> 'k) \<Rightarrow> ('r \<Rightarrow> 'e) \<Rightarrow> 'r list \<Rightarrow> 'k \<Rightarrow> 'e option" where
  "table_view key entry rows i = map_option entry (find (\<lambda>r. key r = i) rows)"

lemma table_view_row:
  "distinct (map key rows) \<Longrightarrow> r \<in> set rows \<Longrightarrow> table_view key entry rows (key r) = Some (entry r)"
  by (simp add: table_view_def find_unique [where key = key and r = r and Q = "\<lambda>q. key q = key r"])

lemma table_view_none: "i \<notin> key ` set rows \<Longrightarrow> table_view key entry rows i = None"
  by (auto simp: table_view_def find_None_iff)

lemma table_view_append:
  "table_view key entry (rows @ [r]) i = (case table_view key entry rows i of
     None \<Rightarrow> (if key r = i then Some (entry r) else None) | Some e \<Rightarrow> Some e)"
  by (auto simp: table_view_def find_append split: option.splits)

lemma table_view_map:
  assumes "\<And>r. key (g r) = key r" and "\<And>r. entry (g r) = entry r"
  shows "table_view key entry (map g rows) = table_view key entry rows"
proof
  fix i
  have "find (\<lambda>r. key r = i) (map g rows) = map_option g (find (\<lambda>r. key r = i) rows)"
    by (induction rows) (auto simp: assms(1))
  then show "table_view key entry (map g rows) i = table_view key entry rows i"
    by (cases "find (\<lambda>r. key r = i) rows") (auto simp: table_view_def assms(2))
qed

lemma table_view_update:
  assumes "\<And>r. key (g r) = key r" and "distinct (map key rows)" and "row \<in> set rows" and "P row"
    and "\<And>r. P r \<Longrightarrow> key r = key row"
  shows "table_view key entry (sql_update P g rows) = (table_view key entry rows)(key row \<mapsto> entry (g row))"
proof
  fix i
  have eq: "find (\<lambda>r. key r = i) (sql_update P g rows) =
      map_option (\<lambda>r. if P r then g r else r) (find (\<lambda>r. key r = i) rows)"
    by (rule find_sql_update) (simp add: assms(1))
  show "table_view key entry (sql_update P g rows) i = ((table_view key entry rows)(key row \<mapsto> entry (g row))) i"
  proof (cases "i = key row")
    case True
    have "find (\<lambda>r. key r = i) rows = Some row"
      using True by (simp add: find_unique [where key = key and Q = "\<lambda>r. key r = key row", OF assms(2,3)])
    with eq assms(4) True show ?thesis by (simp add: table_view_def)
  next
    case False
    then have "\<not> P r" if "find (\<lambda>r. key r = i) rows = Some r" for r
      using assms(5) that by (auto dest: find_SomeD)
    with eq False show ?thesis
      by (cases "find (\<lambda>r. key r = i) rows") (auto simp: table_view_def)
  qed
qed

abbreviation saga_path :: "saga_spec \<Rightarrow> 'm saga \<Rightarrow> 'm saga \<Rightarrow> bool" where
  "saga_path sp \<equiv> (saga_step sp)\<^sup>*\<^sup>*"

lemma saga_eqI: "sg_view a = sg_view b \<Longrightarrow> sg_calls a = sg_calls b \<Longrightarrow> sg_tasks a = sg_tasks b \<Longrightarrow> (a :: 'm saga) = b"
  by (cases a; cases b) simp

lemma path_trans: "saga_path sp s s1 \<Longrightarrow> saga_path sp s1 s2 \<Longrightarrow> saga_path sp s s2"
  by (rule rtranclp_trans)

lemma path_step: "saga_step sp s s1 \<Longrightarrow> saga_path sp s1 s2 \<Longrightarrow> saga_path sp s s2"
  by (rule converse_rtranclp_into_rtranclp)

lemma drop_path: "ts \<subseteq> sg_tasks a \<Longrightarrow> saga_path sp a (a\<lparr>sg_tasks := ts\<rparr>)"
  by (rule r_into_rtranclp) (rule saga_step.drop)

lemma ask_path:
  assumes "Look i m st \<in> sg_tasks s" and "st \<in> set (sp_active sp)"
    and "to \<in> set (sp_active sp) \<union> set (sp_compensating sp)"
  shows "saga_path sp s (s\<lparr>sg_calls := sg_calls s @ [Provider i m], sg_tasks := insert (Move i st to False) (sg_tasks s)\<rparr>)"
proof -
  let ?s1 = "s\<lparr>sg_calls := sg_calls s @ [Provider i m]\<rparr>"
  have "saga_step sp s ?s1" by (rule saga_step.asked [OF assms(1,2)])
  moreover have "saga_step sp ?s1 (?s1\<lparr>sg_tasks := insert (Move i st to False) (sg_tasks ?s1)\<rparr>)"
    by (rule saga_step.answered [OF _ assms(2,3)]) (use assms(1) in simp)
  ultimately show ?thesis by (auto intro: path_step)
qed

lemma calls_path: "\<forall>c \<in> set h. c = Unrelated \<Longrightarrow> saga_path sp s (s\<lparr>sg_calls := sg_calls s @ h\<rparr>)"
proof (induction h rule: rev_induct)
  case (snoc c h)
  let ?s1 = "s\<lparr>sg_calls := sg_calls s @ h\<rparr>"
  have "saga_path sp s ?s1" using snoc by simp
  moreover have "saga_step sp ?s1 (?s1\<lparr>sg_calls := sg_calls ?s1 @ [Unrelated]\<rparr>)" by (rule saga_step.other)
  ultimately show ?case using snoc.prems by (auto intro: rtranclp.rtrancl_into_rtrancl)
qed simp

lemma looks_path:
  "\<forall>p \<in> set ps. \<exists>i m st d. f p = Look i m st \<and> sg_view s i = Some (m, st, d) \<Longrightarrow>
   saga_path sp s (s\<lparr>sg_tasks := f ` set ps \<union> sg_tasks s\<rparr>)"
proof (induction ps)
  case (Cons p ps)
  let ?s1 = "s\<lparr>sg_tasks := f ` set ps \<union> sg_tasks s\<rparr>"
  have "saga_path sp s ?s1" using Cons by simp
  moreover obtain i m st d where "f p = Look i m st" "sg_view ?s1 i = Some (m, st, d)"
    using Cons.prems by auto
  then have "saga_step sp ?s1 (?s1\<lparr>sg_tasks := insert (f p) (sg_tasks ?s1)\<rparr>)"
    by (metis saga_step.look)
  ultimately show ?case by (auto intro: rtranclp.rtrancl_into_rtrancl)
qed simp

end
