(* ===== verification/Worker.thy ===== *)
theory Worker
  imports Saga Ports
begin

text \<open>
  The workers of payouts and refunds as concurrent processes over a store: a request or a batch reads snapshots,
  a process decides on a snapshot (remote calls, no store access) and later sends one update. Requests, batches of any
  number of processes, events and crashes interleave. A worker that meets the contract \<open>saga_worker\<close> refines
  the saga.
\<close>

section \<open>The system\<close>

text \<open>
  \<open>wk_serve W w ps w'\<close>: an operation on the store that may hand out the snapshots \<open>ps\<close>.
\<close>

record ('s, 'p, 'u) worker =
  wk_serve :: "'s world \<Rightarrow> 'p list \<Rightarrow> 's world \<Rightarrow> bool"
  wk_decide :: "'p \<Rightarrow> ('s world, 'u option) go_io"
  wk_send :: "'u \<Rightarrow> ('s world, unit) go_io"

record ('s, 'p, 'u) worker_state =
  yy_world :: "'s world"
  yy_read :: "'p list"
  yy_send :: "'u list"

inductive worker_step :: "('s, 'p, 'u) worker \<Rightarrow> ('s, 'p, 'u) worker_state \<Rightarrow> ('s, 'p, 'u) worker_state \<Rightarrow> bool"
  for W :: "('s, 'p, 'u) worker" where
  served: "wk_serve W (yy_world s) ps w' \<Longrightarrow>
    worker_step W s (s\<lparr>yy_world := w', yy_read := ps @ yy_read s\<rparr>)"
| decided: "p \<in> set (yy_read s) \<Longrightarrow> wk_decide W p (yy_world s) = (Inr u, w') \<Longrightarrow>
    worker_step W s (s\<lparr>yy_world := w', yy_read := remove1 p (yy_read s),
      yy_send := (case u of None \<Rightarrow> [] | Some x \<Rightarrow> [x]) @ yy_send s\<rparr>)"
| sent: "u \<in> set (yy_send s) \<Longrightarrow> wk_send W u (yy_world s) = (r, w') \<Longrightarrow>
    worker_step W s (s\<lparr>yy_world := w', yy_send := remove1 u (yy_send s)\<rparr>)"
| crashed: "set ps \<subseteq> set (yy_read s) \<Longrightarrow> set us \<subseteq> set (yy_send s) \<Longrightarrow>
    worker_step W s (s\<lparr>yy_read := ps, yy_send := us\<rparr>)"

inductive_cases worker_stepE: "worker_step W s s'"

abbreviation worker_run :: "('s, 'p, 'u) worker \<Rightarrow> ('s, 'p, 'u) worker_state \<Rightarrow> ('s, 'p, 'u) worker_state \<Rightarrow> bool" where
  "worker_run W \<equiv> (worker_step W)\<^sup>*\<^sup>*"

text \<open>One turn without interruption.\<close>

definition worker_turn :: "('s, 'p, 'u) worker \<Rightarrow> 'p \<Rightarrow> ('s world, unit) go_io" where
  "worker_turn W p = io_bind (wk_decide W p) (\<lambda>u. case u of None \<Rightarrow> io_return () | Some x \<Rightarrow> wk_send W x)"

text \<open>Turns and batches that nothing interrupts are runs.\<close>

definition decides_always :: "('s, 'p, 'u) worker \<Rightarrow> bool" where
  "decides_always W \<longleftrightarrow> (\<forall>p w. \<exists>u w'. wk_decide W p w = (Inr u, w'))"

lemma turn_run:
  assumes "decides_always W" and "p \<in> set (yy_read s)" and "worker_turn W p (yy_world s) = (r, w')"
  shows "worker_run W s (s\<lparr>yy_world := w', yy_read := remove1 p (yy_read s)\<rparr>)"
proof -
  obtain u w1 where dec: "wk_decide W p (yy_world s) = (Inr u, w1)"
    using assms(1) unfolding decides_always_def by blast
  let ?s1 = "s\<lparr>yy_world := w1, yy_read := remove1 p (yy_read s), yy_send := (case u of None \<Rightarrow> [] | Some x \<Rightarrow> [x]) @ yy_send s\<rparr>"
  have one: "worker_step W s ?s1" by (rule worker_step.decided [OF assms(2) dec])
  have w': "(case u of None \<Rightarrow> io_return () | Some x \<Rightarrow> wk_send W x) w1 = (r, w')"
    using assms(3) dec by (simp add: worker_turn_def)
  show ?thesis
  proof (cases u)
    case None
    with one w' show ?thesis by (auto simp: io_simps)
  next
    case (Some x)
    have "worker_step W ?s1 (?s1\<lparr>yy_world := w', yy_send := remove1 x (yy_send ?s1)\<rparr>)"
      by (rule worker_step.sent [where r = r]) (use Some w' in simp_all)
    with one have "worker_run W s (?s1\<lparr>yy_world := w', yy_send := remove1 x (yy_send ?s1)\<rparr>)"
      by (rule converse_rtranclp_into_rtranclp [OF _ r_into_rtranclp])
    with Some show ?thesis by (cases s) simp
  qed
qed

lemma batch_run:
  assumes "io_each (worker_turn W) items w = (r, w')" and "yy_world s = w" and "yy_read s = items @ rest"
    and "decides_always W" and "\<And>p w. \<exists>w'. worker_turn W p w = (Inr (), w')"
  shows "worker_run W s (s\<lparr>yy_world := w', yy_read := rest\<rparr>)"
  using assms(1-3)
proof (induction items arbitrary: s w)
  case Nil
  then show ?case by (auto simp: io_simps)
next
  case (Cons p items)
  obtain w1 where p: "worker_turn W p w = (Inr (), w1)" using assms(5) by blast
  let ?s1 = "s\<lparr>yy_world := w1, yy_read := items @ rest\<rparr>"
  have "worker_run W s ?s1" using turn_run [OF assms(4), of p s] p Cons.prems(2,3) by simp
  moreover have "worker_run W ?s1 (?s1\<lparr>yy_world := w', yy_read := rest\<rparr>)"
    by (rule Cons.IH) (use Cons.prems(1) p in simp_all)
  ultimately show ?case by (auto intro: rtranclp_trans)
qed

text \<open>Changes of the world that are runs whatever snapshots and updates are under way, and leave those alone.\<close>

definition quiet_run :: "('s, 'p, 'u) worker \<Rightarrow> 's world \<Rightarrow> 's world \<Rightarrow> bool" where
  "quiet_run W w w' \<longleftrightarrow> (\<forall>s. yy_world s = w \<longrightarrow> worker_run W s (s\<lparr>yy_world := w'\<rparr>))"

lemma quiet_run_trans:
  fixes W :: "('s, 'p, 'u) worker"
  assumes "quiet_run W w w1" and "quiet_run W w1 w2"
  shows "quiet_run W w w2"
  unfolding quiet_run_def
proof (intro allI impI)
  fix s :: "('s, 'p, 'u) worker_state"
  assume "yy_world s = w"
  with assms(1) have "worker_run W s (s\<lparr>yy_world := w1\<rparr>)" by (simp add: quiet_run_def)
  also have "worker_run W (s\<lparr>yy_world := w1\<rparr>) (s\<lparr>yy_world := w1, yy_world := w2\<rparr>)"
    using assms(2) [unfolded quiet_run_def, rule_format, of "s\<lparr>yy_world := w1\<rparr>"] by simp
  finally show "worker_run W s (s\<lparr>yy_world := w2\<rparr>)" by simp
qed

lemma loop_run:
  assumes body: "\<And>w r w'. body w = (r, w') \<Longrightarrow> quiet_run W w w'"
    and "\<forall>f. Tick f \<in> set signals \<longrightarrow> (\<forall>w. quiet_run W w (f w))"
  shows "worker_run W s (s\<lparr>yy_world := snd (ticker_loop body signals (yy_world s))\<rparr>)"
proof -
  have "quiet_run W w (snd (ticker_loop body signals w))" for w
    by (rule ticker_loop_path [where R = "quiet_run W", OF body _ quiet_run_trans]) (use assms(2) in blast)+
  then show ?thesis by (simp add: quiet_run_def)
qed

section \<open>The abstraction\<close>

definition abs_worker ::
  "(call \<times> bool \<Rightarrow> 'm saga_event) \<Rightarrow> ('s \<Rightarrow> string \<Rightarrow> ('m \<times> string \<times> bool) option) \<Rightarrow> ('p \<Rightarrow> 'm saga_task) \<Rightarrow> ('u \<Rightarrow> 'm saga_task) \<Rightarrow>
   ('s, 'p, 'u) worker_state \<Rightarrow> 'm saga" where
  "abs_worker ev view look task s = \<lparr>sg_view = view (wstore (yy_world s)), sg_calls = map ev (wcalls (yy_world s)),
     sg_tasks = look ` set (yy_read s) \<union> task ` set (yy_send s)\<rparr>"

lemma abs_worker_simps [simp]:
  "sg_view (abs_worker ev view look task s) = view (wstore (yy_world s))"
  "sg_calls (abs_worker ev view look task s) = map ev (wcalls (yy_world s))"
  "sg_tasks (abs_worker ev view look task s) = look ` set (yy_read s) \<union> task ` set (yy_send s)"
  by (simp_all add: abs_worker_def)

definition worker_ok :: "('s \<Rightarrow> bool) \<Rightarrow> ('p \<Rightarrow> bool) \<Rightarrow> ('u \<Rightarrow> bool) \<Rightarrow> ('s, 'p, 'u) worker_state \<Rightarrow> bool" where
  "worker_ok ok good fit s \<longleftrightarrow> ok (wstore (yy_world s)) \<and> (\<forall>p \<in> set (yy_read s). good p) \<and> (\<forall>u \<in> set (yy_send s). fit u)"

text \<open>A system that starts without resources, calls and work.\<close>

definition worker_start :: "('s \<Rightarrow> bool) \<Rightarrow> ('s \<Rightarrow> string \<Rightarrow> ('m \<times> string \<times> bool) option) \<Rightarrow> ('s, 'p, 'u) worker_state \<Rightarrow> bool" where
  "worker_start ok view s \<longleftrightarrow> ok (wstore (yy_world s)) \<and> (\<forall>i. view (wstore (yy_world s)) i = None) \<and> wcalls (yy_world s) = [] \<and>
     yy_read s = [] \<and> yy_send s = []"

definition option_task :: "('u \<Rightarrow> 'm saga_task) \<Rightarrow> 'u option \<Rightarrow> 'm saga_task set" where
  "option_task task u = (case u of None \<Rightarrow> {} | Some x \<Rightarrow> {task x})"

definition decision_path ::
  "saga_spec \<Rightarrow> (call \<times> bool \<Rightarrow> 'm saga_event) \<Rightarrow> ('u \<Rightarrow> 'm saga_task) \<Rightarrow> 'm saga \<Rightarrow> 's world \<Rightarrow> 'u option \<Rightarrow> 's world \<Rightarrow> bool" where
  "decision_path sp ev task a w u w' \<longleftrightarrow> wstore w' = wstore w \<and>
     saga_path sp a (a\<lparr>sg_calls := map ev (wcalls w'), sg_tasks := option_task task u \<union> sg_tasks a\<rparr>)"

lemma decision_none: "sg_calls a = map ev (wcalls w) \<Longrightarrow> decision_path sp ev task a w None w"
  by (cases a) (simp add: decision_path_def option_task_def)

lemma decision_pathI:
  "wstore w' = wstore w \<Longrightarrow> wcalls w' = wcalls w @ h \<Longrightarrow> sg_calls a = map ev (wcalls w) \<Longrightarrow>
   saga_path sp a (a\<lparr>sg_calls := sg_calls a @ map ev h, sg_tasks := option_task task u \<union> sg_tasks a\<rparr>) \<Longrightarrow>
   decision_path sp ev task a w u w'"
  by (simp add: decision_path_def)

text \<open>The decisions a worker takes on one call, or on any number of calls to the provider.\<close>

lemma decision_debited:
  assumes "Look i m (sp_initial sp) \<in> sg_tasks a" and "wstore u = wstore w" and "map ev (wcalls u) = sg_calls a @ [Debit i m True]"
    and "task x = Move i (sp_initial sp) to True" and "to \<in> set (sp_active sp)"
  shows "decision_path sp ev task a w (Some x) u"
  using saga_step.debited [OF assms(1,5)] assms(2-4) by (auto simp: decision_path_def option_task_def)

lemma decision_refused:
  assumes "Look i m (sp_initial sp) \<in> sg_tasks a" and "wstore u = wstore w" and "map ev (wcalls u) = sg_calls a @ [Debit i m False]"
    and "\<forall>t \<in> option_task task y. t = Move i (sp_initial sp) (sp_rejected sp) False"
  shows "decision_path sp ev task a w y u"
proof -
  let ?a1 = "a\<lparr>sg_calls := sg_calls a @ [Debit i m False],
      sg_tasks := insert (Move i (sp_initial sp) (sp_rejected sp) False) (sg_tasks a)\<rparr>"
  have "saga_path sp a ?a1" using saga_step.debit_refused [OF assms(1)] by blast
  moreover have "saga_path sp ?a1 (?a1\<lparr>sg_tasks := option_task task y \<union> sg_tasks a\<rparr>)"
    by (rule drop_path) (use assms(4) in auto)
  ultimately have "saga_path sp a (?a1\<lparr>sg_tasks := option_task task y \<union> sg_tasks a\<rparr>)" by (rule path_trans)
  with assms(2,3) show ?thesis by (simp add: decision_path_def)
qed

lemma decision_credited:
  assumes "Look i m st \<in> sg_tasks a" and "st \<in> set (sp_compensating sp)" and "wstore u = wstore w"
    and "map ev (wcalls u) = sg_calls a @ [Credit i m True]" and "task x = Move i st (sp_credited sp st) False"
  shows "decision_path sp ev task a w (Some x) u"
  using saga_step.credited [OF assms(1,2)] assms(3-5) by (auto simp: decision_path_def option_task_def)

lemma decision_uncredited:
  assumes "Look i m st \<in> sg_tasks a" and "st \<in> set (sp_compensating sp)" and "wstore u = wstore w"
    and "map ev (wcalls u) = sg_calls a @ [Credit i m False]"
  shows "decision_path sp ev task a w None u"
  using saga_step.credit_refused [OF assms(1,2)] assms(3,4) by (auto simp: decision_path_def option_task_def)

lemma asked_path:
  assumes "Look i m st \<in> sg_tasks a" and "st \<in> set (sp_active sp)"
  shows "saga_path sp a (a\<lparr>sg_calls := sg_calls a @ replicate n (Provider i m)\<rparr>)"
proof (induction n)
  case (Suc n)
  let ?a1 = "a\<lparr>sg_calls := sg_calls a @ replicate n (Provider i m)\<rparr>"
  have "saga_step sp ?a1 (?a1\<lparr>sg_calls := sg_calls ?a1 @ [Provider i m]\<rparr>)"
    by (rule saga_step.asked [OF _ assms(2)]) (use assms(1) in simp)
  with Suc show ?case by (auto simp: replicate_append_same intro: rtranclp.rtrancl_into_rtrancl)
qed simp

lemma decision_asked:
  assumes "Look i m st \<in> sg_tasks a" and "st \<in> set (sp_active sp)" and "wstore u = wstore w"
    and "map ev (wcalls u) = sg_calls a @ replicate n (Provider i m)"
    and "\<forall>t \<in> option_task task y. \<exists>to \<in> set (sp_active sp) \<union> set (sp_compensating sp). t = Move i st to False"
  shows "decision_path sp ev task a w y u"
proof -
  let ?a1 = "a\<lparr>sg_calls := sg_calls a @ replicate n (Provider i m)\<rparr>"
  have asked: "saga_path sp a ?a1" by (rule asked_path [OF assms(1,2)])
  have "saga_path sp ?a1 (?a1\<lparr>sg_tasks := option_task task y \<union> sg_tasks ?a1\<rparr>)"
  proof (cases y)
    case None
    then show ?thesis by (simp add: option_task_def)
  next
    case (Some x)
    with assms(5) obtain to where "to \<in> set (sp_active sp) \<union> set (sp_compensating sp)" "task x = Move i st to False"
      by (auto simp: option_task_def)
    with saga_step.answered [of i m st ?a1 sp to] assms(1,2) Some show ?thesis by (auto simp: option_task_def)
  qed
  with asked have "saga_path sp a (?a1\<lparr>sg_tasks := option_task task y \<union> sg_tasks ?a1\<rparr>)" by (rule path_trans)
  with assms(3,4) show ?thesis by (simp add: decision_path_def)
qed

text \<open>Store operations that keep the view and make calls of no concern.\<close>

definition unrelated_calls :: "(call \<times> bool \<Rightarrow> 'm saga_event) \<Rightarrow> 's world \<Rightarrow> 't world \<Rightarrow> bool" where
  "unrelated_calls ev w w' \<longleftrightarrow> (\<exists>h. wcalls w' = wcalls w @ h \<and> (\<forall>c \<in> set h. ev c = Unrelated))"

lemma unrelated_refl [simp]: "unrelated_calls ev w (w\<lparr>wstore := s\<rparr>)" "unrelated_calls ev w w"
  by (auto simp: unrelated_calls_def)

lemma unrelated_path:
  assumes "unrelated_calls ev w w'" and "sg_calls a = map ev (wcalls w)"
  shows "saga_path sp a (a\<lparr>sg_calls := map ev (wcalls w')\<rparr>)"
proof -
  from assms(1) obtain h where h: "wcalls w' = wcalls w @ h" "\<forall>c \<in> set h. ev c = Unrelated"
    by (auto simp: unrelated_calls_def)
  with calls_path [of "map ev h" sp a] assms(2) show ?thesis by auto
qed

section \<open>The contract of a worker\<close>

definition serve_path ::
  "saga_spec \<Rightarrow> (call \<times> bool \<Rightarrow> 'm saga_event) \<Rightarrow> ('s \<Rightarrow> string \<Rightarrow> ('m \<times> string \<times> bool) option) \<Rightarrow> ('p \<Rightarrow> 'm saga_task) \<Rightarrow>
   's world \<Rightarrow> 'p list \<Rightarrow> 's world \<Rightarrow> bool" where
  "serve_path sp ev view look w ps w' \<longleftrightarrow> (\<forall>a. sg_view a = view (wstore w) \<longrightarrow> sg_calls a = map ev (wcalls w) \<longrightarrow>
     saga_path sp a (a\<lparr>sg_view := view (wstore w'), sg_calls := map ev (wcalls w'), sg_tasks := look ` set ps \<union> sg_tasks a\<rparr>))"

lemma serve_quiet:
  fixes view :: "'s \<Rightarrow> string \<Rightarrow> ('m \<times> string \<times> bool) option"
  assumes "view (wstore w') = view (wstore w)" and "unrelated_calls ev w w'"
  shows "serve_path sp ev view look w [] w'"
  unfolding serve_path_def
proof (intro allI impI)
  fix a :: "'m saga"
  assume a: "sg_view a = view (wstore w)" "sg_calls a = map ev (wcalls w)"
  have "saga_path sp a (a\<lparr>sg_calls := map ev (wcalls w')\<rparr>)" by (rule unrelated_path [OF assms(2) a(2)])
  moreover have "a\<lparr>sg_view := view (wstore w'), sg_calls := map ev (wcalls w'), sg_tasks := look ` set [] \<union> sg_tasks a\<rparr> =
      a\<lparr>sg_calls := map ev (wcalls w')\<rparr>"
    by (rule saga_eqI) (simp_all add: assms(1) a(1))
  ultimately show "saga_path sp a (a\<lparr>sg_view := view (wstore w'), sg_calls := map ev (wcalls w'), sg_tasks := look ` set [] \<union> sg_tasks a\<rparr>)"
    by (simp only:)
qed

text \<open>Snapshots of what is there may be handed out.\<close>

lemma serve_reads:
  fixes view :: "'s \<Rightarrow> string \<Rightarrow> ('m \<times> string \<times> bool) option"
  assumes "serve_path sp ev view look w [] w'"
    and "\<forall>p \<in> set ps. \<exists>i m st d. look p = Look i m st \<and> view (wstore w') i = Some (m, st, d)"
  shows "serve_path sp ev view look w ps w'"
  unfolding serve_path_def
proof (intro allI impI)
  fix a :: "'m saga"
  assume a: "sg_view a = view (wstore w)" "sg_calls a = map ev (wcalls w)"
  let ?a1 = "a\<lparr>sg_view := view (wstore w'), sg_calls := map ev (wcalls w'), sg_tasks := look ` set [] \<union> sg_tasks a\<rparr>"
  have "saga_path sp a ?a1" using assms(1) a unfolding serve_path_def by blast
  moreover have "saga_path sp ?a1 (?a1\<lparr>sg_tasks := look ` set ps \<union> sg_tasks ?a1\<rparr>)"
    by (rule looks_path) (use assms(2) in simp)
  ultimately show "saga_path sp a (a\<lparr>sg_view := view (wstore w'), sg_calls := map ev (wcalls w'), sg_tasks := look ` set ps \<union> sg_tasks a\<rparr>)"
    by (auto intro: path_trans)
qed

text \<open>One step of the saga on the view.\<close>

lemma serve_step:
  fixes view :: "'s \<Rightarrow> string \<Rightarrow> ('m \<times> string \<times> bool) option"
  assumes "wcalls w' = wcalls w"
    and "\<And>a. sg_view a = view (wstore w) \<Longrightarrow> saga_step sp a (a\<lparr>sg_view := view (wstore w')\<rparr>)"
  shows "serve_path sp ev view look w [] w'"
  unfolding serve_path_def
proof (intro allI impI)
  fix a :: "'m saga"
  assume a: "sg_view a = view (wstore w)" "sg_calls a = map ev (wcalls w)"
  have "a\<lparr>sg_view := view (wstore w'), sg_calls := map ev (wcalls w'), sg_tasks := look ` set [] \<union> sg_tasks a\<rparr> = a\<lparr>sg_view := view (wstore w')\<rparr>"
    by (rule saga_eqI) (simp_all add: assms(1) a(2))
  then show "saga_path sp a (a\<lparr>sg_view := view (wstore w'), sg_calls := map ev (wcalls w'), sg_tasks := look ` set [] \<union> sg_tasks a\<rparr>)"
    using assms(2) [OF a(1)] by (simp only: r_into_rtranclp)
qed

text \<open>A new resource, and its snapshot.\<close>

lemma serve_create:
  fixes view :: "'s \<Rightarrow> string \<Rightarrow> ('m \<times> string \<times> bool) option"
  assumes "unrelated_calls ev w w'" and "view (wstore w) i = None" and "look p = Look i m (sp_initial sp)"
    and "view (wstore w') = (view (wstore w))(i \<mapsto> (m, sp_initial sp, False))"
  shows "serve_path sp ev view look w [p] w'"
proof (rule serve_reads)
  show "serve_path sp ev view look w [] w'"
    unfolding serve_path_def
  proof (intro allI impI)
    fix a :: "'m saga"
    assume a: "sg_view a = view (wstore w)" "sg_calls a = map ev (wcalls w)"
    let ?a1 = "a\<lparr>sg_calls := map ev (wcalls w')\<rparr>"
    have "saga_path sp a ?a1" by (rule unrelated_path [OF assms(1) a(2)])
    moreover have "saga_step sp ?a1 (?a1\<lparr>sg_view := (sg_view ?a1)(i \<mapsto> (m, sp_initial sp, False))\<rparr>)"
      by (rule saga_step.create) (simp add: a assms(2))
    moreover have "a\<lparr>sg_view := view (wstore w'), sg_calls := map ev (wcalls w'), sg_tasks := look ` set [] \<union> sg_tasks a\<rparr> =
        ?a1\<lparr>sg_view := (sg_view ?a1)(i \<mapsto> (m, sp_initial sp, False))\<rparr>"
      by (rule saga_eqI) (simp_all add: assms(4) a(1))
    ultimately show "saga_path sp a (a\<lparr>sg_view := view (wstore w'), sg_calls := map ev (wcalls w'), sg_tasks := look ` set [] \<union> sg_tasks a\<rparr>)"
      by (metis rtranclp.rtrancl_into_rtrancl)
  qed
qed (auto simp: assms(3,4))

locale saga_worker = saga_statuses sp for sp :: saga_spec +
  fixes W :: "('s, 'p, 'u) worker"
    and ev :: "call \<times> bool \<Rightarrow> 'm saga_event"
    and view :: "'s \<Rightarrow> string \<Rightarrow> ('m \<times> string \<times> bool) option"
    and ok :: "'s \<Rightarrow> bool"
    and look :: "'p \<Rightarrow> 'm saga_task"
    and good :: "'p \<Rightarrow> bool"
    and task :: "'u \<Rightarrow> 'm saga_task"
    and fit :: "'u \<Rightarrow> bool"
  assumes serves: "ok (wstore w) \<Longrightarrow> wk_serve W w ps w' \<Longrightarrow>
      serve_path sp ev view look w ps w' \<and> ok (wstore w') \<and> (\<forall>p \<in> set ps. good p)"
    and decides: "look p \<in> sg_tasks a \<Longrightarrow> sg_calls a = map ev (wcalls w) \<Longrightarrow> wk_decide W p w = (r, w') \<Longrightarrow>
      \<exists>u. r = Inr u \<and> decision_path sp ev task a w u w'"
    and decides_fit: "good p \<Longrightarrow> wk_decide W p w = (Inr (Some u), w') \<Longrightarrow> fit u"
    and sends: "ok (wstore w) \<Longrightarrow> fit u \<Longrightarrow> wk_send W u w = (ru, w') \<Longrightarrow>
      wcalls w' = wcalls w \<and> ok (wstore w') \<and>
      (view (wstore w') = view (wstore w) \<or> (\<exists>i m frm to b d. task u = Move i frm to b \<and>
         view (wstore w) i = Some (m, frm, d) \<and> view (wstore w') = (view (wstore w))(i \<mapsto> (m, to, d \<or> b))))"
begin

lemma decide_total: "decides_always W"
  unfolding decides_always_def
proof (intro allI)
  fix p w
  obtain r w' where run: "wk_decide W p w = (r, w')" by force
  from decides [where a = "\<lparr>sg_view = \<lambda>_. None, sg_calls = map ev (wcalls w), sg_tasks = {look p}\<rparr>", OF _ _ run] run
  show "\<exists>u w'. wk_decide W p w = (Inr u, w')" by auto
qed

lemma sent_path:
  assumes "task u \<in> sg_tasks a" and "sg_view a = view (wstore w)"
    and "view v = view (wstore w) \<or> (\<exists>i m frm to b d. task u = Move i frm to b \<and>
         view (wstore w) i = Some (m, frm, d) \<and> view v = (view (wstore w))(i \<mapsto> (m, to, d \<or> b)))"
  shows "saga_path sp a (a\<lparr>sg_view := view v\<rparr>)"
  using assms(3)
proof
  assume "view v = view (wstore w)"
  with assms(2) have "a\<lparr>sg_view := view v\<rparr> = a" by (intro saga_eqI) simp_all
  then show ?thesis by simp
next
  assume "\<exists>i m frm to b d. task u = Move i frm to b \<and>
     view (wstore w) i = Some (m, frm, d) \<and> view v = (view (wstore w))(i \<mapsto> (m, to, d \<or> b))"
  then obtain i m frm to b d where mv: "task u = Move i frm to b" "view (wstore w) i = Some (m, frm, d)"
    "view v = (view (wstore w))(i \<mapsto> (m, to, d \<or> b))" by blast
  have "saga_step sp a (a\<lparr>sg_view := (sg_view a)(i \<mapsto> (m, to, d \<or> b))\<rparr>)"
    by (rule saga_step.move) (use assms(1,2) mv in auto)
  then show ?thesis using assms(2) mv(3) by (simp only: r_into_rtranclp)
qed

text \<open>Each step of the system is a path of the saga, and keeps the invariant of the store.\<close>

lemma step_path:
  assumes "worker_step W s s'" and "worker_ok ok good fit s"
  shows "saga_path sp (abs_worker ev view look task s) (abs_worker ev view look task s') \<and> worker_ok ok good fit s'"
  using assms(1)
proof cases
  case (served ps w')
  from serves [OF _ served(2)] assms(2) have sv: "serve_path sp ev view look (yy_world s) ps w'" "ok (wstore w')" "\<forall>p \<in> set ps. good p"
    by (auto simp: worker_ok_def)
  let ?a = "abs_worker ev view look task s"
  have "saga_path sp ?a (?a\<lparr>sg_view := view (wstore w'), sg_calls := map ev (wcalls w'), sg_tasks := look ` set ps \<union> sg_tasks ?a\<rparr>)"
    by (rule sv(1) [unfolded serve_path_def, rule_format]) simp_all
  moreover have "abs_worker ev view look task s' =
      ?a\<lparr>sg_view := view (wstore w'), sg_calls := map ev (wcalls w'), sg_tasks := look ` set ps \<union> sg_tasks ?a\<rparr>"
    by (rule saga_eqI) (auto simp: served(1))
  ultimately show ?thesis using sv assms(2) served(1) by (auto simp: worker_ok_def)
next
  case (decided p u w')
  let ?a = "abs_worker ev view look task s"
  from decides [of p ?a "yy_world s", OF _ _ decided(3)] decided(2) have dp: "decision_path sp ev task ?a (yy_world s) u w'" by simp
  let ?a1 = "?a\<lparr>sg_calls := map ev (wcalls w'), sg_tasks := option_task task u \<union> sg_tasks ?a\<rparr>"
  have "abs_worker ev view look task s' = ?a1\<lparr>sg_tasks := sg_tasks (abs_worker ev view look task s')\<rparr>"
    by (rule saga_eqI) (use dp in \<open>simp_all add: decided(1) decision_path_def\<close>)
  moreover have "sg_tasks (abs_worker ev view look task s') \<subseteq> sg_tasks ?a1"
    using set_remove1_subset [of p "yy_read s"] by (auto simp: decided(1) option_task_def split: option.split)
  then have "saga_path sp ?a1 (?a1\<lparr>sg_tasks := sg_tasks (abs_worker ev view look task s')\<rparr>)" by (rule drop_path)
  ultimately have "saga_path sp ?a (abs_worker ev view look task s')"
    using dp by (auto simp: decision_path_def intro: path_trans)
  moreover have "worker_ok ok good fit s'"
    using assms(2) dp decided decides_fit [of p "yy_world s"] set_remove1_subset [of p "yy_read s"]
    by (auto simp: worker_ok_def decision_path_def split: option.split)
  ultimately show ?thesis ..
next
  case (sent u r w')
  let ?a = "abs_worker ev view look task s"
  from sends [OF _ _ sent(3)] assms(2) sent(2) have sd: "wcalls w' = wcalls (yy_world s)" "ok (wstore w')"
    "view (wstore w') = view (wstore (yy_world s)) \<or> (\<exists>i m frm to b d. task u = Move i frm to b \<and>
       view (wstore (yy_world s)) i = Some (m, frm, d) \<and> view (wstore w') = (view (wstore (yy_world s)))(i \<mapsto> (m, to, d \<or> b)))"
    by (auto simp: worker_ok_def)
  have "saga_path sp ?a (?a\<lparr>sg_view := view (wstore w')\<rparr>)"
    by (rule sent_path [where u = u, OF _ _ sd(3)]) (use sent(2) in auto)
  moreover have "sg_tasks (abs_worker ev view look task s') \<subseteq> sg_tasks (?a\<lparr>sg_view := view (wstore w')\<rparr>)"
    using set_remove1_subset [of u "yy_send s"] by (auto simp: sent(1))
  then have "saga_path sp (?a\<lparr>sg_view := view (wstore w')\<rparr>) (?a\<lparr>sg_view := view (wstore w'), sg_tasks := sg_tasks (abs_worker ev view look task s')\<rparr>)"
    by (drule_tac drop_path [where sp = sp]) simp
  moreover have "?a\<lparr>sg_view := view (wstore w'), sg_tasks := sg_tasks (abs_worker ev view look task s')\<rparr> = abs_worker ev view look task s'"
    by (rule saga_eqI) (simp_all add: sent(1) sd(1))
  ultimately have "saga_path sp ?a (abs_worker ev view look task s')" by (metis path_trans)
  moreover have "worker_ok ok good fit s'"
    using assms(2) sd(2) sent(1) set_remove1_subset [of u "yy_send s"] by (auto simp: worker_ok_def)
  ultimately show ?thesis ..
next
  case (crashed ps us)
  let ?a = "abs_worker ev view look task s"
  have "sg_tasks (abs_worker ev view look task s') \<subseteq> sg_tasks ?a" using crashed by auto
  from drop_path [OF this] have "saga_path sp ?a (?a\<lparr>sg_tasks := sg_tasks (abs_worker ev view look task s')\<rparr>)" .
  moreover have "?a\<lparr>sg_tasks := sg_tasks (abs_worker ev view look task s')\<rparr> = abs_worker ev view look task s'"
    by (rule saga_eqI) (simp_all add: crashed(1))
  ultimately have "saga_path sp ?a (abs_worker ev view look task s')" by simp
  moreover have "worker_ok ok good fit s'" using assms(2) crashed by (auto simp: worker_ok_def)
  ultimately show ?thesis ..
qed

lemma run_path:
  assumes "worker_run W s s'" and "worker_ok ok good fit s"
  shows "saga_path sp (abs_worker ev view look task s) (abs_worker ev view look task s') \<and> worker_ok ok good fit s'"
  using assms
proof (induction rule: rtranclp_induct)
  case (step t u)
  with step_path [of t u] show ?case by (auto intro: path_trans)
qed simp

lemma start_inv:
  assumes "worker_start ok view s"
  shows "worker_ok ok good fit s \<and> saga_inv sp (abs_worker ev view look task s)"
  using assms by (auto simp: worker_start_def worker_ok_def saga_inv_def never_credited_def)

lemma reachable_inv:
  assumes "worker_start ok view s0" and "worker_run W s0 s"
  shows "saga_inv sp (abs_worker ev view look task s)" and "worker_ok ok good fit s"
  using run_path [OF assms(2)] start_inv [OF assms(1)] saga_inv_steps by blast+

text \<open>Calls to the provider and credits come after the debit.\<close>

lemma debited_before:
  assumes "worker_start ok view s0" and "worker_run W s0 s" and "wcalls (yy_world s) = h1 @ c # h2"
    and "ev c = Provider i m \<or> ev c = Credit i m b"
  shows "Debit i m True \<in> ev ` set h1"
proof -
  have "debit_first (map ev h1 @ ev c # map ev h2)"
    using reachable_inv(1) [OF assms(1,2)] assms(3) by (simp add: saga_inv_def)
  from debit_firstD [OF this assms(4)] show ?thesis by simp
qed

lemma money_settled:
  assumes "worker_start ok view s0" and "worker_run W s0 s" and "view (wstore (yy_world s)) i = Some (m, st, d)"
  shows "(d \<longrightarrow> Debit i m True \<in> ev ` set (wcalls (yy_world s)))
    \<and> (st \<in> set (sp_active sp) \<longrightarrow> d)
    \<and> (st = sp_initial sp \<or> st \<in> set (sp_active sp) \<longrightarrow> (\<forall>m' b. Credit i m' b \<notin> ev ` set (wcalls (yy_world s))))
    \<and> (d \<and> st \<in> sp_credited sp ` set (sp_compensating sp) \<longrightarrow> Credit i m True \<in> ev ` set (wcalls (yy_world s)))"
proof -
  have "money_ok sp (abs_worker ev view look task s) i (m, st, d)"
    by (rule saga_moneyD [OF reachable_inv(1) [OF assms(1,2)]]) (simp add: assms(3))
  note parts = this [unfolded money_ok_def prod.case]
  have marked: "st \<in> set (sp_active sp) \<longrightarrow> d"
    using parts [THEN conjunct2, THEN conjunct1] by blast
  have after: "d \<longrightarrow> st \<in> set (sp_active sp) \<union> set (sp_compensating sp) \<union> sp_credited sp ` set (sp_compensating sp)"
    by (rule parts [THEN conjunct2, THEN conjunct2, THEN conjunct1])
  have debited: "d \<longrightarrow> Debit i m True \<in> ev ` set (wcalls (yy_world s))"
    using parts [THEN conjunct2, THEN conjunct2, THEN conjunct2, THEN conjunct1] by simp
  have quiet: "st \<notin> set (sp_compensating sp) \<and> (d \<longrightarrow> st \<in> set (sp_active sp)) \<longrightarrow> never_credited i (map ev (wcalls (yy_world s)))"
    using parts [THEN conjunct2, THEN conjunct2, THEN conjunct2, THEN conjunct2, THEN conjunct1] by simp
  have settled: "d \<and> st \<in> sp_credited sp ` set (sp_compensating sp) \<longrightarrow> Credit i m True \<in> ev ` set (wcalls (yy_world s))"
    using parts [THEN conjunct2, THEN conjunct2, THEN conjunct2, THEN conjunct2, THEN conjunct2] by simp
  have "st = sp_initial sp \<longrightarrow> \<not> d" using after initial_apart by blast
  moreover have "st = sp_initial sp \<or> st \<in> set (sp_active sp) \<longrightarrow> st \<notin> set (sp_compensating sp)"
    using initial_apart active_apart by blast
  ultimately have "st = sp_initial sp \<or> st \<in> set (sp_active sp) \<longrightarrow> (\<forall>m' b. Credit i m' b \<notin> ev ` set (wcalls (yy_world s)))"
    using quiet by (auto simp: never_credited_def)
  with marked debited settled show ?thesis by blast
qed

end

end
