(* ===== verification/Payout_Decision.thy ===== *)
theory Payout_Decision
  imports Pg_Payouts Pg_Service Payouts_App Worker
begin

text \<open>
  One turn of the payout worker: \<^verbatim>\<open>process\<close> split into the calls it makes and the update it decides on,
  and the paths of the saga that a decision takes.
\<close>

section \<open>The service on PostgreSQL\<close>

definition pg_payouts ::
  "pg_env \<Rightarrow> pg_auth_config \<Rightarrow> router \<Rightarrow> payout_connector \<Rightarrow> payout_ledger option \<Rightarrow> (create_payout \<Rightarrow> string) \<Rightarrow>
   pgstate payouts" where
  "pg_payouts E cfg rt cn lg marshal = \<lparr>ys_store = pg_payout_store E, ys_router = rt, ys_connector = cn,
     ys_ledger = lg, ys_auth = pg_auth E cfg, ys_sha256 = en_sha256 E, ys_marshal = marshal\<rparr>"

lemma pg_payouts_parts [simp]:
  "ys_store (pg_payouts E cfg rt cn lg marshal) = pg_payout_store E" "ys_router (pg_payouts E cfg rt cn lg marshal) = rt"
  "ys_connector (pg_payouts E cfg rt cn lg marshal) = cn" "ys_ledger (pg_payouts E cfg rt cn lg marshal) = lg"
  "ys_auth (pg_payouts E cfg rt cn lg marshal) = pg_auth E cfg"
  "ys_sha256 (pg_payouts E cfg rt cn lg marshal) = en_sha256 E" "ys_marshal (pg_payouts E cfg rt cn lg marshal) = marshal"
  by (simp_all add: pg_payouts_def)

section \<open>Calls, then one update\<close>

type_synonym payout_update = "string \<times> string \<times> jmap"

text \<open>\<^verbatim>\<open>process\<close> without its update: what it calls and which update it decides on.\<close>

definition provider_update :: "payout \<Rightarrow> provider_payout \<Rightarrow> payout_update" where
  "provider_update p result = (po_PayoutID p, Payouts_next (ppo_Status result),
     mput ''destinationAmount'' (JStr (ppo_DestinationAmount result)) (mput ''providerStatus'' (JStr (ppo_RawStatus result))
       (mput ''providerReference'' (JStr (ppo_ProviderReference result)) (mput ''providerPayoutId'' (JStr (ppo_ProviderPayoutID result))
         (mput ''providerSubmitted'' (JBool True) (transition (po_OperationalStatus p)))))))"

definition failure_update :: "payout \<Rightarrow> string \<Rightarrow> string \<Rightarrow> string \<Rightarrow> payout_update" where
  "failure_update p st nx msg = (po_PayoutID p, nx, mput ''lastError'' (JStr msg) (transition st))"

definition decide_debit :: "'s payouts \<Rightarrow> payout \<Rightarrow> ('s world, payout_update option) go_io" where
  "decide_debit s p = (case ys_ledger s of
       None \<Rightarrow> io_return None
     | Some l \<Rightarrow> io_bind (io_try (debit_payout l p)) (\<lambda>r. io_return (case r of
           Inl err \<Rightarrow> if errors_is err ErrInsufficientBalance
             then Some (failure_update p ''pending_debit'' ''failed'' ''insufficient balance'') else None
         | Inr _ \<Rightarrow> Some (po_PayoutID p, ''pending_provider'', mput ''balanceDebited'' (JBool True) (transition ''pending_debit'')))))"

definition decide_submit :: "'s payouts \<Rightarrow> payout \<Rightarrow> ('s world, payout_update option) go_io" where
  "decide_submit s p = io_bind (io_try (ask_create_payout s p)) (\<lambda>r. case r of
       Inr result \<Rightarrow> io_return (Some (provider_update p result))
     | Inl err \<Rightarrow>
         if errors_is err ErrProviderRejected
         then io_return (Some (failure_update p ''pending_provider'' ''pending_compensation'' ''provider rejected payout''))
         else io_bind (io_try (ask_get_payout s p)) (\<lambda>r. io_return (Some (case r of
             Inl _ \<Rightarrow> failure_update p ''pending_provider'' ''provider_unknown'' ''provider create result is ambiguous''
           | Inr result \<Rightarrow> provider_update p result))))"

definition decide_poll :: "'s payouts \<Rightarrow> payout \<Rightarrow> ('s world, payout_update option) go_io" where
  "decide_poll s p = io_bind (io_try (ask_get_payout s p)) (\<lambda>r. io_return (case r of
       Inl _ \<Rightarrow> None | Inr result \<Rightarrow> Some (provider_update p result)))"

definition payout_credited :: "string \<Rightarrow> string" where
  "payout_credited st = (if st = ''pending_compensation_reversed'' then ''reversed''
     else if st = ''pending_compensation_cancelled'' then ''cancelled'' else ''failed'')"

definition decide_credit :: "'s payouts \<Rightarrow> payout \<Rightarrow> ('s world, payout_update option) go_io" where
  "decide_credit s p = (case ys_ledger s of
       None \<Rightarrow> io_return None
     | Some l \<Rightarrow> io_bind (io_try (credit_payout l p)) (\<lambda>r. io_return (case r of
           Inl _ \<Rightarrow> None
         | Inr _ \<Rightarrow> Some (po_PayoutID p, payout_credited (po_OperationalStatus p), transition (po_OperationalStatus p)))))"

definition payout_saga :: saga_spec where
  "payout_saga = \<lparr>sp_initial = ''pending_debit'',
     sp_active = [''pending_provider'', ''provider_unknown'', ''processing'', ''confirmed''],
     sp_compensating = [''pending_compensation'', ''pending_compensation_cancelled'', ''pending_compensation_reversed''],
     sp_credited = payout_credited, sp_rejected = ''failed''\<rparr>"

definition payout_decide :: "'s payouts \<Rightarrow> payout \<Rightarrow> ('s world, payout_update option) go_io" where
  "payout_decide s p =
     (let st = po_OperationalStatus p in
      if st = ''pending_debit'' then decide_debit s p
      else if st = ''pending_provider'' then decide_submit s p
      else if st = ''provider_unknown'' \<or> st = ''processing'' then decide_poll s p
      else if st \<in> set (sp_compensating payout_saga) then decide_credit s p
      else io_return None)"

definition send_decided :: "'s payouts \<Rightarrow> payout_update option \<Rightarrow> ('s world, unit) go_io" where
  "send_decided s u = (case u of None \<Rightarrow> io_return () | Some (i, nx, f) \<Rightarrow> send_payout_update s i nx f)"

lemmas decide_simps = payout_decide_def decide_debit_def decide_submit_def decide_poll_def decide_credit_def
  provider_update_def failure_update_def payout_credited_def Let_def

lemmas split_simps = decide_simps send_decided_def Payouts_process_def Payouts_applyProvider_def
  io_bind_assoc io_bind_return io_bind_sum io_bind_if

lemma process_splits: "Payouts_process s p = io_bind (payout_decide s p) (send_decided s)"
  by (auto simp: split_simps payout_saga_def intro!: io_bind_cong split: option.split sum.split)

section \<open>What the saga sees of it\<close>

type_synonym payout_money = "string \<times> string \<times> string"

definition payout_money :: "payout \<Rightarrow> payout_money" where
  "payout_money p = (po_AccountID p, mo_Amount (po_Source p), mo_Currency (po_Source p))"

fun payout_event :: "call \<times> bool \<Rightarrow> payout_money saga_event" where
  "payout_event (CallDebitPayout a i m c, ok) = Debit i (a, m, c) ok"
| "payout_event (CallCreditFailedPayout a i m c, ok) = Credit i (a, m, c) ok"
| "payout_event (CallCreatePayout r p k, ok) = Provider (po_PayoutID p) (payout_money p)"
| "payout_event (CallGetPayout r p, ok) = Provider (po_PayoutID p) (payout_money p)"
| "payout_event (_, ok) = Unrelated"

definition payout_look :: "payout \<Rightarrow> payout_money saga_task" where
  "payout_look p = Look (po_PayoutID p) (payout_money p) (po_OperationalStatus p)"

definition update_task :: "payout_update \<Rightarrow> payout_money saga_task" where
  "update_task = (\<lambda>(i, nx, f). Move i (expected_status f) nx (as_bool (mget f ''balanceDebited'')))"

lemma payout_saga_simps [simp]:
  "sp_initial payout_saga = ''pending_debit''" "sp_rejected payout_saga = ''failed''"
  "sp_active payout_saga = [''pending_provider'', ''provider_unknown'', ''processing'', ''confirmed'']"
  "sp_compensating payout_saga = [''pending_compensation'', ''pending_compensation_cancelled'', ''pending_compensation_reversed'']"
  "sp_credited payout_saga = payout_credited"
  by (simp_all add: payout_saga_def)

interpretation payout_statuses: saga_statuses payout_saga
  by unfold_locales (simp_all add: payout_credited_def)

lemma update_task_simps:
  "update_task (provider_update p result) = Move (po_PayoutID p) (po_OperationalStatus p) (Payouts_next (ppo_Status result)) False"
  "update_task (failure_update p st nx msg) = Move (po_PayoutID p) st nx False"
  "update_task (i, nx, mput ''balanceDebited'' (JBool True) (transition st)) = Move i st nx True"
  "update_task (i, nx, transition st) = Move i st nx False"
  by (simp_all add: update_task_def provider_update_def failure_update_def expected_status_def transition_def
      as_string_def as_bool_def)

lemma Payouts_next_target: "Payouts_next v \<in> set (sp_active payout_saga) \<union> set (sp_compensating payout_saga)"
  by (simp add: Payouts_next_def)

text \<open>The paths of the saga that a decision takes.\<close>

abbreviation payout_path :: "payout_money saga \<Rightarrow> payout_money saga \<Rightarrow> bool" where
  "payout_path \<equiv> saga_path payout_saga"

abbreviation payout_decided ::
  "payout_money saga \<Rightarrow> 's world \<Rightarrow> payout_update option \<Rightarrow> 's world \<Rightarrow> bool" where
  "payout_decided \<equiv> decision_path payout_saga payout_event update_task"

lemma debit_decision:
  assumes "payout_look p \<in> sg_tasks s" and "sg_calls s = map payout_event (wcalls w)"
    and "po_OperationalStatus p = ''pending_debit''" and "decide_debit sv p w = (r, w')"
  shows "\<exists>u. r = Inr u \<and> payout_decided s w u w'"
proof (cases "ys_ledger sv")
  case None
  with assms(2,4) show ?thesis by (auto simp: decide_debit_def io_simps decision_none)
next
  case (Some l)
  let ?i = "po_PayoutID p" and ?m = "payout_money p"
  have look: "Look ?i ?m (sp_initial payout_saga) \<in> sg_tasks s" using assms(1,3) by (simp add: payout_look_def)
  from assms(4) Some obtain x u where call: "debit_payout l p w = (x, u)"
    and dec: "(r, w') = (Inr (case x of
        Inl err \<Rightarrow> if errors_is err ErrInsufficientBalance
          then Some (failure_update p ''pending_debit'' ''failed'' ''insufficient balance'') else None
      | Inr _ \<Rightarrow> Some (?i, ''pending_provider'', mput ''balanceDebited'' (JBool True) (transition ''pending_debit''))), u)"
    by (auto simp: decide_debit_def io_simps elim!: io_tryE)
  from call have u: "wstore u = wstore w" "map payout_event (wcalls u) = sg_calls s @ [Debit ?i ?m (\<not> isl x)]"
    using assms(2) by (auto simp: debit_payout_def payout_money_def dest!: ext_callD)
  show ?thesis
  proof (cases x)
    case (Inr a)
    with dec decision_debited [OF look, of u w payout_event update_task] u show ?thesis by (auto simp: update_task_simps)
  next
    case (Inl err)
    have "payout_decided s w (if errors_is err ErrInsufficientBalance
        then Some (failure_update p ''pending_debit'' ''failed'' ''insufficient balance'') else None) u"
      by (rule decision_refused [OF look]) (use u Inl in \<open>simp_all add: option_task_def update_task_simps(2)\<close>)
    with dec Inl show ?thesis by auto
  qed
qed

lemma credit_decision:
  assumes "payout_look p \<in> sg_tasks s" and "sg_calls s = map payout_event (wcalls w)"
    and "po_OperationalStatus p \<in> set (sp_compensating payout_saga)" and "decide_credit sv p w = (r, w')"
  shows "\<exists>u. r = Inr u \<and> payout_decided s w u w'"
proof (cases "ys_ledger sv")
  case None
  with assms(2,4) show ?thesis by (auto simp: decide_credit_def io_simps decision_none)
next
  case (Some l)
  let ?i = "po_PayoutID p" and ?m = "payout_money p" and ?st = "po_OperationalStatus p"
  have look: "Look ?i ?m ?st \<in> sg_tasks s" using assms(1) by (simp add: payout_look_def)
  from assms(4) Some obtain x u where call: "credit_payout l p w = (x, u)"
    and dec: "(r, w') = (Inr (case x of Inl _ \<Rightarrow> None | Inr _ \<Rightarrow> Some (?i, payout_credited ?st, transition ?st)), u)"
    by (auto simp: decide_credit_def io_simps elim!: io_tryE)
  from call have u: "wstore u = wstore w" "map payout_event (wcalls u) = sg_calls s @ [Credit ?i ?m (\<not> isl x)]"
    using assms(2) by (auto simp: credit_payout_def payout_money_def dest!: ext_callD)
  show ?thesis
  proof (cases x)
    case (Inr a)
    with dec decision_credited [OF look assms(3) u(1), of payout_event update_task] u show ?thesis by (auto simp: update_task_simps)
  next
    case (Inl err)
    with dec decision_uncredited [OF look assms(3) u(1)] u show ?thesis by auto
  qed
qed

text \<open>Calls to the provider, seen by the saga.\<close>

lemma asked_result:
  "ask_get_payout sv p w = (x, u) \<Longrightarrow> wstore u = wstore w \<and>
     map payout_event (wcalls u) = map payout_event (wcalls w) @ [Provider (po_PayoutID p) (payout_money p)]"
  "ask_create_payout sv p w = (x, u) \<Longrightarrow> wstore u = wstore w \<and>
     map payout_event (wcalls u) = map payout_event (wcalls w) @ [Provider (po_PayoutID p) (payout_money p)]"
  by (auto simp: ask_get_payout_def ask_create_payout_def dest!: ext_callD)

lemma asked_decision:
  assumes "payout_look p \<in> sg_tasks s" and "sg_calls s = map payout_event (wcalls w)"
    and "po_OperationalStatus p \<in> set (sp_active payout_saga)" and "wstore u = wstore w"
    and "map payout_event (wcalls u) = sg_calls s @ replicate n (Provider (po_PayoutID p) (payout_money p))"
    and "\<forall>t \<in> option_task update_task y. \<exists>to \<in> set (sp_active payout_saga) \<union> set (sp_compensating payout_saga).
      t = Move (po_PayoutID p) (po_OperationalStatus p) to False"
  shows "payout_decided s w y u"
  by (rule decision_asked [OF _ assms(3-6)]) (use assms(1) in \<open>simp add: payout_look_def\<close>)

lemmas asked_updates = option_task_def update_task_simps(1,2) Payouts_next_target [simplified]

lemma poll_decision:
  assumes "payout_look p \<in> sg_tasks s" and "sg_calls s = map payout_event (wcalls w)"
    and "po_OperationalStatus p \<in> set (sp_active payout_saga)" and "decide_poll sv p w = (r, w')"
  shows "\<exists>u. r = Inr u \<and> payout_decided s w u w'"
proof -
  from assms(4) obtain x where call: "ask_get_payout sv p w = (x, w')"
    and r: "r = Inr (case x of Inl _ \<Rightarrow> None | Inr result \<Rightarrow> Some (provider_update p result))"
    by (auto simp: decide_poll_def io_simps elim!: io_tryE)
  from asked_result(1) [OF call] assms(2) have w': "wstore w' = wstore w"
    "map payout_event (wcalls w') = sg_calls s @ replicate 1 (Provider (po_PayoutID p) (payout_money p))" by simp_all
  have "payout_decided s w (case x of Inl _ \<Rightarrow> None | Inr result \<Rightarrow> Some (provider_update p result)) w'"
    by (rule asked_decision [OF assms(1-3) w'])
       (simp add: asked_updates split: sum.split)
  with r show ?thesis by blast
qed

lemma submit_decision:
  assumes "payout_look p \<in> sg_tasks s" and "sg_calls s = map payout_event (wcalls w)"
    and "po_OperationalStatus p = ''pending_provider''" and "decide_submit sv p w = (r, w')"
  shows "\<exists>u. r = Inr u \<and> payout_decided s w u w'"
proof -
  let ?P = "Provider (po_PayoutID p) (payout_money p)"
  have active: "po_OperationalStatus p \<in> set (sp_active payout_saga)" using assms(3) by simp
  note decision = asked_decision [OF assms(1,2) active]
  from assms(4) obtain x v where call: "ask_create_payout sv p w = (x, v)"
    and rest: "(case x of Inr result \<Rightarrow> io_return (Some (provider_update p result))
     | Inl err \<Rightarrow>
         if errors_is err ErrProviderRejected
         then io_return (Some (failure_update p ''pending_provider'' ''pending_compensation'' ''provider rejected payout''))
         else io_bind (io_try (ask_get_payout sv p)) (\<lambda>r. io_return (Some (case r of
             Inl _ \<Rightarrow> failure_update p ''pending_provider'' ''provider_unknown'' ''provider create result is ambiguous''
           | Inr result \<Rightarrow> provider_update p result)))) v = (r, w')"
    by (auto simp: decide_submit_def elim!: io_tryE)
  from asked_result(2) [OF call] assms(2) have v: "wstore v = wstore w" "map payout_event (wcalls v) = sg_calls s @ replicate 1 ?P"
    by simp_all
  show ?thesis
  proof (cases "\<exists>err. x = Inl err \<and> \<not> errors_is err ErrProviderRejected")
    case True
    with rest obtain y where call2: "ask_get_payout sv p v = (y, w')"
      and r: "r = Inr (Some (case y of
           Inl _ \<Rightarrow> failure_update p ''pending_provider'' ''provider_unknown'' ''provider create result is ambiguous''
         | Inr result \<Rightarrow> provider_update p result))"
      by (auto simp: io_simps elim!: io_tryE)
    from asked_result(1) [OF call2] v have w': "wstore w' = wstore w" "map payout_event (wcalls w') = sg_calls s @ replicate 2 ?P"
      by (simp_all add: numeral_2_eq_2)
    have "payout_decided s w (Some (case y of
           Inl _ \<Rightarrow> failure_update p ''pending_provider'' ''provider_unknown'' ''provider create result is ambiguous''
         | Inr result \<Rightarrow> provider_update p result)) w'"
      by (rule decision [OF w']) (simp add: asked_updates assms(3) split: sum.split)
    with r show ?thesis by blast
  next
    case False
    with rest have "w' = v" and r: "r = Inr (Some (case x of Inr result \<Rightarrow> provider_update p result
       | Inl _ \<Rightarrow> failure_update p ''pending_provider'' ''pending_compensation'' ''provider rejected payout''))"
      by (auto simp: io_simps split: sum.splits)
    have "payout_decided s w (Some (case x of Inr result \<Rightarrow> provider_update p result
       | Inl _ \<Rightarrow> failure_update p ''pending_provider'' ''pending_compensation'' ''provider rejected payout'')) v"
      by (rule decision [OF v]) (simp add: asked_updates assms(3) split: sum.split)
    with r \<open>w' = v\<close> show ?thesis by blast
  qed
qed

lemma payout_decision:
  assumes "payout_look p \<in> sg_tasks s" and "sg_calls s = map payout_event (wcalls w)"
    and "payout_decide sv p w = (r, w')"
  shows "\<exists>u. r = Inr u \<and> payout_decided s w u w'"
proof -
  let ?st = "po_OperationalStatus p"
  consider "?st = ''pending_debit''" | "?st = ''pending_provider''" | "?st \<in> {''provider_unknown'', ''processing''}"
    | "?st \<in> set (sp_compensating payout_saga)" | "payout_decide sv p = io_return None"
    using that by (cases "?st = ''pending_debit''"; cases "?st = ''pending_provider''";
      cases "?st \<in> {''provider_unknown'', ''processing''}"; cases "?st \<in> set (sp_compensating payout_saga)")
      (auto simp: payout_decide_def Let_def)
  then show ?thesis
  proof cases
    case 1
    with assms debit_decision show ?thesis by (simp add: payout_decide_def)
  next
    case 2
    with assms submit_decision show ?thesis by (simp add: payout_decide_def)
  next
    case 3
    then have "decide_poll sv p w = (r, w')" "?st \<in> set (sp_active payout_saga)"
      using assms(3) by (auto simp: payout_decide_def)
    with assms poll_decision show ?thesis by blast
  next
    case 4
    then have "decide_credit sv p w = (r, w')" using assms(3) by (auto simp: payout_decide_def)
    with 4 assms credit_decision show ?thesis by blast
  next
    case 5
    with assms show ?thesis by (auto simp: io_simps decision_none)
  qed
qed

end
