(* ===== verification/Payout_System.thy ===== *)
theory Payout_System
  imports Payout_Decision
begin

text \<open>
  The payout service on PostgreSQL as a system of concurrent workers: requests, batches of any
  number of worker processes, provider events and crashes interleave between the calls of
  \<^verbatim>\<open>process\<close> and its final update. The service meets the contract of a worker, so the system refines
  the saga of theory \<open>Saga\<close>.
\<close>

section \<open>The system\<close>

text \<open>
  The operations on the store. \<open>elsewhere\<close>: other components of the process use the database and
  make calls, and leave the payout rows alone.
\<close>

type_synonym payout_system = "(pgstate, payout, payout_update) worker_state"

inductive payout_serve :: "pg_env \<Rightarrow> pgstate payouts \<Rightarrow> pgstate world \<Rightarrow> payout list \<Rightarrow> pgstate world \<Rightarrow> bool"
  for E :: pg_env and sv :: "pgstate payouts" where
  accepted: "Payouts_accept sv prin key inp w = (Inr (p, False), w') \<Longrightarrow> payout_serve E sv w [p] w'"
| answered: "Payouts_accept sv prin key inp w = (r, w') \<Longrightarrow> \<forall>p. r \<noteq> Inr (p, False) \<Longrightarrow> payout_serve E sv w [] w'"
| claimed: "on_store (ps_ClaimPayouts (ys_store sv) n) w = (r, w') \<Longrightarrow>
    payout_serve E sv w (case r of Inl _ \<Rightarrow> [] | Inr items \<Rightarrow> items) w'"
| provider_event: "on_store (pg_ApplyPayoutProviderEvent E event i) w = (r, w') \<Longrightarrow> payout_serve E sv w [] w'"
| elsewhere: "db_payouts (pg_db (wstore w')) = db_payouts (pg_db (wstore w)) \<Longrightarrow>
    unrelated_calls payout_event w w' \<Longrightarrow> payout_serve E sv w [] w'"

definition payout_worker :: "pg_env \<Rightarrow> pgstate payouts \<Rightarrow> (pgstate, payout, payout_update) worker" where
  "payout_worker E sv = \<lparr>wk_serve = payout_serve E sv, wk_decide = payout_decide sv,
     wk_send = (\<lambda>u. send_decided sv (Some u))\<rparr>"

lemma payout_worker_parts [simp]:
  "wk_serve (payout_worker E sv) = payout_serve E sv" "wk_decide (payout_worker E sv) = payout_decide sv"
  "wk_send (payout_worker E sv) = (\<lambda>u. send_decided sv (Some u))"
  by (simp_all add: payout_worker_def)

abbreviation payout_step :: "pg_env \<Rightarrow> pgstate payouts \<Rightarrow> payout_system \<Rightarrow> payout_system \<Rightarrow> bool" where
  "payout_step E sv \<equiv> worker_step (payout_worker E sv)"

abbreviation payout_run :: "pg_env \<Rightarrow> pgstate payouts \<Rightarrow> payout_system \<Rightarrow> payout_system \<Rightarrow> bool" where
  "payout_run E sv \<equiv> worker_run (payout_worker E sv)"

text \<open>The abstraction: rows, calls and tasks as the saga sees them.\<close>

definition row_entry :: "payout_row \<Rightarrow> payout_money \<times> string \<times> bool" where
  "row_entry r = ((pu_account_id r, pu_source_amount r, pu_source_currency r), pu_status r, pu_balance_debited r)"

abbreviation payout_view :: "payout_row list \<Rightarrow> string \<Rightarrow> (payout_money \<times> string \<times> bool) option" where
  "payout_view \<equiv> table_view pu_payout_id row_entry"

definition store_view :: "pgstate \<Rightarrow> string \<Rightarrow> (payout_money \<times> string \<times> bool) option" where
  "store_view s = payout_view (db_payouts (pg_db s))"

definition payout_store_ok :: "pg_env \<Rightarrow> pgstate \<Rightarrow> bool" where
  "payout_store_ok E s \<longleftrightarrow> digest_ok E \<and> payout_ids_ok E (pg_db s)"

abbreviation abs_payouts :: "payout_system \<Rightarrow> payout_money saga" where
  "abs_payouts \<equiv> abs_worker payout_event store_view payout_look update_task"

abbreviation payout_system_ok :: "pg_env \<Rightarrow> payout_system \<Rightarrow> bool" where
  "payout_system_ok E \<equiv> worker_ok (payout_store_ok E) (\<lambda>p. canonical E (po_PayoutID p)) (\<lambda>u. canonical E (fst u))"

section \<open>Requests\<close>

lemmas payout_view_row = table_view_row [where key = pu_payout_id and entry = row_entry]
lemmas payout_view_update = table_view_update [where key = pu_payout_id and entry = row_entry]

lemma payout_view_leased: "payout_view (map (leased now ids) rows) = payout_view rows"
  by (rule table_view_map) (simp_all add: row_entry_def)

definition accepted_row :: "pg_env \<Rightarrow> payout_row list \<Rightarrow> payout \<Rightarrow> payout_row \<Rightarrow> bool" where
  "accepted_row E rows p row \<longleftrightarrow> pu_payout_id row = po_PayoutID p \<and> canonical E (po_PayoutID p) \<and>
     pu_payout_id row \<notin> pu_payout_id ` set rows \<and> row_entry row = (payout_money p, ''pending_debit'', False) \<and>
     po_OperationalStatus p = ''pending_debit''"

lemma payout_id_canonical:
  "digest_ok E \<Longrightarrow> uuid_laws E \<Longrightarrow> canonical E (payout_id (pg_payouts E cfg rt cn lg marshal) m key)"
  unfolding payout_id_def uuid_laws_def digest_ok_def by (simp add: deterministicUUID_v4)

lemma completed_payout_row:
  assumes "pg_CompletePayout E prin key i inp route s = (r, s')" and "canonical E i"
  shows "(\<exists>e. r = Inl e) \<and> db_payouts (pg_db s') = db_payouts (pg_db s) \<or>
     (\<exists>p row. r = Inr p \<and> db_payouts (pg_db s') = db_payouts (pg_db s) @ [row] \<and> accepted_row E (db_payouts (pg_db s)) p row)"
  using assms(1)
proof (cases rule: pg_CompletePayoutE)
  case (created now wall u q ds)
  then have "accepted_row E (db_payouts (pg_db s)) (created_payout wall prin i inp route)
      (new_payout_row now u prin key (ix_request_hash q) inp route)"
    using assms(2) by (auto simp: accepted_row_def created_payout_def new_payout_row_def row_entry_def payout_money_def canonical_def)
  with created show ?thesis by auto
qed auto

lemma accept_effect:
  assumes "digest_ok E" and "payout_ids_ok E (pg_db (wstore w))"
    and "Payouts_accept (pg_payouts E cfg rt cn lg marshal) prin key inp w = (r, w')"
  shows "unrelated_calls payout_event w w' \<and>
    ((\<forall>p. r \<noteq> Inr (p, False)) \<and> db_payouts (pg_db (wstore w')) = db_payouts (pg_db (wstore w)) \<or>
     (\<exists>p row. r = Inr (p, False) \<and> db_payouts (pg_db (wstore w')) = db_payouts (pg_db (wstore w)) @ [row] \<and>
       accepted_row E (db_payouts (pg_db (wstore w))) p row))"
proof -
  let ?sv = "pg_payouts E cfg rt cn lg marshal"
  have begin_db: "db_payouts (pg_db s') = db_payouts (pg_db s)" if "pg_BeginPayout E prin key h i s = (r, s')" for prin key h i s r s'
    using that by (auto elim!: pg_BeginPayoutE)
  have laws: "canonical E (payout_id ?sv m key)" for m
    by (rule payout_id_canonical [OF assms(1)]) (use assms(2) in \<open>simp add: payout_ids_ok_def\<close>)
  from assms(3) show ?thesis
  proof (cases rule: accept_inversion)
    case invalid
    then show ?thesis by simp
  next
    case (merchant e s1)
    then show ?thesis by (auto simp: pg_auth_def dest!: pg_ResolveMerchant_db)
  next
    case (refused m s1 e s2)
    then show ?thesis by (auto simp: pg_auth_def pg_payout_store_def dest!: pg_ResolveMerchant_db begin_db)
  next
    case (replayed m s1 p s2)
    then show ?thesis by (auto simp: pg_auth_def pg_payout_store_def dest!: pg_ResolveMerchant_db begin_db)
  next
    case (failed m s1 p s2 e w2)
    then have s2: "db_payouts (pg_db s2) = db_payouts (pg_db (wstore w))"
      by (auto simp: pg_auth_def pg_payout_store_def dest!: pg_ResolveMerchant_db begin_db)
    obtain x s3 where rel: "pg_ReleasePayout E m key (wstore w2) = (x, s3)" by force
    from failed(3) have "unrelated_calls payout_event w w2 \<and> db_payouts (pg_db (wstore w2)) = db_payouts (pg_db s2)"
    proof (cases rule: payout_reservedE)
      case (unrouted e)
      then show ?thesis by (auto simp: unrelated_calls_def)
    next
      case (routed route s')
      then have "pg_CompletePayout E (prin\<lparr>pr_MerchantID := m\<rparr>) key (payout_id ?sv m key) inp route s2 = (Inl e, s')"
        by (simp add: pg_payout_store_def)
      from completed_payout_row [OF this laws] routed show ?thesis by (auto simp: unrelated_calls_def)
    qed
    with failed(4,5) s2 pg_ReleasePayout_payouts [OF rel] rel show ?thesis
      by (auto simp: pg_payout_store_def unrelated_calls_def)
  next
    case (created m s1 p s2 pay)
    then have s2: "db_payouts (pg_db s2) = db_payouts (pg_db (wstore w))"
      by (auto simp: pg_auth_def pg_payout_store_def dest!: pg_ResolveMerchant_db begin_db)
    from created(4) show ?thesis
    proof (cases rule: payout_reservedE)
      case (routed route s')
      then have "pg_CompletePayout E (prin\<lparr>pr_MerchantID := m\<rparr>) key (payout_id ?sv m key) inp route s2 = (Inr pay, s')"
        by (simp add: pg_payout_store_def)
      from completed_payout_row [OF this laws] s2 routed created(5) show ?thesis by (auto simp: unrelated_calls_def)
    qed auto
  qed
qed

lemma accepted_serve:
  assumes "unrelated_calls payout_event w w'" and "accepted_row E (db_payouts (pg_db (wstore w))) p row"
    and "db_payouts (pg_db (wstore w')) = db_payouts (pg_db (wstore w)) @ [row]"
  shows "serve_path payout_saga payout_event store_view payout_look w [p] w'"
proof (rule serve_create [OF assms(1)])
  let ?rows = "db_payouts (pg_db (wstore w))"
  show none: "store_view (wstore w) (po_PayoutID p) = None"
    unfolding store_view_def using assms(2) by (intro table_view_none) (auto simp: accepted_row_def)
  show "payout_look p = Look (po_PayoutID p) (payout_money p) (sp_initial payout_saga)"
    using assms(2) by (simp add: payout_look_def accepted_row_def)
  show "store_view (wstore w') = (store_view (wstore w))(po_PayoutID p \<mapsto> (payout_money p, sp_initial payout_saga, False))"
    using assms(2,3) none by (auto simp: store_view_def fun_eq_iff table_view_append accepted_row_def split: option.split)
qed

lemma accept_serves:
  assumes "payout_store_ok E (wstore w)" and "Payouts_accept (pg_payouts E cfg rt cn lg marshal) prin key inp w = (r, w')"
  shows "(\<exists>p. r = Inr (p, False) \<and> serve_path payout_saga payout_event store_view payout_look w [p] w' \<and>
      payout_store_ok E (wstore w') \<and> canonical E (po_PayoutID p)) \<or>
    (\<forall>p. r \<noteq> Inr (p, False)) \<and> serve_path payout_saga payout_event store_view payout_look w [] w' \<and> payout_store_ok E (wstore w')"
proof -
  from accept_effect [OF _ _ assms(2)] assms(1) have quiet: "unrelated_calls payout_event w w'"
    and eff: "(\<forall>p. r \<noteq> Inr (p, False)) \<and> db_payouts (pg_db (wstore w')) = db_payouts (pg_db (wstore w)) \<or>
     (\<exists>p row. r = Inr (p, False) \<and> db_payouts (pg_db (wstore w')) = db_payouts (pg_db (wstore w)) @ [row] \<and>
       accepted_row E (db_payouts (pg_db (wstore w))) p row)"
    by (auto simp: payout_store_ok_def)
  from eff show ?thesis
  proof (elim disjE conjE exE)
    assume "\<forall>p. r \<noteq> Inr (p, False)" "db_payouts (pg_db (wstore w')) = db_payouts (pg_db (wstore w))"
    then show ?thesis using serve_quiet [OF _ quiet, of store_view payout_saga payout_look] assms(1)
      by (simp add: store_view_def payout_store_ok_def payout_ids_ok_frame [of "pg_db (wstore w')"])
  next
    fix p row
    assume new: "r = Inr (p, False)" "db_payouts (pg_db (wstore w')) = db_payouts (pg_db (wstore w)) @ [row]"
      "accepted_row E (db_payouts (pg_db (wstore w))) p row"
    have "payout_store_ok E (wstore w')"
      using assms(1) new by (auto simp: payout_store_ok_def payout_ids_ok_def accepted_row_def)
    with accepted_serve [OF quiet new(3,2)] new show ?thesis by (auto simp: accepted_row_def)
  qed
qed

section \<open>Updates and events\<close>

definition moved_by :: "pg_env \<Rightarrow> payout_row list \<Rightarrow> payout_update \<Rightarrow> payout_row list \<Rightarrow> bool" where
  "moved_by E rows = (\<lambda>(i, nx, f) rows'. \<exists>now row. row \<in> set rows \<and> pu_payout_id row = i \<and> pu_status row = expected_status f \<and>
     rows' = sql_update (transition_hit i f) (transitioned_row now nx f) rows)"

lemma send_effect:
  assumes "payout_ids_ok E (pg_db (wstore w))" and "canonical E (fst u)"
    and "send_decided (pg_payouts E cfg rt cn lg marshal) (Some u) w = (r, w')"
  shows "wcalls w' = wcalls w \<and> (db_payouts (pg_db (wstore w')) = db_payouts (pg_db (wstore w)) \<or>
     moved_by E (db_payouts (pg_db (wstore w))) u (db_payouts (pg_db (wstore w'))))"
proof -
  obtain i nx f where u: "u = (i, nx, f)" by (cases u)
  obtain x s' where tr: "pg_TransitionPayout E i nx f (wstore w) = (x, s')" by force
  with assms(3) have w': "w' = w\<lparr>wstore := s'\<rparr>"
    by (auto simp: u send_decided_def send_payout_update_def io_ignore_def pg_payout_store_def)
  have ids: "distinct (map pu_payout_id (db_payouts (pg_db (wstore w))))" using assms(1) by (simp add: payout_ids_ok_def)
  from tr ids show ?thesis
  proof (cases rule: transitionE)
    case (moved now v row ds)
    with assms(2) have "v = i" by (simp add: canonical_def u)
    with moved w' show ?thesis by (auto simp: moved_by_def u transition_hit_def)
  qed (simp add: w')
qed

lemma row_entry_transitioned:
  "row_entry (transitioned_row now nx f row) =
     ((pu_account_id row, pu_source_amount row, pu_source_currency row), nx,
      pu_balance_debited row \<or> as_bool (mget f ''balanceDebited''))"
  by (simp add: row_entry_def transitioned_row_def)

lemma moved_view:
  assumes "payout_ids_ok E db" and "moved_by E (db_payouts db) (i, nx, f) rows'"
  shows "\<exists>m d. payout_view (db_payouts db) i = Some (m, expected_status f, d) \<and>
    payout_view rows' = (payout_view (db_payouts db))(i \<mapsto> (m, nx, d \<or> as_bool (mget f ''balanceDebited'')))"
proof -
  let ?rows = "db_payouts db"
  have ids: "distinct (map pu_payout_id ?rows)" using assms(1) by (simp add: payout_ids_ok_def)
  from assms(2) obtain now row where row: "row \<in> set ?rows" "pu_payout_id row = i" "pu_status row = expected_status f"
    and rows': "rows' = sql_update (transition_hit i f) (transitioned_row now nx f) ?rows"
    by (auto simp: moved_by_def)
  have "payout_view rows' = (payout_view ?rows)(pu_payout_id row \<mapsto> row_entry (transitioned_row now nx f row))"
    unfolding rows' by (rule payout_view_update [OF _ ids row(1)]) (use row in \<open>auto simp: transition_hit_def\<close>)
  moreover have "payout_view ?rows i = Some (row_entry row)" using payout_view_row [OF ids row(1)] row(2) by simp
  ultimately show ?thesis using row by (auto simp: row_entry_def transitioned_row_def)
qed

lemma event_moved_by:
  assumes "payout_moved event rows rows'"
  shows "\<exists>row \<in> set rows. \<exists>nx. nx \<in> set (sp_active payout_saga) \<union> set (sp_compensating payout_saga) \<and>
    pu_status row \<in> set (sp_active payout_saga) \<and>
    moved_by E rows (pu_payout_id row, nx, payout_event_fields event (scanPayout row)) rows'"
proof -
  from assms obtain now row nx where row: "row \<in> set rows" and nx: "nx = payout_next_status (ed_Status (ev_Data event))"
    and ok: "payoutOperationalTransitionAllowed (pu_status row) nx"
    and rows': "rows' = sql_update (\<lambda>r. pu_payout_id r = pu_payout_id row \<and> pu_status r = pu_status row)
       (transitioned_row now nx (payout_event_fields event (scanPayout row))) rows"
    by (auto simp: payout_moved_def)
  have hit: "transition_hit (pu_payout_id row) (payout_event_fields event (scanPayout row)) =
      (\<lambda>r. pu_payout_id r = pu_payout_id row \<and> pu_status r = pu_status row)"
    by (simp add: fun_eq_iff transition_hit_def)
  have "nx \<in> set (sp_active payout_saga) \<union> set (sp_compensating payout_saga)" by (simp add: nx payout_next_status_def)
  moreover have "pu_status row \<in> set (sp_active payout_saga)"
    using ok nx by (auto simp: payoutOperationalTransitionAllowed_def payout_next_status_def split: if_splits)
  moreover have "moved_by E rows (pu_payout_id row, nx, payout_event_fields event (scanPayout row)) rows'"
    using row rows' hit by (auto simp: moved_by_def)
  ultimately show ?thesis using row by blast
qed

lemma event_fields_not_debited [simp]: "\<not> as_bool (mget (payout_event_fields event p) ''balanceDebited'')"
  by (simp add: payout_event_fields_def as_bool_def)

lemma payout_ids_ok_moved:
  "moved_by E (db_payouts db) u (db_payouts db') \<Longrightarrow> payout_ids_ok E db \<Longrightarrow> payout_ids_ok E db'"
  by (cases u) (auto simp: moved_by_def payout_ids_ok_def map_sql_update)

lemma event_effect:
  assumes "payout_ids_ok E (pg_db s)" and "pg_ApplyPayoutProviderEvent E event i s = (r, s')"
  shows "db_payouts (pg_db s') = db_payouts (pg_db s) \<or> payout_moved event (db_payouts (pg_db s)) (db_payouts (pg_db s'))"
  using pg_ApplyPayout_frame [OF assms] by (auto simp: payout_event_frame_def)

lemma moved_store_view:
  assumes "payout_ids_ok E (pg_db s)" and "moved_by E (db_payouts (pg_db s)) u (db_payouts (pg_db s'))"
  shows "\<exists>i m frm to b d. update_task u = Move i frm to b \<and> store_view s i = Some (m, frm, d) \<and>
    store_view s' = (store_view s)(i \<mapsto> (m, to, d \<or> b))"
proof -
  obtain i nx f where u: "u = (i, nx, f)" by (cases u)
  from moved_view [OF assms(1) assms(2) [unfolded u]] show ?thesis
    by (auto simp: store_view_def update_task_def u)
qed

lemma event_serves:
  assumes "payout_store_ok E (wstore w)" and "on_store (pg_ApplyPayoutProviderEvent E event i) w = (r, w')"
  shows "serve_path payout_saga payout_event store_view payout_look w [] w' \<and> payout_store_ok E (wstore w')"
proof -
  from on_storeD [OF assms(2)] obtain s1 where ev: "pg_ApplyPayoutProviderEvent E event i (wstore w) = (r, s1)"
    and w': "w' = w\<lparr>wstore := s1\<rparr>" by blast
  have ids: "payout_ids_ok E (pg_db (wstore w))" using assms(1) by (simp add: payout_store_ok_def)
  from event_effect [OF ids ev] show ?thesis
  proof
    assume same: "db_payouts (pg_db s1) = db_payouts (pg_db (wstore w))"
    then show ?thesis using serve_quiet [of store_view w' w payout_event payout_saga payout_look] assms(1)
      by (simp add: w' store_view_def payout_store_ok_def payout_ids_ok_frame [of "pg_db s1"])
  next
    assume "payout_moved event (db_payouts (pg_db (wstore w))) (db_payouts (pg_db s1))"
    from event_moved_by [OF this, of E] obtain row nx where
      nx: "nx \<in> set (sp_active payout_saga) \<union> set (sp_compensating payout_saga)" "pu_status row \<in> set (sp_active payout_saga)"
      and mv: "moved_by E (db_payouts (pg_db (wstore w))) (pu_payout_id row, nx, payout_event_fields event (scanPayout row)) (db_payouts (pg_db s1))"
      by blast
    from moved_view [OF ids mv] obtain m d where
        before: "store_view (wstore w) (pu_payout_id row) = Some (m, pu_status row, d)"
      and after: "store_view s1 = (store_view (wstore w))(pu_payout_id row \<mapsto> (m, nx, d))"
      by (auto simp: store_view_def)
    have "serve_path payout_saga payout_event store_view payout_look w [] w'"
    proof (rule serve_step)
      fix a :: "payout_money saga"
      assume "sg_view a = store_view (wstore w)"
      then show "saga_step payout_saga a (a\<lparr>sg_view := store_view (wstore w')\<rparr>)"
        using saga_step.event [OF _ nx(2,1), of a "pu_payout_id row" m d] before after by (simp add: w')
    qed (simp add: w')
    moreover have "payout_store_ok E s1"
      using assms(1) payout_ids_ok_moved [OF mv ids] by (simp add: payout_store_ok_def)
    ultimately show ?thesis by (simp add: w')
  qed
qed

lemma send_moves:
  assumes "payout_store_ok E (wstore w)" and "canonical E (fst u)"
    and "send_decided (pg_payouts E cfg rt cn lg marshal) (Some u) w = (r, w')"
  shows "wcalls w' = wcalls w \<and> payout_store_ok E (wstore w') \<and>
    (store_view (wstore w') = store_view (wstore w) \<or> (\<exists>i m frm to b d. update_task u = Move i frm to b \<and>
       store_view (wstore w) i = Some (m, frm, d) \<and> store_view (wstore w') = (store_view (wstore w))(i \<mapsto> (m, to, d \<or> b))))"
proof -
  have ids: "payout_ids_ok E (pg_db (wstore w))" using assms(1) by (simp add: payout_store_ok_def)
  from send_effect [OF ids assms(2,3)] show ?thesis
  proof (elim conjE disjE)
    assume "wcalls w' = wcalls w" "db_payouts (pg_db (wstore w')) = db_payouts (pg_db (wstore w))"
    then show ?thesis using assms(1)
      by (simp add: store_view_def payout_store_ok_def payout_ids_ok_frame [of "pg_db (wstore w')"])
  next
    assume calls: "wcalls w' = wcalls w" and mv: "moved_by E (db_payouts (pg_db (wstore w))) u (db_payouts (pg_db (wstore w')))"
    from assms(1) payout_ids_ok_moved [OF mv ids] have "payout_store_ok E (wstore w')" by (simp add: payout_store_ok_def)
    with calls moved_store_view [OF ids mv] show ?thesis by blast
  qed
qed

section \<open>Claims\<close>

lemma payout_look_seen:
  assumes "payout_ids_ok E (pg_db s)" and "row \<in> set (db_payouts (pg_db s))"
  shows "\<exists>i m st d. payout_look (scanPayout row) = Look i m st \<and> store_view s i = Some (m, st, d)"
proof -
  have "distinct (map pu_payout_id (db_payouts (pg_db s)))" using assms(1) by (simp add: payout_ids_ok_def)
  from payout_view_row [OF this assms(2)] show ?thesis
    by (simp add: payout_look_def store_view_def row_entry_def payout_money_def)
qed

lemma claim_serves:
  assumes "payout_store_ok E (wstore w)" and "on_store (pg_ClaimPayouts E n) w = (r, w')"
    and "items = (case r of Inl _ \<Rightarrow> [] | Inr ps \<Rightarrow> ps)"
  shows "serve_path payout_saga payout_event store_view payout_look w items w' \<and> payout_store_ok E (wstore w') \<and>
    (\<forall>p \<in> set items. canonical E (po_PayoutID p))"
proof -
  from on_storeD [OF assms(2)] obtain s1 where cl: "pg_ClaimPayouts E n (wstore w) = (r, s1)"
    and w': "w' = w\<lparr>wstore := s1\<rparr>" by blast
  from cl show ?thesis
  proof (cases rule: pg_ClaimPayoutsE)
    case (1 now ids)
    have items: "\<forall>p \<in> set items. \<exists>row \<in> set (db_payouts (pg_db s1)). p = scanPayout row"
      using 1(3) assms(3) by (cases r) auto
    have ok: "payout_ids_ok E (pg_db s1)"
      using assms(1) 1(2) by (simp add: payout_store_ok_def payout_ids_ok_def comp_def)
    have "serve_path payout_saga payout_event store_view payout_look w [] w'"
      by (rule serve_quiet) (simp_all add: w' store_view_def 1(2) payout_view_leased)
    then have "serve_path payout_saga payout_event store_view payout_look w items w'"
      by (rule serve_reads) (use items payout_look_seen [OF ok] in \<open>auto simp: w'\<close>)
    moreover have "canonical E (po_PayoutID p)" if "p \<in> set items" for p
      using items that ok by (auto simp: payout_ids_ok_def list_all_iff)
    ultimately show ?thesis using ok assms(1) by (simp add: w' payout_store_ok_def)
  qed
qed

section \<open>The service meets the contract\<close>

lemma decided_ids:
  assumes "payout_decide sv p w = (Inr (Some u), w')"
  shows "fst u = po_PayoutID p"
  using assms
  by (auto simp: decide_simps io_simps split: if_splits option.splits sum.splits elim!: io_tryE)

lemma payout_serves:
  assumes "payout_store_ok E (wstore w)" and "payout_serve E (pg_payouts E cfg rt cn lg marshal) w ps w'"
  shows "serve_path payout_saga payout_event store_view payout_look w ps w' \<and> payout_store_ok E (wstore w') \<and>
    (\<forall>p \<in> set ps. canonical E (po_PayoutID p))"
  using assms(2)
proof cases
  case (accepted prin key inp p)
  with accept_serves [OF assms(1) accepted(2)] show ?thesis by auto
next
  case (answered prin key inp r)
  with accept_serves [OF assms(1) answered(2)] show ?thesis by auto
next
  case (claimed n r)
  with claim_serves [OF assms(1), of n r w' ps] show ?thesis by (simp add: pg_payout_store_def)
next
  case (provider_event event i r)
  with event_serves [OF assms(1)] show ?thesis by simp
next
  case elsewhere
  then show ?thesis using serve_quiet [of store_view w' w payout_event payout_saga payout_look] assms(1)
    by (simp add: store_view_def payout_store_ok_def payout_ids_ok_frame [of "pg_db (wstore w')"])
qed

interpretation pw: saga_worker payout_saga "payout_worker E (pg_payouts E cfg rt cn lg marshal)" payout_event store_view
    "payout_store_ok E" payout_look "\<lambda>p. canonical E (po_PayoutID p)" update_task "\<lambda>u. canonical E (fst u)"
  for E cfg rt cn lg marshal
proof (unfold_locales, goal_cases)
  case (1 w ps w')
  then show ?case using payout_serves by simp
next
  case (2 p a w r w')
  then show ?case using payout_decision by simp
next
  case (3 p w u w')
  then show ?case using decided_ids by fastforce
next
  case (4 w u ru w')
  then show ?case using send_moves by simp
qed

section \<open>Handlers as runs\<close>

text \<open>\<^verbatim>\<open>Create\<close> and \<^verbatim>\<open>runBatch\<close> without interruption are runs of the system.\<close>

lemma process_turn: "Payouts_process sv p = worker_turn (payout_worker E sv) p"
  unfolding process_splits worker_turn_def
  by (auto simp: send_decided_def intro!: io_bind_cong split: option.split)

lemma decide_returns: "\<exists>u w'. payout_decide sv p w = (Inr u, w')"
proof -
  obtain r w' where run: "payout_decide sv p w = (r, w')" by force
  from payout_decision [where s = "\<lparr>sg_view = \<lambda>_. None, sg_calls = map payout_event (wcalls w), sg_tasks = {payout_look p}\<rparr>",
      OF _ _ run] run show ?thesis by auto
qed

lemma payout_decide_total: "decides_always (payout_worker E sv)"
  by (simp add: decides_always_def decide_returns)

lemma process_total: "\<exists>w'. Payouts_process sv p w = (Inr (), w')"
proof -
  obtain u w1 where "payout_decide sv p w = (Inr u, w1)"
    using decide_returns by blast
  then show ?thesis
    by (cases u) (auto simp: process_splits send_decided_def send_payout_update_def io_ignore_def io_simps)
qed

lemma process_run:
  assumes "p \<in> set (yy_read s)" and "Payouts_process sv p (yy_world s) = (r, w')"
  shows "payout_run E sv s (s\<lparr>yy_world := w', yy_read := remove1 p (yy_read s)\<rparr>)"
  by (rule turn_run [OF payout_decide_total assms(1)]) (use assms(2) in \<open>simp add: process_turn [of sv p E]\<close>)

lemma payout_batch_run:
  assumes "io_each (Payouts_process sv) items w = (r, w')" and "yy_world s = w" and "yy_read s = items @ rest"
  shows "payout_run E sv s (s\<lparr>yy_world := w', yy_read := rest\<rparr>)"
proof (rule batch_run [OF _ assms(2,3) payout_decide_total])
  have same: "worker_turn (payout_worker E sv) = Payouts_process sv" by (rule ext) (simp add: process_turn [of sv _ E])
  show "io_each (worker_turn (payout_worker E sv)) items w = (r, w')" using assms(1) by (simp add: same)
  show "\<exists>w'. worker_turn (payout_worker E sv) p w = (Inr (), w')" for p w using process_total by (simp add: same)
qed

lemma payout_served: "payout_serve E sv (yy_world s) ps w' \<Longrightarrow> payout_step E sv s (s\<lparr>yy_world := w', yy_read := ps @ yy_read s\<rparr>)"
  by (rule worker_step.served) simp

lemma payout_answered: "payout_serve E sv (yy_world s) [] w' \<Longrightarrow> payout_step E sv s (s\<lparr>yy_world := w'\<rparr>)"
  using payout_served [of E sv s "[]" w'] by simp

lemma runBatch_run:
  assumes "Payouts_runBatch sv (yy_world s) = (r, w')"
  shows "payout_run E sv s (s\<lparr>yy_world := w'\<rparr>)"
proof -
  from assms obtain x w1 where cl: "on_store (ps_ClaimPayouts (ys_store sv) 50) (yy_world s) = (x, w1)"
    and rest: "(case x of Inl _ \<Rightarrow> io_return () | Inr items \<Rightarrow> io_each (Payouts_process sv) items) w1 = (r, w')"
    unfolding Payouts_runBatch_def by (auto elim!: io_tryE)
  let ?s1 = "s\<lparr>yy_world := w1, yy_read := (case x of Inl _ \<Rightarrow> [] | Inr items \<Rightarrow> items) @ yy_read s\<rparr>"
  have "payout_step E sv s ?s1" by (rule payout_served [OF payout_serve.claimed [OF cl]])
  moreover have "payout_run E sv ?s1 (s\<lparr>yy_world := w'\<rparr>)"
  proof (cases x)
    case (Inl e)
    with rest show ?thesis by (simp add: io_simps)
  next
    case (Inr items)
    with rest have "io_each (Payouts_process sv) items w1 = (r, w')" by simp
    from payout_batch_run [OF this, of ?s1 "yy_read s" E] Inr show ?thesis by simp
  qed
  ultimately show ?thesis by (rule converse_rtranclp_into_rtranclp)
qed

lemma create_run:
  assumes "Payouts_Create sv prin key inp (yy_world s) = (r, w')"
  shows "payout_run E sv s (s\<lparr>yy_world := w'\<rparr>)"
  using assms unfolding Payouts_Create_def
proof (cases rule: io_bindE)
  case (error e)
  then have "payout_step E sv s (s\<lparr>yy_world := w'\<rparr>)" by (intro payout_answered payout_serve.answered) auto
  then show ?thesis ..
next
  case (ok x w1)
  obtain p replayed where x: "x = (p, replayed)" by (cases x)
  show ?thesis
  proof (cases replayed)
    case True
    with ok have "payout_step E sv s (s\<lparr>yy_world := w'\<rparr>)"
      by (intro payout_answered payout_serve.answered) (auto simp: x io_simps)
    then show ?thesis ..
  next
    case False
    let ?s1 = "s\<lparr>yy_world := w1, yy_read := [p] @ yy_read s\<rparr>"
    have "payout_step E sv s ?s1" by (rule payout_served [OF payout_serve.accepted]) (use ok False x in simp)
    moreover obtain w2 where p: "Payouts_process sv p w1 = (Inr (), w2)" using process_total by blast
    then have "payout_run E sv ?s1 (s\<lparr>yy_world := w'\<rparr>)"
      using process_run [of p ?s1 sv "Inr ()" w2 E] ok(2) False by (simp add: x io_simps)
    ultimately show ?thesis by (rule converse_rtranclp_into_rtranclp)
  qed
qed

lemma handler_runs:
  "payout_run E sv s (s\<lparr>yy_world := snd (Payouts_Create sv prin key inp (yy_world s))\<rparr>)"
  "payout_run E sv s (s\<lparr>yy_world := snd (Payouts_runBatch sv (yy_world s))\<rparr>)"
  by (rule create_run runBatch_run, rule surjective_pairing)+

lemma Payouts_Run_ends: "fst (Payouts_Run sv signals w) = Inr (Cancelled \<in> set signals)"
  unfolding Payouts_Run_def
proof (rule ticker_loop_ends)
  fix w
  have "\<exists>w'. io_each (Payouts_process sv) items w = (Inr (), w')" for items w
    by (rule io_each_returns process_total)+
  then show "\<exists>w'. Payouts_runBatch sv w = (Inr (), w')"
    by (auto simp: Payouts_runBatch_def io_bind_def io_try_def io_simps split: prod.split sum.split)
qed

section \<open>The invariant of the system\<close>

definition payout_start :: "pg_env \<Rightarrow> payout_system \<Rightarrow> bool" where
  "payout_start E s \<longleftrightarrow> digest_ok E \<and> uuid_laws E \<and> db_payouts (pg_db (wstore (yy_world s))) = [] \<and> wcalls (yy_world s) = [] \<and>
     yy_read s = [] \<and> yy_send s = []"

lemma payout_start_worker: "payout_start E s \<Longrightarrow> worker_start (payout_store_ok E) store_view s"
  by (simp add: payout_start_def worker_start_def payout_store_ok_def payout_ids_ok_def store_view_def table_view_def)

lemma payout_event_iff:
  "payout_event c = Debit i (a, m, k) ok \<longleftrightarrow> c = (CallDebitPayout a i m k, ok)"
  "payout_event c = Credit i (a, m, k) ok \<longleftrightarrow> c = (CallCreditFailedPayout a i m k, ok)"
  by (cases c rule: payout_event.cases; auto)+

lemma payout_event_mem:
  "Debit i (a, m, k) ok \<in> payout_event ` A \<longleftrightarrow> (CallDebitPayout a i m k, ok) \<in> A"
  "Credit i (a, m, k) ok \<in> payout_event ` A \<longleftrightarrow> (CallCreditFailedPayout a i m k, ok) \<in> A"
  unfolding image_iff by (auto intro!: bexI dest!: sym [of "Debit _ _ _"] sym [of "Credit _ _ _"] simp: payout_event_iff)


end
