(* ===== verification/Payout_Example.thy ===== *)
theory Payout_Example
  imports Payout_System
begin

text \<open>
  A concrete payout service for the witnesses: a request, a provider that answers with a given
  status, a ledger with given first answers, and a scheduler that plays chosen moves.
\<close>

section \<open>The service\<close>

definition ex_payout_request :: create_payout where
  "ex_payout_request = \<lparr>cpo_MerchantID = '''', cpo_ExternalID = ''p1'', cpo_Source = \<lparr>mo_Amount = ''10'', mo_Currency = ''USD''\<rparr>,
     cpo_Destination = \<lparr>de_Country = ''UY'', de_Currency = ''UYU'', de_Amount = '''',
       de_Beneficiary = [(''documentNumber'', JStr ''1-2'')], de_Rail = [(''type'', JStr ''bank'')]\<rparr>,
     cpo_Remitter = [], cpo_Description = '''', cpo_Metadata = []\<rparr>"

definition ex_provider_payout :: "string \<Rightarrow> provider_payout" where
  "ex_provider_payout status = \<lparr>ppo_PayoutID = '''', ppo_Provider = ''test'', ppo_ProviderConnectionID = ''connection1'',
     ppo_ProviderPayoutID = ''provider1'', ppo_ProviderReference = ''ref1'', ppo_Status = status, ppo_RawStatus = status,
     ppo_Source = \<lparr>mo_Amount = ''10'', mo_Currency = ''USD''\<rparr>, ppo_DestinationAmount = ''400'', ppo_DestinationCurrency = ''UYU'',
     ppo_ObservedAt = 0, ppo_ProviderData = []\<rparr>"

definition ex_payout_connector :: "string \<Rightarrow> payout_connector" where
  "ex_payout_connector status = \<lparr>pc_CreatePayout = (\<lambda>h r p k. Inr (ex_provider_payout status)),
     pc_GetPayout = (\<lambda>h r p. Inr (ex_provider_payout status))\<rparr>"

text \<open>A ledger whose first answers are given; later ones accept.\<close>

definition ex_payout_ledger :: "(go_error + unit) list \<Rightarrow> payout_ledger" where
  "ex_payout_ledger answers = \<lparr>pl_DebitPayout = (\<lambda>h a i m c. if length h - 1 < length answers then answers ! (length h - 1) else Inr ()),
     pl_CreditFailedPayout = (\<lambda>h a i m c. Inr ())\<rparr>"

definition ex_payouts :: "(go_error + unit) list \<Rightarrow> string \<Rightarrow> pgstate payouts" where
  "ex_payouts answers status = pg_payouts ex_flat_env (pg_NewAuth []) ex_router (ex_payout_connector status)
     (Some (ex_payout_ledger answers)) (\<lambda>r. cpo_ExternalID r @ mo_Amount (cpo_Source r))"

definition ex_payout_world :: "pgstate world" where
  "ex_payout_world = \<lparr>wstore = \<lparr>pg_db = empty_db, pg_tick = 0\<rparr>, wcalls = []\<rparr>"

definition ex_create :: "pgstate payouts \<Rightarrow> pgstate world \<Rightarrow> pgstate world" where
  "ex_create sv w = snd (Payouts_Create sv ex_principal ''key1'' ex_payout_request w)"

definition ex_batch :: "pgstate payouts \<Rightarrow> pgstate world \<Rightarrow> pgstate world" where
  "ex_batch sv w = snd (Payouts_runBatch sv w)"

definition ex_start :: payout_system where
  "ex_start = \<lparr>yy_world = ex_payout_world, yy_read = [], yy_send = []\<rparr>"

lemma ex_start_ok [simp]: "payout_start ex_flat_env ex_start"
  by (simp add: payout_start_def ex_start_def ex_payout_world_def empty_db_def)

lemma ex_start_world [simp]: "yy_world ex_start = ex_payout_world"
  by (simp add: ex_start_def)

text \<open>A payout that is created, debited, submitted by the worker and confirmed by the provider.\<close>

definition ex_paid :: "pgstate world" where
  "ex_paid = ex_batch (ex_payouts [] ''confirmed'') (ex_create (ex_payouts [] ''confirmed'') ex_payout_world)"

text \<open>One that the provider fails, so that the next batch credits it.\<close>

definition ex_failed :: "pgstate world" where
  "ex_failed = ex_batch (ex_payouts [] ''failed'') (ex_batch (ex_payouts [] ''failed'') (ex_create (ex_payouts [] ''failed'') ex_payout_world))"

definition ex_call_kind :: "call \<times> bool \<Rightarrow> nat \<times> bool" where
  "ex_call_kind = (\<lambda>(c, ok). (case c of CallResolve _ \<Rightarrow> 0 | CallDebitPayout _ _ _ _ \<Rightarrow> 1 | CallCreatePayout _ _ _ \<Rightarrow> 2
     | CallGetPayout _ _ \<Rightarrow> 3 | CallCreditFailedPayout _ _ _ _ \<Rightarrow> 4 | _ \<Rightarrow> 5, ok))"

lemma ex_call_kind_submit: "ex_call_kind c = (2, b) \<Longrightarrow> \<exists>rt p k. c = (CallCreatePayout rt p k, b)"
  by (cases c; cases "fst c") (auto simp: ex_call_kind_def)

lemma ex_paid_run: "payout_run ex_flat_env (ex_payouts [] ''confirmed'') ex_start (ex_start\<lparr>yy_world := ex_paid\<rparr>)"
proof -
  let ?sv = "ex_payouts [] ''confirmed''" and ?s1 = "ex_start\<lparr>yy_world := ex_create (ex_payouts [] ''confirmed'') ex_payout_world\<rparr>"
  have "payout_run ex_flat_env ?sv ex_start ?s1" using handler_runs(1) [of ex_flat_env ?sv ex_start] by (simp add: ex_create_def)
  moreover have "payout_run ex_flat_env ?sv ?s1 (?s1\<lparr>yy_world := ex_paid\<rparr>)"
    using handler_runs(2) [of ex_flat_env ?sv ?s1] by (simp add: ex_paid_def ex_batch_def)
  ultimately show ?thesis by (auto intro: rtranclp_trans)
qed

lemma ex_failed_run: "payout_run ex_flat_env (ex_payouts [] ''failed'') ex_start (ex_start\<lparr>yy_world := ex_failed\<rparr>)"
proof -
  let ?sv = "ex_payouts [] ''failed''"
  let ?s1 = "ex_start\<lparr>yy_world := ex_create ?sv ex_payout_world\<rparr>"
  let ?s2 = "ex_start\<lparr>yy_world := ex_batch ?sv (ex_create ?sv ex_payout_world)\<rparr>"
  have "payout_run ex_flat_env ?sv ex_start ?s1" using handler_runs(1) [of ex_flat_env ?sv ex_start] by (simp add: ex_create_def)
  moreover have "payout_run ex_flat_env ?sv ?s1 ?s2"
    using handler_runs(2) [of ex_flat_env ?sv ?s1] by (simp add: ex_batch_def)
  moreover have "payout_run ex_flat_env ?sv ?s2 (ex_start\<lparr>yy_world := ex_failed\<rparr>)"
    using handler_runs(2) [of ex_flat_env ?sv ?s2] by (simp add: ex_batch_def ex_failed_def)
  ultimately show ?thesis by (meson rtranclp_trans)
qed

section \<open>A scheduler\<close>

text \<open>A scheduler that plays given moves; what it plays is a run.\<close>

datatype move = Request string | Claim | Decide nat | Send nat | Event provider_event

definition play :: "pgstate payouts \<Rightarrow> move \<Rightarrow> payout_system \<Rightarrow> payout_system" where
  "play sv m s = (case m of
     Request key \<Rightarrow> (case Payouts_accept sv ex_principal key ex_payout_request (yy_world s) of
         (Inr (p, False), w) \<Rightarrow> s\<lparr>yy_world := w, yy_read := p # yy_read s\<rparr>
       | (_, w) \<Rightarrow> s\<lparr>yy_world := w\<rparr>)
   | Claim \<Rightarrow> (case on_store (ps_ClaimPayouts (ys_store sv) 50) (yy_world s) of
         (Inr items, w) \<Rightarrow> s\<lparr>yy_world := w, yy_read := items @ yy_read s\<rparr>
       | (Inl _, w) \<Rightarrow> s\<lparr>yy_world := w\<rparr>)
   | Decide n \<Rightarrow> if n < length (yy_read s) then
         (case payout_decide sv (yy_read s ! n) (yy_world s) of
            (Inr u, w) \<Rightarrow> s\<lparr>yy_world := w, yy_read := remove1 (yy_read s ! n) (yy_read s),
               yy_send := (case u of None \<Rightarrow> [] | Some x \<Rightarrow> [x]) @ yy_send s\<rparr>
          | (Inl _, w) \<Rightarrow> s)
       else s
   | Send n \<Rightarrow> if n < length (yy_send s) then
         s\<lparr>yy_world := snd (send_decided sv (Some (yy_send s ! n)) (yy_world s)), yy_send := remove1 (yy_send s ! n) (yy_send s)\<rparr>
       else s
   | Event e \<Rightarrow> s\<lparr>yy_world := snd (on_store (pg_ApplyPayoutProviderEvent ex_flat_env e '''') (yy_world s))\<rparr>)"

lemma play_run: "payout_run ex_flat_env sv s (play sv m s)"
proof (cases m)
  case (Request key)
  obtain r w where run: "Payouts_accept sv ex_principal key ex_payout_request (yy_world s) = (r, w)" by force
  show ?thesis
  proof (cases "\<exists>p. r = Inr (p, False)")
    case True
    then obtain p where r: "r = Inr (p, False)" by blast
    from payout_served [OF payout_serve.accepted [OF run [unfolded r]], of ex_flat_env] run Request r show ?thesis
      by (auto simp: play_def)
  next
    case False
    then have "play sv m s = s\<lparr>yy_world := w\<rparr>" using run Request by (auto simp: play_def split: sum.split bool.split)
    moreover have "payout_step ex_flat_env sv s (s\<lparr>yy_world := w\<rparr>)"
      by (rule payout_answered [OF payout_serve.answered [OF run]]) (use False in blast)
    ultimately show ?thesis by auto
  qed
next
  case Claim
  obtain r w where run: "on_store (ps_ClaimPayouts (ys_store sv) 50) (yy_world s) = (r, w)" by force
  from payout_served [OF payout_serve.claimed [OF run], of ex_flat_env] run Claim show ?thesis by (cases r) (auto simp: play_def)
next
  case (Decide n)
  show ?thesis
  proof (cases "n < length (yy_read s)")
    case True
    obtain u w where dec: "payout_decide sv (yy_read s ! n) (yy_world s) = (Inr u, w)" using decide_returns by blast
    from worker_step.decided [OF nth_mem [OF True], of "payout_worker ex_flat_env sv" u w] True dec Decide
    show ?thesis by (auto simp: play_def)
  qed (simp add: play_def Decide)
next
  case (Send n)
  show ?thesis
  proof (cases "n < length (yy_send s)")
    case True
    from worker_step.sent [OF nth_mem [OF True] surjective_pairing, of "payout_worker ex_flat_env sv"] True Send
    show ?thesis by (auto simp: play_def)
  qed (simp add: play_def Send)
next
  case (Event e)
  from payout_answered [OF payout_serve.provider_event [where E = ex_flat_env and event = e and i = "''''" and sv = sv, OF surjective_pairing], of s] Event
  show ?thesis by (auto simp: play_def)
qed

lemma fold_play_run: "payout_run ex_flat_env sv s (fold (play sv) ms s)"
proof (induction ms arbitrary: s)
  case (Cons m ms)
  have "payout_run ex_flat_env sv s (play sv m s)" by (rule play_run)
  also have "payout_run ex_flat_env sv (play sv m s) (fold (play sv) ms (play sv m s))" by (rule Cons.IH)
  finally show ?case by simp
qed simp

definition ex_race :: payout_system where
  "ex_race = fold (play (ex_payouts [Inl ErrInsufficientBalance] ''confirmed''))
     [Request ''key1'', Claim, Decide 1, Decide 0, Send 1, Send 0] ex_start"

definition lost_debit :: "payout_system \<Rightarrow> payout_row \<Rightarrow> bool" where
  "lost_debit s r \<longleftrightarrow> yy_read s = [] \<and> yy_send s = [] \<and> pu_status r = ''failed'' \<and> \<not> pu_balance_debited r \<and>
     (CallDebitPayout (pu_account_id r) (pu_payout_id r) (pu_source_amount r) (pu_source_currency r), True) \<in> set (wcalls (yy_world s)) \<and>
     list_all (\<lambda>c. case fst c of CallCreditFailedPayout _ _ _ _ \<Rightarrow> False | _ \<Rightarrow> True) (wcalls (yy_world s))"

text \<open>The outcomes of the examples, computed once.\<close>

lemma ex_outcomes:
  "map ex_call_kind (wcalls ex_paid) = [(0, True), (1, True), (2, True)] \<and>
   map (\<lambda>r. (pu_status r, pu_balance_debited r)) (db_payouts (pg_db (wstore ex_failed))) = [(''failed'', True)] \<and>
   (case db_payouts (pg_db (wstore (yy_world ex_race))) of [r] \<Rightarrow> lost_debit ex_race r | _ \<Rightarrow> False)"
  by code_simp

end
