(* ===== verification/Pg_Events.thy ===== *)
theory Pg_Events
  imports Payout_Example
begin

text \<open>
  The consumer of provider events over PostgreSQL, as \<^verbatim>\<open>main.go\<close> wires it when a database is configured: the contract's
  client lemmas for payments and payouts, and the properties of the consumer over both stores.
\<close>

section \<open>What an event about a payout does to the tables\<close>

lemma record_payout_known: "record_payout_event E e s = (Inr n, s') \<Longrightarrow> en_uuid E (ev_PayoutID e) \<noteq> None"
  unfolding record_payout_event_def by (elim db_execE) (auto split: option.splits)

text \<open>A transition changes payouts and deliveries, or nothing.\<close>

lemma transition_tables:
  assumes "pg_TransitionPayout E i nx f s = (r, s')"
  shows "(\<exists>e. r = Inl e \<and> pg_db s' = pg_db s) \<or> (\<exists>p ps ds. r = Inr p \<and> pg_db s' = (pg_db s)\<lparr>db_payouts := ps, db_deliveries := ds\<rparr>)"
proof -
  from assms have "db_tx E (transition_tx E i nx f) s = (r, s')" by (simp add: pg_TransitionPayout_def)
  then show ?thesis
  proof (cases rule: db_txE)
    case (committed now s1 p s2)
    let ?expected = "as_string (mget f ''expectedStatus'')"
    from committed(4) obtain s3 where upd: "update_payout E now i nx f s1 = (Inr 1, s3)"
      and rest: "io_bind (select_payout E i (\<lambda>_. True)) (\<lambda>p. if publicPayoutStatus ?expected = po_Status p then io_return p
        else io_bind (nowUTC E) (\<lambda>wall. io_bind (insert_deliveries E now (po_MerchantID p) (po_AccountID p)
           (ep_eventId (payout_changed_payload E wall i nx ?expected p)) ''payout.status_changed''
           (Some (payout_changed_payload E wall i nx ?expected p))) (\<lambda>_. io_return p))) s3 = (Inr p, s2)"
      unfolding transition_tx_def Let_def by (elim io_bind_InrE) (auto simp: io_simps split: if_splits)
    from upd obtain ps where "pg_db s3 = (pg_db s1)\<lparr>db_payouts := ps\<rparr>" by (auto elim!: update_payoutE)
    moreover from rest have "\<exists>ds. pg_db s2 = (pg_db s3)\<lparr>db_deliveries := ds\<rparr>"
    proof (elim io_bind_InrE, goal_cases)
      case (1 q s4)
      then have s4: "pg_db s4 = pg_db s3" by (simp add: select_payout_db)
      show ?case
      proof (cases "publicPayoutStatus ?expected = po_Status q")
        case True
        with 1 s4 show ?thesis by (intro exI [of _ "db_deliveries (pg_db s3)"]) (simp add: io_simps)
      next
        case False
        with 1 s4 show ?thesis by (auto simp: nowUTC_def io_simps elim!: io_bind_InrE dest!: insert_deliveries_effect)
      qed
    qed
    ultimately show ?thesis using committed(2,5,6) by auto
  qed blast
qed

text \<open>The rest of an event about a payout, from the check on.\<close>

lemma payout_event_restE:
  assumes "payout_event_rest E e p v = (r, s')"
  obtains (kept) x where "r = Inr x" "pg_db s' = pg_db v"
    | (forgot) er w x where "r = Inl er" "pg_db w = pg_db v" "forget_event E (ev_EventID e) w = (x, s')"
    | (moved) x ps ds evs where "r = Inr x" "pg_db s' = (pg_db v)\<lparr>db_payouts := ps, db_deliveries := ds, db_provider_events := evs\<rparr>"
        "pv_event_id ` set evs = pv_event_id ` set (db_provider_events (pg_db v))"
proof -
  let ?nx = "payout_next_status (ed_Status (ev_Data e))" and ?f = "payout_event_fields e p"
  show thesis
  proof (cases "payoutOperationalTransitionAllowed (po_OperationalStatus p) ?nx \<and> ?nx \<noteq> po_OperationalStatus p")
    case False
    with assms kept show thesis by (auto simp: payout_event_rest_def Let_def io_simps split: if_splits)
  next
    case True
    with assms have "io_bind (io_on_error (pg_TransitionPayout E (po_PayoutID p) ?nx ?f) (forget_event E (ev_EventID e)))
        (\<lambda>updated. io_bind (io_ignore (mark_changed E (ev_EventID e))) (\<lambda>_.
          io_return \<lparr>er_Duplicate = False, er_Changed = (po_Status updated \<noteq> po_Status p), er_Status = po_Status updated\<rparr>)) v = (r, s')"
      by (simp add: payout_event_rest_def Let_def)
    then show thesis
    proof (cases rule: io_bindE)
      case (error er)
      from error(1) show thesis
      proof (cases rule: io_on_errorE)
        case inner: (error er' w)
        obtain x where "forget_event E (ev_EventID e) w = (x, s')" using inner(3) by (metis prod.collapse)
        with transition_tables [OF inner(1)] error(2) forgot show thesis by auto
      qed simp
    next
      case (ok q w)
      from ok(1) have "pg_TransitionPayout E (po_PayoutID p) ?nx ?f v = (Inr q, w)" by (auto elim!: io_on_errorE)
      from transition_tables [OF this] obtain ps ds where w: "pg_db w = (pg_db v)\<lparr>db_payouts := ps, db_deliveries := ds\<rparr>" by auto
      obtain x where "mark_changed E (ev_EventID e) w = (x, s')"
        using ok(2) by (auto simp: io_ignore_def io_bind_def io_simps) (metis prod.collapse)
      from mark_changed_frame [OF this] w moved [where ps = ps and ds = ds] ok(2) show thesis
        by (auto simp: io_ignore_def io_bind_def io_simps)
    qed
  qed
qed

lemma payout_eventE:
  assumes "pg_ApplyPayoutProviderEvent E e i s = (r, s')"
  obtains (undone) er where "r = Inl er" "pg_db s' = pg_db s"
    | (stuck) er row where "r = Inl er" "\<not> pg_seen s (ev_EventID e)" "pv_event_id row = ev_EventID e" "en_uuid E (ev_PayoutID e) \<noteq> None"
        "pg_db s' = (pg_db s)\<lparr>db_provider_events := db_provider_events (pg_db s) @ [row]\<rparr>"
    | (duplicate) "r = Inr (zero_result\<lparr>er_Duplicate := True\<rparr>)" "pg_seen s (ev_EventID e)" "en_uuid E (ev_PayoutID e) \<noteq> None" "pg_same s s'"
    | (recorded) x ps ds evs where "r = Inr x" "\<not> pg_seen s (ev_EventID e)" "en_uuid E (ev_PayoutID e) \<noteq> None"
        "pv_event_id ` set evs = insert (ev_EventID e) (pv_event_id ` set (db_provider_events (pg_db s)))"
        "pg_db s' = (pg_db s)\<lparr>db_payouts := ps, db_deliveries := ds, db_provider_events := evs\<rparr>"
proof -
  let ?old = "db_provider_events (pg_db s)"
  from assms show thesis unfolding pg_ApplyPayoutProviderEvent_unfold
  proof (cases rule: io_bindE)
    case (error er)
    then show thesis using undone by (auto elim!: record_payout_eventE)
  next
    case (ok n u)
    note known = record_payout_known [OF ok(1)]
    from ok(1) show thesis
    proof (cases rule: record_payout_eventE)
      case dup: duplicate
      with ok(2) known show thesis using duplicate by (auto simp: io_simps pg_seen_def pg_same_def)
    next
      case (fresh row)
      have new: "\<not> pg_seen s (ev_EventID e)" using fresh(2) by (simp add: pg_seen_def)
      note stay = stuck [OF _ new fresh(3) known]
      have forgotten: thesis if "r = Inl er" "pg_db v = pg_db u" "forget_event E (ev_EventID e) v = (x, s')" for er v x
      proof -
        have "pg_db v = (pg_db s)\<lparr>db_provider_events := ?old @ [row]\<rparr>" using that(2) fresh(4) by simp
        from forget_event_restores [OF this fresh(3,2) that(3)] have "pg_db s' = pg_db s \<or> pg_db s' = pg_db v" .
        then show thesis using that(1,2) fresh(4) undone stay by auto
      qed
      from ok(2) fresh(1) have "io_bind (io_on_error (check_payout_event E e) (forget_event E (ev_EventID e))) (payout_event_rest E e) u = (r, s')"
        by simp
      then show thesis
      proof (cases rule: io_bindE)
        case (error er)
        from error(1) show thesis
        proof (cases rule: io_on_errorE)
          case inner: (error er' v)
          then have "pg_db v = pg_db u" by (auto elim!: check_payout_eventE)
          with inner(3) error(2) forgotten show thesis by (metis prod.collapse)
        qed simp
      next
        case (ok p v)
        then have v: "pg_db v = (pg_db s)\<lparr>db_provider_events := ?old @ [row]\<rparr>"
          using fresh(4) by (auto elim!: io_on_errorE check_payout_eventE)
        from ok(2) show thesis
        proof (cases rule: payout_event_restE)
          case (kept x)
          with new known fresh(3) v show thesis
            by (intro recorded [where x = x and evs = "?old @ [row]" and ps = "db_payouts (pg_db s)" and ds = "db_deliveries (pg_db s)"]) auto
        next
          case (forgot er w x)
          with v fresh(4) forgotten show thesis by auto
        next
          case (moved x ps ds evs)
          with new known fresh(3) v show thesis by (intro recorded [where x = x and evs = evs and ps = ps and ds = ds]) auto
        qed
      qed
    qed (use ok in \<open>auto intro: undone\<close>)
  qed
qed


lemma ticks_on_error [intro]:
  assumes "ticks m" and "ticks c"
  shows "ticks (io_on_error m c)"
  unfolding ticks_def
proof
  fix s
  obtain r u where m: "m s = (r, u)" by fastforce
  with assms have "pg_tick s \<le> pg_tick u" "pg_tick u \<le> pg_tick (snd (c u))" by (blast intro: ticksD, simp add: ticks_def)
  with m show "pg_tick s \<le> pg_tick (snd (io_on_error m c s))" by (auto simp: io_on_error_def split: sum.splits)
qed

lemma ticks_ignore [intro]: "ticks m \<Longrightarrow> ticks (io_ignore m)"
  by (simp add: ticks_def io_ignore_def)

lemma ticks_payout_event [simp, intro]:
  "ticks (pg_ApplyPayoutProviderEvent E e i)" "ticks (pg_ResolvePayoutProviderEvent E e)"
proof -
  have "ticks (payout_event_rest E e p)" for p
    unfolding payout_event_rest_def Let_def forget_event_def mark_changed_def by (auto intro!: ticks_bind ticks_on_error ticks_ignore)
  moreover have "ticks (check_payout_event E e)"
    unfolding check_payout_event_def by (auto intro!: ticks_bind)
  moreover have "ticks (forget_event E i)" for i by (simp add: forget_event_def)
  moreover have "ticks (record_payout_event E e)" by (simp add: record_payout_event_def)
  ultimately show "ticks (pg_ApplyPayoutProviderEvent E e i)"
    unfolding pg_ApplyPayoutProviderEvent_unfold by (intro ticks_bind) (auto intro!: ticks_bind ticks_on_error)
  show "ticks (pg_ResolvePayoutProviderEvent E e)"
    unfolding pg_ResolvePayoutProviderEvent_def Let_def by (auto intro!: ticks_bind split: list.splits)
qed

lemma resolve_payout_db:
  assumes "pg_ResolvePayoutProviderEvent E e s = (r, s')"
  shows "pg_db s' = pg_db s"
proof -
  have rest: "pg_db v = pg_db u" if "(case ids of [] \<Rightarrow> io_fail ErrNotFound | [i] \<Rightarrow> io_return (e\<lparr>ev_PayoutID := i\<rparr>) | _ \<Rightarrow> io_fail ErrConflict) u = (x, v)"
    for ids u v and x :: "go_error + provider_event"
    using that by (auto simp: io_simps split: list.splits)
  show ?thesis
    using assms unfolding pg_ResolvePayoutProviderEvent_def Let_def
    by (auto simp: io_simps split: if_splits elim!: io_bindE db_callE dest!: rest)
qed

section \<open>The consumer of the program\<close>

definition postgres_events :: "pg_env \<Rightarrow> pgstate provider_events" where
  "postgres_events E = NewProviderEvents (pg_store E) (Some (pg_payout_event_store E)) (en_sha256 E)"

interpretation pg_consumer: event_service "pg_store E" "pg_status E" pg_seen "pg_inv E" "pg_up E"
  "\<lambda>e. en_uuid E (ev_TransactionID e) \<noteq> None" pg_same "Some (pg_payout_event_store E)" "\<lambda>e. en_uuid E (ev_PayoutID e) \<noteq> None" for E
proof (unfold_locales, goal_cases)
  case (1 pe s e rv s')
  then have "pg_db s' = pg_db s" by (auto simp: pg_payout_event_store_def dest: resolve_payout_db)
  moreover from 1 have "pg_up E s \<longrightarrow> pg_up E s'"
    by (auto simp: pg_payout_event_store_def dest: ticks_up [OF ticks_payout_event(2)])
  ultimately show ?case using 1(2) pg_status_same [of s s' E] by (simp add: pg_same_def pg_inv_def)
next
  case (2 pe s e i ra s')
  then have run: "pg_ApplyPayoutProviderEvent E e i s = (ra, s')" by (auto simp: pg_payout_event_store_def)
  have "db_payments (pg_db s') = db_payments (pg_db s) \<and> db_idempotency (pg_db s') = db_idempotency (pg_db s) \<and>
      db_merchants (pg_db s') = db_merchants (pg_db s) \<and> (\<forall>j. pg_seen s j \<longrightarrow> pg_seen s' j)"
    using run by (cases rule: payout_eventE) (auto simp: pg_seen_def pg_same_def)
  with 2(2) ticks_up [OF ticks_payout_event(1) run] pg_status_cong [of s' s E] pg_inv_db_frame [of "pg_db s'" "pg_db s" E]
  show ?case by (simp add: pg_inv_def)
next
  case (3 pe s e i x s')
  then have run: "pg_ApplyPayoutProviderEvent E e i s = (Inr x, s')" by (auto simp: pg_payout_event_store_def)
  then show ?case by (cases rule: payout_eventE) (auto simp: pg_seen_def pg_same_def)
next
  case (4 pe s e i ra s')
  then obtain u where "en_uuid E (ev_PayoutID e) = Some u" by auto
  moreover have "sql_conflict pv_event_id (ev_EventID e) (db_provider_events (pg_db s))"
    using 4(5) by (simp add: pg_seen_def sql_conflict_iff)
  ultimately have "record_payout_event E e s = (Inr 0, \<lparr>pg_db = pg_db s, pg_tick = Suc (pg_tick s)\<rparr>)"
    using 4(3) by (simp add: record_payout_event_def db_exec_up)
  with 4(1,6) show ?case
    by (auto simp: pg_payout_event_store_def pg_ApplyPayoutProviderEvent_unfold io_bind_def io_simps pg_same_def)
qed

lemma postgres_events_handled: "consumer_of (pg_store E) (Some (pg_payout_event_store E)) (postgres_events E)"
  by (simp add: consumer_of_def postgres_events_def NewProviderEvents_def)


text \<open>An outage of two calls after the event was recorded: the payout is not read, and the record is not deleted.\<close>

lemma outage_keeps_record:
  assumes "\<not> pg_seen s (ev_EventID e)" and "en_uuid E (ev_PayoutID e) \<noteq> None"
    and "\<not> en_down E (pg_tick s)" and "en_down E (Suc (pg_tick s))" and "en_down E (Suc (Suc (pg_tick s)))"
  shows "\<exists>s1. pg_ApplyPayoutProviderEvent E e i s = (Inl db_error, s1) \<and> pg_seen s1 (ev_EventID e) \<and> pg_tick s1 = pg_tick s + 3"
proof -
  obtain u where u: "en_uuid E (ev_PayoutID e) = Some u" using assms(2) by auto
  define row where "row = \<lparr>pv_event_id = ev_EventID e, pv_event_type = ev_EventType e, pv_transaction_id = None,
    pv_payout_id = Some u, pv_provider = ev_Provider e, pv_source = ev_Source e, pv_payload = e, pv_changed_state = False\<rparr>"
  have "\<not> sql_conflict pv_event_id (ev_EventID e) (db_provider_events (pg_db s))"
    using assms(1) by (simp add: pg_seen_def sql_conflict_iff)
  with u have "record_payout_event E e s = (Inr 1, \<lparr>pg_db = (pg_db s)\<lparr>db_provider_events := db_provider_events (pg_db s) @ [row]\<rparr>,
      pg_tick = Suc (pg_tick s)\<rparr>)"
    using assms(3) by (simp add: record_payout_event_def db_exec_def db_call_def Let_def row_def)
  moreover have "pv_event_id row = ev_EventID e" by (simp add: row_def)
  moreover have "check_payout_event E e v = (Inl db_error, v\<lparr>pg_tick := Suc (pg_tick v)\<rparr>)" if "en_down E (pg_tick v)" for v
    using that by (simp add: check_payout_event_def select_payout_def io_bind_def db_query_def db_call_def Let_def)
  moreover have "snd (forget_event E j v) = v\<lparr>pg_tick := Suc (pg_tick v)\<rparr>" if "en_down E (pg_tick v)" for v j
    using that by (simp add: forget_event_def db_exec_def db_call_def Let_def)
  ultimately show ?thesis using assms(4,5)
    by (simp add: pg_ApplyPayoutProviderEvent_unfold io_bind_def io_on_error_def pg_seen_def)
qed

text \<open>An error that leaves a fresh event recorded leaves everything else as it was.\<close>

lemma payout_event_stuck:
  assumes "pg_ApplyPayoutProviderEvent E e i s = (Inl err, s1)" and "\<not> pg_seen s (ev_EventID e)" and "pg_seen s1 (ev_EventID e)"
  shows "en_uuid E (ev_PayoutID e) \<noteq> None \<and> (\<exists>row. pv_event_id row = ev_EventID e \<and>
    pg_db s1 = (pg_db s)\<lparr>db_provider_events := db_provider_events (pg_db s) @ [row]\<rparr>)"
  using assms(1) by (cases rule: payout_eventE) (use assms(2,3) in \<open>auto simp: pg_seen_def\<close>)

lemma postgres_payout_event:
  "has_prefix (ev_EventType e) ''payout.provider_'' \<Longrightarrow> ev_PayoutID e \<noteq> '''' \<Longrightarrow> ProviderEvents_Handle (postgres_events E) e s =
    (if payout_event_invalid e then (Inl ErrInvalid, s)
     else pg_ApplyPayoutProviderEvent E e (deterministicUUID (en_sha256 E) (''merchant-event:'' @ ev_EventID e)) s)"
  by (simp add: ProviderEvents_Handle_def postgres_events_def NewProviderEvents_def io_bind_return pg_payout_event_store_def io_simps)

section \<open>Properties\<close>

text \<open>
  C15: no sequence of provider events, in any order and with any repetitions, moves a payment against the lifecycle, over the
  in-memory store and over PostgreSQL alike, however the database fails in between: the status of a payment after the
  sequence is one the transition table allows from the status before it, so a confirmed, failed or cancelled payment keeps
  its status for ever.
\<close>

theorem events_respect_lifecycle:
  "(mem_inv m \<and> mem_status m t = Some old \<longrightarrow>
      (\<exists>new. mem_status (handle_all (memory_events sha) es m) t = Some new \<and> PaymentTransitionAllowed old new) \<and>
      (final_status old \<longrightarrow> mem_status (handle_all (memory_events sha) es m) t = Some old)) \<and>
   (pg_inv E s \<and> pg_status E s t = Some old \<longrightarrow>
      (\<exists>new. pg_status E (handle_all (postgres_events E) es s) t = Some new \<and> PaymentTransitionAllowed old new) \<and>
      (final_status old \<longrightarrow> pg_status E (handle_all (postgres_events E) es s) t = Some old))"
  using mem_consumer.handle_all_path [OF memory_events_handled] mem_consumer.handle_all_final [OF memory_events_handled]
    pg_consumer.handle_all_path [OF postgres_events_handled] pg_consumer.handle_all_final [OF postgres_events_handled] by blast

definition ex_paid_state :: "string \<Rightarrow> pgstate" where
  "ex_paid_state status = \<lparr>pg_db = empty_db\<lparr>db_payments := [row_of_payment ''t1'' (zero_payment\<lparr>pay_Status := status\<rparr>)]\<rparr>, pg_tick = 0\<rparr>"

lemma ex_paid_state_inv [simp]: "pg_inv ex_flat_env (ex_paid_state st)" "pg_status ex_flat_env (ex_paid_state st) ''t1'' = Some st"
  using ex_flat_laws(1)
  by (simp_all add: ex_paid_state_def pg_inv_def pg_inv_db_def empty_db_def canonical_def pg_status_def pg_row_def row_of_payment_def
      ex_flat_env_def ex_env_def)

theorem events_respect_lifecycle_witness:
  "(let late = ex_event\<lparr>ev_Data := (ev_Data ex_event)\<lparr>ed_Status := ''pending''\<rparr>\<rparr>
    in mem_status (handle_all (memory_events ex_sha) [late] (ex_paid_store ''confirmed'')) ''t1'' = Some ''confirmed'' \<and>
       pg_status ex_flat_env (handle_all (postgres_events ex_flat_env) [late] (ex_paid_state ''confirmed'')) ''t1'' = Some ''confirmed'')"
proof -
  have m: "mem_status (ex_paid_store ''confirmed'') ''t1'' = Some ''confirmed''" by (simp add: ex_paid_store_def mem_status_def)
  note keeps = events_respect_lifecycle [THEN conjunct1, rule_format, OF conjI, THEN conjunct2, rule_format, OF ex_paid_store_inv]
    events_respect_lifecycle [THEN conjunct2, rule_format, OF conjI, THEN conjunct2, rule_format, OF ex_paid_state_inv]
  show ?thesis unfolding Let_def by (intro conjI keeps m confirmed_final)
qed

text \<open>
  C28: an event that was accepted once is answered as a duplicate however many other events came in between, and the
  duplicate changes nothing: not the in-memory store, and not a table of the database while it answers. An event about
  a payout that does not name it is left out: each delivery looks the payout up anew.
\<close>

theorem event_duplicate:
  "(mem_inv m \<and> ProviderEvents_Handle (memory_events sha) e m = (Inr x, m1) \<longrightarrow>
      ProviderEvents_Handle (memory_events sha) e (handle_all (memory_events sha) es m1) =
        (Inr (zero_result\<lparr>er_Duplicate := True\<rparr>), handle_all (memory_events sha) es m1)) \<and>
   (pg_inv E s \<and> pg_up E s \<and> ProviderEvents_Handle (postgres_events E) e s = (Inr x, s1) \<and>
      (has_prefix (ev_EventType e) ''payout.provider_'' \<longrightarrow> ev_PayoutID e \<noteq> '''') \<longrightarrow>
      (\<exists>s2. ProviderEvents_Handle (postgres_events E) e (handle_all (postgres_events E) es s1) =
          (Inr (zero_result\<lparr>er_Duplicate := True\<rparr>), s2) \<and>
        pg_db s2 = pg_db (handle_all (postgres_events E) es s1)))"
proof (intro conjI impI)
  assume "mem_inv m \<and> ProviderEvents_Handle (memory_events sha) e m = (Inr x, m1)"
  with mem_consumer.handle_twice [OF memory_events_handled] memory_event_accepted
  show "ProviderEvents_Handle (memory_events sha) e (handle_all (memory_events sha) es m1) =
      (Inr (zero_result\<lparr>er_Duplicate := True\<rparr>), handle_all (memory_events sha) es m1)" by fastforce
next
  assume "pg_inv E s \<and> pg_up E s \<and> ProviderEvents_Handle (postgres_events E) e s = (Inr x, s1) \<and>
    (has_prefix (ev_EventType e) ''payout.provider_'' \<longrightarrow> ev_PayoutID e \<noteq> '''')"
  with pg_consumer.handle_twice [OF postgres_events_handled]
  show "\<exists>s2. ProviderEvents_Handle (postgres_events E) e (handle_all (postgres_events E) es s1) =
      (Inr (zero_result\<lparr>er_Duplicate := True\<rparr>), s2) \<and> pg_db s2 = pg_db (handle_all (postgres_events E) es s1)"
    unfolding pg_same_def by blast
qed

theorem event_duplicate_witness:
  "\<exists>m1. ProviderEvents_Handle (memory_events ex_sha) ex_event (ex_paid_store ''expired'') =
      (Inr \<lparr>er_Duplicate = False, er_Changed = True, er_Status = ''confirmed''\<rparr>, m1)
    \<and> ProviderEvents_Handle (memory_events ex_sha) ex_event m1 = (Inr (zero_result\<lparr>er_Duplicate := True\<rparr>), m1)"
proof -
  obtain m1 where run: "ProviderEvents_Handle (memory_events ex_sha) ex_event (ex_paid_store ''expired'') =
      (Inr \<lparr>er_Duplicate = False, er_Changed = True, er_Status = ''confirmed''\<rparr>, m1)" using ex_memory_event by blast
  then show ?thesis using event_duplicate [THEN conjunct1, rule_format, OF conjI, OF ex_paid_store_inv run, of "[]"] by simp
qed

text \<open>
  C23: an event about a payout can be lost. Whenever the consumer answers a valid new event with an error but leaves it
  recorded, the event changed nothing else, and every later delivery is a duplicate that changes nothing, whatever other
  events come in between and although the database answers from then on. This can happen to any such event in any state: it
  is enough that two database calls fail after the event was recorded, because the record, the transition and the
  deletion of the record are not one transaction.
\<close>

theorem payout_event_can_be_lost:
  assumes "pg_inv E s" and "has_prefix (ev_EventType e) ''payout.provider_''" and "ev_PayoutID e \<noteq> ''''"
    and "\<not> pg_seen s (ev_EventID e)"
  shows "(ProviderEvents_Handle (postgres_events E) e s = (Inl err, s1) \<and> pg_seen s1 (ev_EventID e) \<and> pg_up E s1 \<longrightarrow>
      (\<exists>row. pv_event_id row = ev_EventID e \<and> pg_db s1 = (pg_db s)\<lparr>db_provider_events := db_provider_events (pg_db s) @ [row]\<rparr>) \<and>
      (\<forall>es. \<exists>s2. ProviderEvents_Handle (postgres_events E) e (handle_all (postgres_events E) es s1) =
          (Inr (zero_result\<lparr>er_Duplicate := True\<rparr>), s2) \<and> pg_db s2 = pg_db (handle_all (postgres_events E) es s1))) \<and>
    (\<not> payout_event_invalid e \<and> en_uuid E (ev_PayoutID e) \<noteq> None \<and>
      (\<forall>n \<ge> pg_tick s. en_down E n \<longleftrightarrow> n = pg_tick s + 1 \<or> n = pg_tick s + 2) \<longrightarrow>
      (\<exists>er u. ProviderEvents_Handle (postgres_events E) e s = (Inl er, u) \<and> pg_seen u (ev_EventID e) \<and> pg_up E u))"
proof (intro conjI impI, goal_cases)
  case 1
  note run = postgres_payout_event [OF assms(2,3), of E]
  have valid: "\<not> payout_event_invalid e" using 1 assms(4) by (auto simp: run)
  with 1 have "pg_ApplyPayoutProviderEvent E e (deterministicUUID (en_sha256 E) (''merchant-event:'' @ ev_EventID e)) s = (Inl err, s1)"
    by (simp add: run)
  from payout_event_stuck [OF this assms(4)] 1 have stuck: "en_uuid E (ev_PayoutID e) \<noteq> None"
    and ?case by blast+
  then show ?case by simp
next
  case 2
  note run = postgres_payout_event [OF assms(2,3), of E]
  have valid: "\<not> payout_event_invalid e" using 2 assms(4) by (auto simp: run)
  with 2 have "pg_ApplyPayoutProviderEvent E e (deterministicUUID (en_sha256 E) (''merchant-event:'' @ ev_EventID e)) s = (Inl err, s1)"
    by (simp add: run)
  from payout_event_stuck [OF this assms(4)] 2 valid assms(2,3)
  have ok: "recordable (Some (pg_payout_event_store E)) (\<lambda>e. en_uuid E (ev_TransactionID e) \<noteq> None) (\<lambda>e. en_uuid E (ev_PayoutID e) \<noteq> None) e"
    by (simp add: recordable_def)
  have "pg_inv E s1" using pg_consumer.handle_frame [OF postgres_events_handled assms(1)] 2 by blast
  with 2 pg_consumer.handle_all_seen [OF postgres_events_handled] pg_consumer.handle_recorded [OF postgres_events_handled _ _ _ ok]
  show ?case unfolding pg_same_def by blast
next
  case 3
  then have "\<not> en_down E (pg_tick s)" "en_down E (Suc (pg_tick s))" "en_down E (Suc (Suc (pg_tick s)))" by auto
  from outage_keeps_record [OF assms(4) _ this] 3 obtain u where
    u: "pg_ApplyPayoutProviderEvent E e (deterministicUUID (en_sha256 E) (''merchant-event:'' @ ev_EventID e)) s = (Inl db_error, u)"
    "pg_seen u (ev_EventID e)" "pg_tick u = pg_tick s + 3" by blast
  from u(3) 3 have "pg_up E u" by (auto simp: pg_up_def)
  with u 3 show ?case by (simp add: postgres_payout_event [OF assms(2,3)])
qed

definition ex_outage_env :: pg_env where
  "ex_outage_env = ex_flat_env\<lparr>en_down := (\<lambda>n. n = 1 \<or> n = 2)\<rparr>"

definition ex_confirmation :: provider_event where
  "ex_confirmation = ex_event\<lparr>ev_EventType := ''payout.provider_confirmed'', ev_PayoutID := ''p1'', ev_ProviderPayoutID := ''provider1''\<rparr>"

definition ex_paying_state :: pgstate where
  "ex_paying_state = \<lparr>pg_db = empty_db\<lparr>db_payouts := [new_payout_row 1000 ''p1'' ex_principal ''key1'' ''hash''
     ex_payout_request ex_route]\<rparr>, pg_tick = 0\<rparr>"

theorem payout_event_can_be_lost_witness:
  "\<exists>er s1 s2. ProviderEvents_Handle (postgres_events ex_outage_env) ex_confirmation ex_paying_state = (Inl er, s1) \<and>
     pg_up ex_outage_env s1 \<and> db_payouts (pg_db s1) = db_payouts (pg_db ex_paying_state) \<and>
     ProviderEvents_Handle (postgres_events ex_outage_env) ex_confirmation s1 = (Inr (zero_result\<lparr>er_Duplicate := True\<rparr>), s2) \<and>
     pg_db s2 = pg_db s1"
proof -
  let ?E = ex_outage_env and ?e = ex_confirmation and ?s = ex_paying_state
  have start: "pg_inv ?E ?s" "\<not> pg_seen ?s (ev_EventID ?e)"
    using ex_flat_laws(1)
    by (simp_all add: ex_paying_state_def pg_inv_def pg_inv_db_def empty_db_def pg_seen_def ex_outage_env_def uuid_laws_def canonical_def)
  have event: "has_prefix (ev_EventType ?e) ''payout.provider_''" "ev_PayoutID ?e \<noteq> ''''" "\<not> payout_event_invalid ?e"
    by (simp_all add: ex_confirmation_def has_prefix_def payout_event_invalid_def ex_event_def)
  have outage: "en_uuid ?E (ev_PayoutID ?e) \<noteq> None" "\<forall>n \<ge> pg_tick ?s. en_down ?E n \<longleftrightarrow> n = pg_tick ?s + 1 \<or> n = pg_tick ?s + 2"
    by (auto simp: ex_outage_env_def ex_flat_env_def ex_env_def ex_paying_state_def)
  note lost = payout_event_can_be_lost [OF start(1) event(1,2) start(2)]
  from lost [THEN conjunct2] event(3) outage obtain er s1 where
    s1: "ProviderEvents_Handle (postgres_events ?E) ?e ?s = (Inl er, s1)" "pg_seen s1 (ev_EventID ?e)" "pg_up ?E s1" by blast
  with lost [THEN conjunct1, of er s1] show ?thesis by (auto dest!: spec [of _ "[]"])
qed

end
