(* ===== verification/Pg_Refunds.thy ===== *)
theory Pg_Refunds
  imports Pg_Payments
begin

text \<open>
  \<^verbatim>\<open>adapters/postgres/refunds.go\<close>: the PostgreSQL refund store. Amounts are text columns that the
  SQL casts to \<^verbatim>\<open>numeric\<close>; a cast that fails is an error of the statement.
\<close>

section \<open>Rows and refunds\<close>

definition publicRefundStatus :: "string \<Rightarrow> string" where
  "publicRefundStatus v =
     (if v = ''succeeded'' then ''succeeded'' else if v = ''failed'' then ''failed'' else ''pending'')"

text \<open>A refund is read together with its payment.\<close>

definition scanRefund :: "refund_row \<times> payment_row \<Rightarrow> refund" where
  "scanRefund = (\<lambda>(r, p).
     \<lparr>rf_RefundID = rr_refund_id r, rf_TransactionID = rr_transaction_id r, rf_ExternalID = rr_external_id r,
      rf_Status = publicRefundStatus (rr_status r), rf_Amount = rr_amount r, rf_Currency = rr_currency r,
      rf_Reason = coalesce (rr_reason r), rf_CreationDate = rr_creation_date r, rf_CompletionDate = rr_completion_date r,
      rf_ProviderReference = coalesce (rr_provider_refund_id r),
      rf_Failure = (if coalesce (rr_last_error r) \<noteq> ''''
        then [(''code'', JStr ''refund_failed''), (''message'', JStr (coalesce (rr_last_error r)))] else []),
      rf_Metadata = rr_metadata r, rf_MerchantID = rr_merchant_id r, rf_AccountID = rr_account_id r,
      rf_ProviderPaymentID = py_provider_payment_id p, rf_Route = py_route_decision p,
      rf_BalanceDebited = rr_balance_debited r, rf_ProviderSubmitted = rr_provider_submitted r,
      rf_ResourceVersion = rr_resource_version r, rf_NextAttemptAt = rr_next_attempt_at r,
      rf_OperationalStatus = rr_status r\<rparr>)"

definition refundSelect :: "pgdb \<Rightarrow> (refund_row \<times> payment_row) list" where
  "refundSelect db = filter (\<lambda>(r, p). py_transaction_id p = rr_transaction_id r) (List.product (db_refunds db) (db_payments db))"

definition select_refund :: "pg_env \<Rightarrow> string \<Rightarrow> (refund_row \<Rightarrow> bool) \<Rightarrow> (pgstate, refund) go_io" where
  "select_refund E i visible = db_query E (\<lambda>db.
     case en_uuid E i of
       None \<Rightarrow> Inl db_error
     | Some u \<Rightarrow>
         (case find (\<lambda>(r, p). rr_refund_id r = u \<and> visible r) (refundSelect db) of
            None \<Rightarrow> Inl no_rows
          | Some x \<Rightarrow> Inr (scanRefund x)))"

definition refund_visible :: "principal \<Rightarrow> refund_row \<Rightarrow> bool" where
  "refund_visible p r \<longleftrightarrow> scope (pr_MerchantID p) (pr_AccountID p) (rr_merchant_id r) (rr_account_id r)"

definition pg_GetRefund :: "pg_env \<Rightarrow> principal \<Rightarrow> string \<Rightarrow> (pgstate, refund) go_io" where
  "pg_GetRefund E p i s =
     (case select_refund E i (refund_visible p) s of
        (Inl e, s') \<Rightarrow> (Inl (if errors_is e no_rows then ErrNotFound else e), s')
      | (Inr r, s') \<Rightarrow> (Inr r, s'))"

definition pg_ListRefunds :: "pg_env \<Rightarrow> principal \<Rightarrow> string \<Rightarrow> (pgstate, refund list) go_io" where
  "pg_ListRefunds E p paymentID = db_query E (\<lambda>db.
     case en_uuid E paymentID of
       None \<Rightarrow> Inl db_error
     | Some t \<Rightarrow> Inr (map scanRefund (sort_key (\<lambda>(r, q). rr_creation_date r)
         (filter (\<lambda>(r, q). rr_transaction_id r = t \<and> refund_visible p r) (refundSelect db)))))"

section \<open>Creating a refund\<close>

text \<open>The sum of the amounts of some rows, \<open>None\<close> when one does not cast.\<close>

fun sum_amounts :: "pg_env \<Rightarrow> refund_row list \<Rightarrow> rat option" where
  "sum_amounts E [] = Some 0"
| "sum_amounts E (r # rs) =
     (case (en_numeric E (rr_amount r), sum_amounts E rs) of
        (Some a, Some b) \<Rightarrow> Some (a + b) | _ \<Rightarrow> None)"

definition refundable :: "pg_env \<Rightarrow> string \<Rightarrow> string \<Rightarrow> string \<Rightarrow> pgdb \<Rightarrow> bool option" where
  "refundable E amount paid t db =
     (case (en_numeric E amount, en_numeric E paid,
            sum_amounts E (filter (\<lambda>r. rr_transaction_id r = t \<and> rr_status r \<noteq> ''failed'') (db_refunds db))) of
        (Some a, Some b, Some c) \<Rightarrow> Some (a > 0 \<and> a \<le> b - c)
      | _ \<Rightarrow> None)"

definition new_refund_row ::
  "time \<Rightarrow> string \<Rightarrow> string \<Rightarrow> payment \<Rightarrow> string \<Rightarrow> string \<Rightarrow> create_refund \<Rightarrow> refund_row" where
  "new_refund_row now u t p key hash inp =
     \<lparr>rr_refund_id = u, rr_transaction_id = t, rr_account_id = pay_AccountID p, rr_merchant_id = pay_MerchantID p,
      rr_external_id = cr_ExternalID inp, rr_idempotency_key = key, rr_request_hash = hash, rr_status = ''pending_debit'',
      rr_amount = cr_Amount inp, rr_currency = pay_Currency p, rr_reason = nullif (cr_Reason inp),
      rr_metadata = cr_Metadata inp, rr_provider_refund_id = None, rr_provider_status = None,
      rr_balance_debited = False, rr_provider_submitted = False, rr_resource_version = 1, rr_attempt_count = 0,
      rr_next_attempt_at = now, rr_last_error = None, rr_creation_date = now, rr_completion_date = None\<rparr>"

definition refund_key :: "refund_row \<Rightarrow> string \<times> string" where
  "refund_key r = (rr_merchant_id r, rr_idempotency_key r)"

definition insert_refund ::
  "pg_env \<Rightarrow> time \<Rightarrow> string \<Rightarrow> string \<Rightarrow> payment \<Rightarrow> string \<Rightarrow> string \<Rightarrow> create_refund \<Rightarrow> (pgstate, unit) go_io" where
  "insert_refund E now i paymentID p key hash inp = db_exec E (\<lambda>db.
     case (en_uuid E i, en_uuid E paymentID) of
       (Some u, Some t) \<Rightarrow>
         if sql_conflict rr_refund_id u (db_refunds db) \<or> sql_conflict refund_key (pay_MerchantID p, key) (db_refunds db) \<or>
            \<not> sql_conflict py_transaction_id t (db_payments db)
         then Inl db_error
         else Inr ((), db\<lparr>db_refunds := db_refunds db @ [new_refund_row now u t p key hash inp]\<rparr>)
     | _ \<Rightarrow> Inl db_error)"

definition created_refund :: "time \<Rightarrow> string \<Rightarrow> string \<Rightarrow> payment \<Rightarrow> create_refund \<Rightarrow> refund" where
  "created_refund wall i paymentID p inp =
     \<lparr>rf_RefundID = i, rf_TransactionID = paymentID, rf_ExternalID = cr_ExternalID inp, rf_Status = ''pending'',
      rf_Amount = cr_Amount inp, rf_Currency = pay_Currency p, rf_Reason = cr_Reason inp, rf_CreationDate = wall,
      rf_CompletionDate = None, rf_ProviderReference = '''', rf_Failure = [], rf_Metadata = cr_Metadata inp,
      rf_MerchantID = pay_MerchantID p, rf_AccountID = pay_AccountID p, rf_ProviderPaymentID = pay_ProviderPaymentID p,
      rf_Route = pay_Route p, rf_BalanceDebited = False, rf_ProviderSubmitted = False, rf_ResourceVersion = 1,
      rf_NextAttemptAt = 0, rf_OperationalStatus = ''pending_debit''\<rparr>"

definition refund_created_payload :: "pg_env \<Rightarrow> refund \<Rightarrow> event_payload" where
  "refund_created_payload E r =
     \<lparr>ep_eventId = deterministicID (en_sha256 E) (''refund.created:'' @ rf_RefundID r), ep_eventType = ''refund.created'',
      ep_apiVersion = ''2'', ep_merchantId = rf_MerchantID r, ep_creationDate = rf_CreationDate r, ep_resourceVersion = 1,
      ep_previousStatus = None, ep_object = ResRefund r\<rparr>"

text \<open>The statements of the transaction: the payment is locked, an earlier request is looked up.\<close>

definition lock_payment :: "pg_env \<Rightarrow> principal \<Rightarrow> string \<Rightarrow> (pgstate, payment) go_io" where
  "lock_payment E prin paymentID = db_query E (\<lambda>db.
     case en_uuid E paymentID of
       None \<Rightarrow> Inl db_error
     | Some t \<Rightarrow>
         (case find (\<lambda>r. py_transaction_id r = t \<and>
               scope (pr_MerchantID prin) (pr_AccountID prin) (py_merchant_id r) (py_account_id r)) (db_payments db) of
            None \<Rightarrow> Inl ErrNotFound
          | Some r \<Rightarrow> Inr (payment_of_row r)))"

definition earlier_refund :: "pg_env \<Rightarrow> string \<Rightarrow> string \<Rightarrow> (pgstate, (string \<times> string) option) go_io" where
  "earlier_refund E merchantID key = db_query E (\<lambda>db.
     Inr (map_option (\<lambda>r. (rr_refund_id r, rr_request_hash r)) (find (\<lambda>r. refund_key r = (merchantID, key)) (db_refunds db))))"

datatype refund_outcome = Earlier string | Created refund

definition refund_hash :: "pg_env \<Rightarrow> create_refund \<Rightarrow> string" where
  "refund_hash E inp = hex_encode (en_sha256 E (en_marshal_refund E inp))"

definition refund_id :: "pg_env \<Rightarrow> string \<Rightarrow> string \<Rightarrow> string" where
  "refund_id E m key = deterministicID (en_sha256 E) (m @ '':refund:'' @ key)"

text \<open>The insertion, once the amount is accepted.\<close>

definition insert_refund_tx ::
  "pg_env \<Rightarrow> string \<Rightarrow> string \<Rightarrow> create_refund \<Rightarrow> time \<Rightarrow> payment \<Rightarrow> (pgstate, refund_outcome) go_io" where
  "insert_refund_tx E paymentID key inp now p =
     io_bind (insert_refund E now (refund_id E (pay_MerchantID p) key) paymentID p key (refund_hash E inp) inp) (\<lambda>_.
     io_bind (nowUTC E) (\<lambda>wall.
     let r = created_refund wall (refund_id E (pay_MerchantID p) key) paymentID p inp; payload = refund_created_payload E r
     in io_bind (insert_deliveries E now (pay_MerchantID p) (pay_AccountID p) (ep_eventId payload) ''refund.created'' (Some payload))
          (\<lambda>_. io_return (Created r))))"

definition check_refund_tx :: "pg_env \<Rightarrow> string \<Rightarrow> create_refund \<Rightarrow> payment \<Rightarrow> (pgstate, unit) go_io" where
  "check_refund_tx E paymentID inp p =
     (if pay_Status p \<noteq> ''confirmed'' \<and> pay_Status p \<noteq> ''refunded''
      then io_fail (ErrWrap '''' ErrInvalid '': payment is not refundable'')
      else io_bind (io_try (db_query E (\<lambda>db. case en_uuid E paymentID of
                None \<Rightarrow> Inl db_error
              | Some t \<Rightarrow> (case refundable E (cr_Amount inp) (pay_Amount p) t db of None \<Rightarrow> Inl db_error | Some b \<Rightarrow> Inr b)))) (\<lambda>valid.
          if valid \<noteq> Inr True then io_fail (ErrWrap '''' ErrInvalid '': amount exceeds refundable balance'') else io_return ()))"

definition create_refund_tx ::
  "pg_env \<Rightarrow> principal \<Rightarrow> string \<Rightarrow> string \<Rightarrow> create_refund \<Rightarrow> time \<Rightarrow> (pgstate, refund_outcome) go_io" where
  "create_refund_tx E prin paymentID key inp now =
     io_bind (lock_payment E prin paymentID) (\<lambda>p. io_bind (earlier_refund E (pay_MerchantID p) key) (\<lambda>earlier. case earlier of
        Some (existingID, existingHash) \<Rightarrow>
          if existingHash \<noteq> refund_hash E inp then io_fail ErrConflict else io_return (Earlier existingID)
      | None \<Rightarrow> io_bind (check_refund_tx E paymentID inp p) (\<lambda>_. insert_refund_tx E paymentID key inp now p)))"

text \<open>A replay commits without looking at the error and then reads the refund outside the transaction.\<close>

definition pg_CreateRefund ::
  "pg_env \<Rightarrow> principal \<Rightarrow> string \<Rightarrow> string \<Rightarrow> create_refund \<Rightarrow> (pgstate, refund \<times> bool) go_io" where
  "pg_CreateRefund E prin paymentID key inp s =
     (case db_begin E s of
        (Inl e, s1) \<Rightarrow> (Inl e, s1)
      | (Inr now, s1) \<Rightarrow>
          (case create_refund_tx E prin paymentID key inp now s1 of
             (Inl e, s2) \<Rightarrow> (Inl e, s2\<lparr>pg_db := pg_db s1\<rparr>)
           | (Inr (Earlier i), s2) \<Rightarrow>
               io_bind (io_ignore (db_commit E)) (\<lambda>_. io_bind (pg_GetRefund E prin i) (\<lambda>r. io_return (r, True))) s2
           | (Inr (Created r), s2) \<Rightarrow>
               (case db_commit E s2 of
                  (Inl e, s3) \<Rightarrow> (Inl e, s3\<lparr>pg_db := pg_db s1\<rparr>)
                | (Inr _, s3) \<Rightarrow> (Inr (r, False), s3))))"

section \<open>Claiming\<close>

definition refund_work :: "string list" where
  "refund_work = [''pending_debit'', ''pending_provider'', ''pending'', ''pending_compensation'']"

definition claimable_refund :: "time \<Rightarrow> refund_row \<Rightarrow> bool" where
  "claimable_refund now r \<longleftrightarrow> rr_status r \<in> set refund_work \<and> rr_next_attempt_at r \<le> now"

definition claim_refund_rows :: "pg_env \<Rightarrow> nat \<Rightarrow> (pgstate, string list) go_io" where
  "claim_refund_rows E limit = db_call E (\<lambda>now db.
     let ids = map rr_refund_id (take limit (sort_key rr_creation_date (filter (claimable_refund now) (db_refunds db))));
         hit = (\<lambda>r. rr_refund_id r \<in> set ids)
     in Inr (map rr_refund_id (filter hit (db_refunds db)),
          db\<lparr>db_refunds := sql_update hit (\<lambda>r. r\<lparr>rr_next_attempt_at := now + minute_ns,
             rr_attempt_count := rr_attempt_count r + 1\<rparr>) (db_refunds db)\<rparr>))"

fun select_refunds :: "pg_env \<Rightarrow> string list \<Rightarrow> (pgstate, refund list) go_io" where
  "select_refunds E [] = io_return []"
| "select_refunds E (i # is) =
     io_bind (select_refund E i (\<lambda>_. True)) (\<lambda>p. io_bind (select_refunds E is) (\<lambda>ps. io_return (p # ps)))"

definition pg_ClaimRefunds :: "pg_env \<Rightarrow> int \<Rightarrow> (pgstate, refund list) go_io" where
  "pg_ClaimRefunds E limit = io_bind (claim_refund_rows E (nat limit)) (select_refunds E)"

section \<open>Transitions\<close>

definition transitioned_refund :: "time \<Rightarrow> string \<Rightarrow> jmap \<Rightarrow> refund_row \<Rightarrow> refund_row" where
  "transitioned_refund now nx f r = r
     \<lparr>rr_status := nx,
      rr_provider_refund_id := keep_unless (as_string (mget f ''providerRefundId'')) (rr_provider_refund_id r),
      rr_provider_status := keep_unless (as_string (mget f ''providerStatus'')) (rr_provider_status r),
      rr_last_error := nullif (as_string (mget f ''lastError'')),
      rr_balance_debited := rr_balance_debited r \<or> as_bool (mget f ''balanceDebited''),
      rr_provider_submitted := rr_provider_submitted r \<or> as_bool (mget f ''providerSubmitted''),
      rr_resource_version := rr_resource_version r + 1,
      rr_next_attempt_at := now,
      rr_completion_date := (if nx = ''succeeded'' \<or> nx = ''failed'' then Some now else rr_completion_date r)\<rparr>"

definition update_refund :: "pg_env \<Rightarrow> time \<Rightarrow> string \<Rightarrow> string \<Rightarrow> jmap \<Rightarrow> (pgstate, nat) go_io" where
  "update_refund E now i nx f = db_exec E (\<lambda>db.
     case en_uuid E i of
       None \<Rightarrow> Inl db_error
     | Some u \<Rightarrow>
         let hit = (\<lambda>r. rr_refund_id r = u \<and> rr_status r = as_string (mget f ''expectedStatus''))
         in if list_ex (\<lambda>r. hit r \<and> bigint_succ (rr_resource_version r) = None) (db_refunds db) then Inl db_error
            else Inr (sql_count hit (db_refunds db),
                   db\<lparr>db_refunds := sql_update hit (transitioned_refund now nx f) (db_refunds db)\<rparr>))"

text \<open>The payment becomes \<^verbatim>\<open>refunded\<close> when the succeeded refunds reach its amount.\<close>

definition succeeded_sum :: "pg_env \<Rightarrow> string \<Rightarrow> pgdb \<Rightarrow> rat option" where
  "succeeded_sum E t db = sum_amounts E (filter (\<lambda>r. rr_transaction_id r = t \<and> rr_status r = ''succeeded'') (db_refunds db))"

definition update_refunded :: "pg_env \<Rightarrow> string \<Rightarrow> (pgstate, unit) go_io" where
  "update_refunded E t = db_exec E (\<lambda>db.
     let hit = (\<lambda>p. py_transaction_id p = t) in
     if list_ex (\<lambda>p. hit p \<and> (en_numeric E (py_amount p) = None \<or> succeeded_sum E t db = None)) (db_payments db) then Inl db_error
     else Inr ((), db\<lparr>db_payments := sql_update hit
            (\<lambda>p. p\<lparr>py_status := (if the (succeeded_sum E t db) \<ge> the (en_numeric E (py_amount p)) then ''refunded'' else py_status p)\<rparr>)
            (db_payments db)\<rparr>))"

definition refund_changed_payload :: "pg_env \<Rightarrow> time \<Rightarrow> string \<Rightarrow> string \<Rightarrow> refund \<Rightarrow> event_payload" where
  "refund_changed_payload E wall i nx r =
     \<lparr>ep_eventId = deterministicID (en_sha256 E) (''refund.status_changed:'' @ i @ '':'' @ nx),
      ep_eventType = ''refund.status_changed'', ep_apiVersion = ''2'', ep_merchantId = rf_MerchantID r,
      ep_creationDate = wall, ep_resourceVersion = rf_ResourceVersion r, ep_previousStatus = Some ''pending'',
      ep_object = ResRefund r\<rparr>"

definition transition_refund_tx :: "pg_env \<Rightarrow> string \<Rightarrow> string \<Rightarrow> jmap \<Rightarrow> time \<Rightarrow> (pgstate, refund) go_io" where
  "transition_refund_tx E i nx f now =
     io_bind (update_refund E now i nx f) (\<lambda>affected.
     if affected \<noteq> 1 then io_fail ErrConflict
     else
     io_bind (select_refund E i (\<lambda>_. True)) (\<lambda>r.
     io_bind (if nx = ''succeeded'' then update_refunded E (rf_TransactionID r) else io_return ()) (\<lambda>_.
     if nx = ''succeeded'' \<or> nx = ''failed'' then
       io_bind (nowUTC E) (\<lambda>wall.
       let payload = refund_changed_payload E wall i nx r
       in io_bind (insert_deliveries E now (rf_MerchantID r) (rf_AccountID r) (ep_eventId payload)
              ''refund.status_changed'' (Some payload)) (\<lambda>_. io_return r))
     else io_return r)))"

definition pg_TransitionRefund :: "pg_env \<Rightarrow> string \<Rightarrow> string \<Rightarrow> jmap \<Rightarrow> (pgstate, refund) go_io" where
  "pg_TransitionRefund E i nx f = db_tx E (transition_refund_tx E i nx f)"

definition pg_refund_store :: "pg_env \<Rightarrow> pgstate refund_store" where
  "pg_refund_store E = \<lparr>rs_CreateRefund = pg_CreateRefund E, rs_GetRefund = pg_GetRefund E, rs_ListRefunds = pg_ListRefunds E,
     rs_ClaimRefunds = pg_ClaimRefunds E, rs_TransitionRefund = pg_TransitionRefund E\<rparr>"

section \<open>What the operations do to the tables\<close>

definition refund_ids_ok :: "pg_env \<Rightarrow> pgdb \<Rightarrow> bool" where
  "refund_ids_ok E db \<longleftrightarrow> uuid_laws E \<and> distinct (map rr_refund_id (db_refunds db)) \<and>
     list_all (canonical E) (map rr_refund_id (db_refunds db))"

lemma refund_ids_ok_frame: "db_refunds db' = db_refunds db \<Longrightarrow> refund_ids_ok E db' = refund_ids_ok E db"
  by (simp add: refund_ids_ok_def)

lemma scanRefund_simps [simp]:
  "rf_RefundID (scanRefund (r, p)) = rr_refund_id r" "rf_OperationalStatus (scanRefund (r, p)) = rr_status r"
  "rf_AccountID (scanRefund (r, p)) = rr_account_id r" "rf_Amount (scanRefund (r, p)) = rr_amount r"
  "rf_Currency (scanRefund (r, p)) = rr_currency r" "rf_TransactionID (scanRefund (r, p)) = rr_transaction_id r"
  "rf_MerchantID (scanRefund (r, p)) = rr_merchant_id r" "rf_Status (scanRefund (r, p)) = publicRefundStatus (rr_status r)"
  by (simp_all add: scanRefund_def)

lemma transitioned_refund_simps [simp]:
  "rr_refund_id (transitioned_refund now nx f r) = rr_refund_id r" "rr_status (transitioned_refund now nx f r) = nx"
  "rr_account_id (transitioned_refund now nx f r) = rr_account_id r" "rr_amount (transitioned_refund now nx f r) = rr_amount r"
  "rr_currency (transitioned_refund now nx f r) = rr_currency r" "rr_transaction_id (transitioned_refund now nx f r) = rr_transaction_id r"
  "rr_balance_debited (transitioned_refund now nx f r) = (rr_balance_debited r \<or> as_bool (mget f ''balanceDebited''))"
  by (simp_all add: transitioned_refund_def)

lemma in_refundSelect: "(r, p) \<in> set (refundSelect db) \<longleftrightarrow>
    r \<in> set (db_refunds db) \<and> p \<in> set (db_payments db) \<and> py_transaction_id p = rr_transaction_id r"
  by (auto simp: refundSelect_def)

lemma select_refund_db: "select_refund E i P s = (r, s') \<Longrightarrow> pg_db s' = pg_db s"
  unfolding select_refund_def by (erule db_queryE) auto

lemma select_refundE:
  assumes "select_refund E i P s = (Inr x, s')"
  obtains u r p where "en_uuid E i = Some u" "r \<in> set (db_refunds (pg_db s))" "p \<in> set (db_payments (pg_db s))"
    "py_transaction_id p = rr_transaction_id r" "rr_refund_id r = u" "P r" "x = scanRefund (r, p)" "pg_db s' = pg_db s"
proof -
  from assms obtain u r p where "en_uuid E i = Some u" and f: "find (\<lambda>(r, p). rr_refund_id r = u \<and> P r) (refundSelect (pg_db s)) = Some (r, p)"
    and "x = scanRefund (r, p)" "pg_db s' = pg_db s"
    unfolding select_refund_def by (elim db_queryE) (auto split: option.splits)
  moreover from find_SomeD [OF f] have "(r, p) \<in> set (refundSelect (pg_db s))" "rr_refund_id r = u" "P r" by auto
  ultimately show thesis using that by (auto simp: in_refundSelect)
qed

definition refund_hit :: "string \<Rightarrow> string \<Rightarrow> refund_row \<Rightarrow> bool" where
  "refund_hit u expected r \<longleftrightarrow> rr_refund_id r = u \<and> rr_status r = expected"

lemma refund_hit_fold: "(\<lambda>r. rr_refund_id r = u \<and> rr_status r = e) = refund_hit u e"
  by (simp add: fun_eq_iff refund_hit_def)

lemma update_refundE:
  assumes "update_refund E now i nx f s = (Inr n, s')"
  obtains u where "en_uuid E i = Some u" "n = sql_count (refund_hit u (as_string (mget f ''expectedStatus''))) (db_refunds (pg_db s))"
    "pg_db s' = (pg_db s)\<lparr>db_refunds := sql_update (refund_hit u (as_string (mget f ''expectedStatus''))) (transitioned_refund now nx f) (db_refunds (pg_db s))\<rparr>"
  using assms unfolding update_refund_def refund_hit_fold
  by (elim db_execE) (auto simp: Let_def refund_hit_fold split: option.splits if_splits)

text \<open>The payments after a refund succeeded.\<close>

definition settled_payments :: "pg_env \<Rightarrow> string \<Rightarrow> pgdb \<Rightarrow> payment_row list" where
  "settled_payments E t db = sql_update (\<lambda>p. py_transaction_id p = t)
     (\<lambda>p. p\<lparr>py_status := (if the (succeeded_sum E t db) \<ge> the (en_numeric E (py_amount p)) then ''refunded'' else py_status p)\<rparr>)
     (db_payments db)"

lemma update_refundedE:
  assumes "update_refunded E t s = (Inr x, s')"
  shows "pg_db s' = (pg_db s)\<lparr>db_payments := settled_payments E t (pg_db s)\<rparr> \<and>
    (\<forall>p \<in> set (db_payments (pg_db s)). py_transaction_id p = t \<longrightarrow> en_numeric E (py_amount p) \<noteq> None \<and> succeeded_sum E t (pg_db s) \<noteq> None)"
  using assms unfolding update_refunded_def
  by (elim db_execE) (auto simp: Let_def settled_payments_def list_ex_iff dest!: sym [of _ "pg_db s'"] split: if_splits)

lemma transition_refundE:
  assumes "pg_TransitionRefund E i nx f s = (res, s')"
  obtains (error) e where "res = Inl e" "pg_db s' = pg_db s"
    | (moved) now u row db1 ps ds where "en_uuid E i = Some u" "row \<in> set (db_refunds (pg_db s))"
        "refund_hit u (as_string (mget f ''expectedStatus'')) row"
        "db1 = (pg_db s)\<lparr>db_refunds := sql_update (refund_hit u (as_string (mget f ''expectedStatus''))) (transitioned_refund now nx f) (db_refunds (pg_db s))\<rparr>"
        "\<exists>t \<in> rr_transaction_id ` {r \<in> set (db_refunds db1). rr_refund_id r = u}.
           ps = (if nx = ''succeeded'' then settled_payments E t db1 else db_payments (pg_db s)) \<and>
           (nx = ''succeeded'' \<longrightarrow> (\<forall>p \<in> set (db_payments db1). py_transaction_id p = t \<longrightarrow>
              en_numeric E (py_amount p) \<noteq> None \<and> succeeded_sum E t db1 \<noteq> None))"
        "pg_db s' = db1\<lparr>db_payments := ps, db_deliveries := ds\<rparr>"
proof -
  from assms have tx: "db_tx E (transition_refund_tx E i nx f) s = (res, s')" by (simp add: pg_TransitionRefund_def)
  then show thesis
  proof (cases rule: db_txE)
    case (error e)
    then show thesis by (rule that(1))
  next
    case (committed now s1 x s2)
    let ?e = "as_string (mget f ''expectedStatus'')"
    from committed(4) [unfolded transition_refund_tx_def]
    obtain s3 where upd: "update_refund E now i nx f s1 = (Inr 1, s3)"
      and rest: "io_bind (select_refund E i (\<lambda>_. True)) (\<lambda>r.
        io_bind (if nx = ''succeeded'' then update_refunded E (rf_TransactionID r) else io_return ()) (\<lambda>_.
        if nx = ''succeeded'' \<or> nx = ''failed'' then
          io_bind (nowUTC E) (\<lambda>wall. let payload = refund_changed_payload E wall i nx r
            in io_bind (insert_deliveries E now (rf_MerchantID r) (rf_AccountID r) (ep_eventId payload)
              ''refund.status_changed'' (Some payload)) (\<lambda>_. io_return r))
        else io_return r)) s3 = (Inr x, s2)"
      by (elim io_bind_InrE) (auto simp: io_simps split: if_splits)
    from upd obtain u where u: "en_uuid E i = Some u" and one: "sql_count (refund_hit u ?e) (db_refunds (pg_db s)) = 1"
      and s3: "pg_db s3 = (pg_db s)\<lparr>db_refunds := sql_update (refund_hit u ?e) (transitioned_refund now nx f) (db_refunds (pg_db s))\<rparr>"
      using committed(2) by (auto elim!: update_refundE)
    from one have "0 < sql_count (refund_hit u ?e) (db_refunds (pg_db s))" by simp
    then obtain row where row: "row \<in> set (db_refunds (pg_db s))" "refund_hit u ?e row" by (auto simp: sql_count_pos)
    from rest obtain r s4 y s5 where sel: "select_refund E i (\<lambda>_. True) s3 = (Inr r, s4)"
      and pay: "(if nx = ''succeeded'' then update_refunded E (rf_TransactionID r) else io_return ()) s4 = (Inr y, s5)"
      and last: "(if nx = ''succeeded'' \<or> nx = ''failed'' then
          io_bind (nowUTC E) (\<lambda>wall. let payload = refund_changed_payload E wall i nx r
            in io_bind (insert_deliveries E now (rf_MerchantID r) (rf_AccountID r) (ep_eventId payload)
              ''refund.status_changed'' (Some payload)) (\<lambda>_. io_return r))
        else io_return r) s5 = (Inr x, s2)"
      by (elim io_bind_InrE)
    from last have fin: "s2 = s5 \<or> (\<exists>m a e et pl z wall s6. nowUTC E s5 = (Inr wall, s6) \<and> insert_deliveries E now m a e et pl s6 = (Inr z, s2))"
    proof (cases "nx = ''succeeded'' \<or> nx = ''failed''")
      case True
      with last have "io_bind (nowUTC E) (\<lambda>wall. io_bind (insert_deliveries E now (rf_MerchantID r) (rf_AccountID r)
          (ep_eventId (refund_changed_payload E wall i nx r)) ''refund.status_changed'' (Some (refund_changed_payload E wall i nx r)))
          (\<lambda>_. io_return r)) s5 = (Inr x, s2)" by (simp add: Let_def)
      then show ?thesis
      proof (cases rule: io_bindE)
        case (ok wall s6)
        from ok(2) show ?thesis by (cases rule: io_bindE) (use ok(1) in \<open>auto simp: io_simps\<close>)
      qed simp
    qed (use last in \<open>auto simp: io_simps\<close>)
    from sel u obtain rr p where rr: "rr \<in> set (db_refunds (pg_db s3))" "rr_refund_id rr = u" "r = scanRefund (rr, p)"
      and s4: "pg_db s4 = pg_db s3" by (auto elim!: select_refundE)
    from fin have s2: "\<exists>ds. pg_db s2 = (pg_db s5)\<lparr>db_deliveries := ds\<rparr>"
    proof
      assume "s2 = s5"
      then show ?thesis by (intro exI [of _ "db_deliveries (pg_db s5)"]) simp
    next
      assume "\<exists>m a e et pl z wall s6. nowUTC E s5 = (Inr wall, s6) \<and> insert_deliveries E now m a e et pl s6 = (Inr z, s2)"
      then show ?thesis by (auto simp: nowUTC_def dest!: insert_deliveries_effect)
    qed
    let ?t = "rr_transaction_id rr"
    have s5: "pg_db s5 = (pg_db s3)\<lparr>db_payments := (if nx = ''succeeded'' then settled_payments E ?t (pg_db s3) else db_payments (pg_db s))\<rparr> \<and>
        (nx = ''succeeded'' \<longrightarrow> (\<forall>p \<in> set (db_payments (pg_db s3)). py_transaction_id p = ?t \<longrightarrow>
              en_numeric E (py_amount p) \<noteq> None \<and> succeeded_sum E ?t (pg_db s3) \<noteq> None))"
    proof (cases "nx = ''succeeded''")
      case True
      with pay rr(3) have "update_refunded E ?t s4 = (Inr y, s5)" by simp
      from update_refundedE [OF this] True s4 show ?thesis by simp
    next
      case False
      with pay s4 s3 show ?thesis by (simp add: io_simps)
    qed
    from s2 obtain ds where ds: "pg_db s2 = (pg_db s5)\<lparr>db_deliveries := ds\<rparr>" ..
    show thesis
      by (rule that(2) [OF u row refl, where ds = ds]) (use s5 rr s3 ds committed(6) in auto)
  qed
qed

lemma check_refundE:
  assumes "check_refund_tx E paymentID inp p s = (Inr x, s')"
  shows "(pay_Status p = ''confirmed'' \<or> pay_Status p = ''refunded'') \<and> pg_db s' = pg_db s \<and>
    (\<exists>t. en_uuid E paymentID = Some t \<and> refundable E (cr_Amount inp) (pay_Amount p) t (pg_db s) = Some True)"
  using assms unfolding check_refund_tx_def
  by (auto simp: io_simps io_bind_def io_try_def split: if_splits prod.splits option.splits elim!: db_queryE)

lemma lock_paymentE:
  assumes "lock_payment E prin paymentID s = (Inr p, s')"
  obtains t row where "en_uuid E paymentID = Some t" "row \<in> set (db_payments (pg_db s))" "py_transaction_id row = t"
    "scope (pr_MerchantID prin) (pr_AccountID prin) (py_merchant_id row) (py_account_id row)" "p = payment_of_row row" "pg_db s' = pg_db s"
  using assms unfolding lock_payment_def
  by (elim db_queryE) (auto split: option.splits dest!: find_SomeD)

lemma insert_refund_txE:
  assumes "insert_refund_tx E paymentID key inp now p s = (Inr x, s')"
  obtains u t wall ds where "en_uuid E (refund_id E (pay_MerchantID p) key) = Some u" "en_uuid E paymentID = Some t"
    "u \<notin> rr_refund_id ` set (db_refunds (pg_db s))" "(pay_MerchantID p, key) \<notin> refund_key ` set (db_refunds (pg_db s))"
    "x = Created (created_refund wall (refund_id E (pay_MerchantID p) key) paymentID p inp)"
    "pg_db s' = (pg_db s)\<lparr>db_refunds := db_refunds (pg_db s) @ [new_refund_row now u t p key (refund_hash E inp) inp], db_deliveries := ds\<rparr>"
proof -
  from assms obtain y s1 wall s2 z where ins: "insert_refund E now (refund_id E (pay_MerchantID p) key) paymentID p key (refund_hash E inp) inp s = (Inr y, s1)"
    and wall: "nowUTC E s1 = (Inr wall, s2)"
    and x: "x = Created (created_refund wall (refund_id E (pay_MerchantID p) key) paymentID p inp)"
    and del: "\<exists>m a e et pl. insert_deliveries E now m a e et pl s2 = (Inr z, s')"
    unfolding insert_refund_tx_def by (elim io_bind_InrE) (fastforce simp: Let_def io_simps elim!: io_bind_InrE)
  from ins obtain u t where u: "en_uuid E (refund_id E (pay_MerchantID p) key) = Some u" and t: "en_uuid E paymentID = Some t"
    and fresh: "u \<notin> rr_refund_id ` set (db_refunds (pg_db s))" "(pay_MerchantID p, key) \<notin> refund_key ` set (db_refunds (pg_db s))"
    and s1: "pg_db s1 = (pg_db s)\<lparr>db_refunds := db_refunds (pg_db s) @ [new_refund_row now u t p key (refund_hash E inp) inp]\<rparr>"
    unfolding insert_refund_def
    by (elim db_execE) (auto simp: sql_conflict_iff dest!: sym [of _ "pg_db s1"] split: option.splits if_splits)
  from del wall s1 have "\<exists>ds. pg_db s' = (pg_db s)\<lparr>db_refunds := db_refunds (pg_db s) @ [new_refund_row now u t p key (refund_hash E inp) inp], db_deliveries := ds\<rparr>"
    by (auto simp: nowUTC_def dest!: insert_deliveries_effect)
  with u t fresh x show thesis using that by blast
qed

lemma earlier_refundE:
  "earlier_refund E m key s = (Inr x, s') \<Longrightarrow> pg_db s' = pg_db s \<and>
     (\<forall>i h. x = Some (i, h) \<longrightarrow> (\<exists>r \<in> set (db_refunds (pg_db s)). refund_key r = (m, key) \<and> rr_refund_id r = i \<and> rr_request_hash r = h))"
  unfolding earlier_refund_def by (elim db_queryE) (auto dest!: find_SomeD)

lemma pg_GetRefund_db: "pg_GetRefund E p i s = (r, s') \<Longrightarrow> pg_db s' = pg_db s"
  unfolding pg_GetRefund_def by (auto split: prod.splits sum.splits dest!: select_refund_db)

text \<open>A refund is created within the refundable balance of a confirmed payment, or no table changes.\<close>

definition refund_accepted :: "pg_env \<Rightarrow> principal \<Rightarrow> string \<Rightarrow> string \<Rightarrow> create_refund \<Rightarrow> pgdb \<Rightarrow> payment_row \<Rightarrow> string \<Rightarrow> string \<Rightarrow> bool" where
  "refund_accepted E prin paymentID key inp db row u t \<longleftrightarrow>
     row \<in> set (db_payments db) \<and> py_transaction_id row = t \<and> en_uuid E paymentID = Some t \<and>
     scope (pr_MerchantID prin) (pr_AccountID prin) (py_merchant_id row) (py_account_id row) \<and>
     (py_status row = ''confirmed'' \<or> py_status row = ''refunded'') \<and>
     refundable E (cr_Amount inp) (py_amount row) t db = Some True \<and>
     en_uuid E (refund_id E (py_merchant_id row) key) = Some u \<and> u \<notin> rr_refund_id ` set (db_refunds db) \<and>
     (py_merchant_id row, key) \<notin> refund_key ` set (db_refunds db)"

lemma payment_of_row_simps [simp]:
  "pay_Status (payment_of_row r) = py_status r" "pay_Amount (payment_of_row r) = py_amount r"
  "pay_MerchantID (payment_of_row r) = py_merchant_id r" "pay_AccountID (payment_of_row r) = py_account_id r"
  "pay_Currency (payment_of_row r) = py_currency r"
  by (simp_all add: payment_of_row_def)

lemma create_refund_txE:
  assumes "create_refund_tx E prin paymentID key inp now s = (Inr x, s')"
  obtains (earlier) i where "x = Earlier i" "pg_db s' = pg_db s"
    | (created) row u t wall ds where "refund_accepted E prin paymentID key inp (pg_db s) row u t"
        "x = Created (created_refund wall (refund_id E (py_merchant_id row) key) paymentID (payment_of_row row) inp)"
        "pg_db s' = (pg_db s)\<lparr>db_refunds := db_refunds (pg_db s) @ [new_refund_row now u t (payment_of_row row) key (refund_hash E inp) inp], db_deliveries := ds\<rparr>"
proof -
  from assms obtain p s1 e s2 where lock: "lock_payment E prin paymentID s = (Inr p, s1)"
    and early: "earlier_refund E (pay_MerchantID p) key s1 = (Inr e, s2)"
    and rest: "(case e of Some (i, h) \<Rightarrow> if h \<noteq> refund_hash E inp then io_fail ErrConflict else io_return (Earlier i)
      | None \<Rightarrow> io_bind (check_refund_tx E paymentID inp p) (\<lambda>_. insert_refund_tx E paymentID key inp now p)) s2 = (Inr x, s')"
    unfolding create_refund_tx_def by (elim io_bind_InrE)
  from lock obtain t row where row: "en_uuid E paymentID = Some t" "row \<in> set (db_payments (pg_db s))" "py_transaction_id row = t"
    "scope (pr_MerchantID prin) (pr_AccountID prin) (py_merchant_id row) (py_account_id row)" "p = payment_of_row row" "pg_db s1 = pg_db s"
    by (rule lock_paymentE)
  have s2: "pg_db s2 = pg_db s" using earlier_refundE [OF early] row by simp
  show thesis
  proof (cases e)
    case (Some ih)
    with rest s2 show thesis by (intro earlier [of "fst ih"]) (auto simp: io_simps split: prod.splits if_splits)
  next
    case None
    with rest obtain y s3 where chk: "check_refund_tx E paymentID inp p s2 = (Inr y, s3)"
      and ins: "insert_refund_tx E paymentID key inp now p s3 = (Inr x, s')" by (auto elim: io_bind_InrE)
    from check_refundE [OF chk] s2 row(5) row(1) have ok: "py_status row = ''confirmed'' \<or> py_status row = ''refunded''"
      "refundable E (cr_Amount inp) (py_amount row) t (pg_db s) = Some True" and s3: "pg_db s3 = pg_db s" by auto
    from ins show thesis
    proof (cases rule: insert_refund_txE)
      case (1 u t' wall ds)
      with row ok s3 show thesis by (intro created [of row u t wall ds]) (auto simp: refund_accepted_def)
    qed
  qed
qed

lemma pg_CreateRefundE:
  assumes "pg_CreateRefund E prin paymentID key inp s = (r, s')"
  obtains (same) "pg_db s' = pg_db s" "\<forall>x. r \<noteq> Inr (x, False)"
    | (created) now row u t wall ds where "refund_accepted E prin paymentID key inp (pg_db s) row u t"
        "r = Inr (created_refund wall (refund_id E (py_merchant_id row) key) paymentID (payment_of_row row) inp, False)"
        "pg_db s' = (pg_db s)\<lparr>db_refunds := db_refunds (pg_db s) @ [new_refund_row now u t (payment_of_row row) key (refund_hash E inp) inp], db_deliveries := ds\<rparr>"
proof -
  obtain r1 s1 where b: "db_begin E s = (r1, s1)" by force
  then have s1: "pg_db s1 = pg_db s" by (auto simp: db_begin_def elim!: db_callE)
  have commit: "pg_db v = pg_db u" if "db_commit E u = (c, v)" for c u v
    using that by (auto simp: db_commit_def elim!: db_callE)
  show thesis
  proof (cases r1)
    case (Inl e)
    with assms b s1 show thesis by (intro same) (auto simp: pg_CreateRefund_def)
  next
    case (Inr now)
    obtain r2 s2 where tx: "create_refund_tx E prin paymentID key inp now s1 = (r2, s2)" by force
    show thesis
    proof (cases r2)
      case (Inl e)
      with assms b Inr tx s1 show thesis by (intro same) (auto simp: pg_CreateRefund_def)
    next
      case r2: (Inr x)
      from tx [unfolded r2] show thesis
      proof (cases rule: create_refund_txE)
        case (earlier i)
        obtain c s3 where c: "db_commit E s2 = (c, s3)" by force
        obtain g s4 where g: "pg_GetRefund E prin i s3 = (g, s4)" by force
        from assms b Inr tx r2 earlier(1) c g have "s' = s4" "\<forall>x. r \<noteq> Inr (x, False)"
          by (auto simp: pg_CreateRefund_def io_ignore_def io_bind_def io_simps split: sum.splits)
        with pg_GetRefund_db [OF g] commit [OF c] earlier(2) s1 show thesis by (intro same) auto
      next
        case (created row u t wall ds)
        obtain c s3 where c: "db_commit E s2 = (c, s3)" by force
        show thesis
        proof (cases c)
          case (Inl e)
          with assms b Inr tx r2 created(2) c s1 show thesis
            by (intro same) (auto simp: pg_CreateRefund_def)
        next
          case c': (Inr v)
          with assms b Inr tx r2 created(2) c have fin: "s' = s3"
            "r = Inr (created_refund wall (refund_id E (py_merchant_id row) key) paymentID (payment_of_row row) inp, False)"
            by (auto simp: pg_CreateRefund_def)
          show thesis
            by (rule that(2) [OF _ fin(2)]) (use created commit [OF c] s1 fin in auto)
        qed
      qed
    qed
  qed
qed

definition leased_refund :: "time \<Rightarrow> string set \<Rightarrow> refund_row \<Rightarrow> refund_row" where
  "leased_refund now ids r = (if rr_refund_id r \<in> ids
     then r\<lparr>rr_next_attempt_at := now + minute_ns, rr_attempt_count := rr_attempt_count r + 1\<rparr> else r)"

lemma leased_refund_simps [simp]:
  "rr_refund_id (leased_refund now ids r) = rr_refund_id r" "rr_status (leased_refund now ids r) = rr_status r"
  "rr_account_id (leased_refund now ids r) = rr_account_id r" "rr_amount (leased_refund now ids r) = rr_amount r"
  "rr_currency (leased_refund now ids r) = rr_currency r" "rr_balance_debited (leased_refund now ids r) = rr_balance_debited r"
  "rr_transaction_id (leased_refund now ids r) = rr_transaction_id r"
  by (simp_all add: leased_refund_def)

lemma select_refunds_sound:
  "select_refunds E ids s = (r, s') \<Longrightarrow> pg_db s' = pg_db s \<and>
    (\<forall>ps. r = Inr ps \<longrightarrow> (\<forall>x \<in> set ps. \<exists>row \<in> set (db_refunds (pg_db s)). \<exists>p. x = scanRefund (row, p)))"
proof (induction ids arbitrary: s r s')
  case (Cons i ids)
  from Cons.prems have "io_bind (select_refund E i (\<lambda>_. True))
    (\<lambda>p. io_bind (select_refunds E ids) (\<lambda>ps. io_return (p # ps))) s = (r, s')" by simp
  then show ?case
  proof (cases rule: io_bindE)
    case (error e)
    then show ?thesis by (auto dest: select_refund_db)
  next
    case (ok p u)
    then have u: "pg_db u = pg_db s" and p: "\<exists>row \<in> set (db_refunds (pg_db s)). \<exists>q. p = scanRefund (row, q)"
      by (auto elim!: select_refundE)
    from ok(2) show ?thesis
    proof (cases rule: io_bindE)
      case (error e)
      with Cons.IH [OF error(1)] u show ?thesis by simp
    next
      case (ok ps v)
      with Cons.IH [OF ok(1)] u p show ?thesis by (auto simp: io_simps) blast
    qed
  qed
qed (simp add: io_simps)

lemma pg_ClaimRefundsE:
  assumes "pg_ClaimRefunds E n s = (r, s')"
  obtains now ids where "pg_db s' = (pg_db s)\<lparr>db_refunds := map (leased_refund now ids) (db_refunds (pg_db s))\<rparr>"
    "\<And>ps. r = Inr ps \<Longrightarrow> \<forall>x \<in> set ps. \<exists>row \<in> set (db_refunds (pg_db s')). \<exists>p. x = scanRefund (row, p)"
proof -
  have leased: "sql_update (\<lambda>r. rr_refund_id r \<in> ids) (\<lambda>r. r\<lparr>rr_next_attempt_at := now + minute_ns,
      rr_attempt_count := rr_attempt_count r + 1\<rparr>) rows = map (leased_refund now ids) rows" for ids now rows
    by (simp add: sql_update_def leased_refund_def)
  have idle: "pg_db s = (pg_db s)\<lparr>db_refunds := map (leased_refund now {}) (db_refunds (pg_db s))\<rparr>" for now
  proof -
    have "map (leased_refund now {}) (db_refunds (pg_db s)) = db_refunds (pg_db s)"
      by (rule map_idI) (simp add: leased_refund_def)
    then show ?thesis by simp
  qed
  from assms show thesis unfolding pg_ClaimRefunds_def
  proof (cases rule: io_bindE)
    case (error e)
    from error(1) have "pg_db s' = pg_db s"
      unfolding claim_refund_rows_def by (cases rule: db_callE) (auto simp: Let_def)
    then have kept: "pg_db s' = (pg_db s)\<lparr>db_refunds := map (leased_refund 0 {}) (db_refunds (pg_db s))\<rparr>"
      using idle [of 0] by (rule trans)
    have none: "\<forall>x \<in> set ps. \<exists>row \<in> set (db_refunds (pg_db s')). \<exists>p. x = scanRefund (row, p)" if "r = Inr ps" for ps
      using error(2) that by simp
    show thesis by (rule that [OF kept none])
  next
    case (ok ids u)
    from ok(1) obtain now js where u: "pg_db u = (pg_db s)\<lparr>db_refunds := map (leased_refund now js) (db_refunds (pg_db s))\<rparr>"
      unfolding claim_refund_rows_def by (cases rule: db_callE) (auto simp: Let_def leased)
    have "pg_db s' = pg_db u \<and> (\<forall>ps. r = Inr ps \<longrightarrow> (\<forall>x \<in> set ps. \<exists>row \<in> set (db_refunds (pg_db u)). \<exists>p. x = scanRefund (row, p)))"
      by (rule select_refunds_sound [OF ok(2)])
    with u show thesis by (intro that [of now js]) auto
  qed
qed

end
