(* ===== verification/Refunds_App.thy ===== *)
theory Refunds_App
  imports Payouts_App
begin

text \<open>
  \<^verbatim>\<open>app/refunds.go\<close>: the refund service and its worker. \<^verbatim>\<open>native\<close>, \<^verbatim>\<open>legacy\<close> and \<^verbatim>\<open>ledger\<close> may be
  nil (\<open>None\<close>); a call through a nil interface panics.
\<close>

record 's refunds =
  fs_store :: "'s payment_store"
  fs_native :: "'s refund_store option"
  fs_legacy :: "legacy_refunds option"
  fs_connector :: connector
  fs_ledger :: "ledger option"

section \<open>The worker\<close>

definition send_refund_update :: "'s refund_store \<Rightarrow> string \<Rightarrow> string \<Rightarrow> jmap \<Rightarrow> ('s world, unit) go_io" where
  "send_refund_update native i next f = io_ignore (on_store (rs_TransitionRefund native i next f))"

definition Refunds_next :: "string \<Rightarrow> string" where
  "Refunds_next status =
     (if status = ''confirmed'' then ''succeeded''
      else if status = ''failed'' \<or> status = ''rejected'' then ''pending_compensation''
      else ''pending'')"

definition Refunds_applyProvider :: "'s refund_store \<Rightarrow> refund \<Rightarrow> provider_refund \<Rightarrow> ('s world, unit) go_io" where
  "Refunds_applyProvider native r p =
     (let f = transition (rf_OperationalStatus r);
          f = mput ''providerSubmitted'' (JBool True) f;
          f = mput ''providerRefundId'' (JStr (prf_ProviderRefundID p)) f;
          f = mput ''providerStatus'' (JStr (prf_RawStatus p)) f
      in send_refund_update native (rf_RefundID r) (Refunds_next (prf_Status p)) f)"

definition debit_refund :: "ledger \<Rightarrow> refund \<Rightarrow> ('s world, unit) go_io" where
  "debit_refund l r = ext_call (CallDebitRefund (rf_AccountID r) (rf_RefundID r) (rf_Amount r) (rf_Currency r))
     (\<lambda>h. le_DebitConfirmedRefund l h (rf_AccountID r) (rf_RefundID r) (rf_Amount r) (rf_Currency r))"

definition credit_refund :: "ledger \<Rightarrow> refund \<Rightarrow> ('s world, unit) go_io" where
  "credit_refund l r = ext_call (CallCreditFailedRefund (rf_AccountID r) (rf_RefundID r) (rf_Amount r) (rf_Currency r))
     (\<lambda>h. le_CreditFailedRefund l h (rf_AccountID r) (rf_RefundID r) (rf_Amount r) (rf_Currency r))"

definition refund_payment :: "refund \<Rightarrow> payment" where
  "refund_payment r = zero_payment\<lparr>pay_TransactionID := rf_TransactionID r, pay_AccountID := rf_AccountID r,
     pay_MerchantID := rf_MerchantID r, pay_ProviderPaymentID := rf_ProviderPaymentID r, pay_Route := rf_Route r\<rparr>"

definition ask_create_refund :: "'s refunds \<Rightarrow> refund \<Rightarrow> ('s world, provider_refund) go_io" where
  "ask_create_refund s r = ext_call (CallCreateRefund (rf_Route r) (refund_payment r) r (''refund:'' @ rf_RefundID r))
     (\<lambda>h. co_CreateRefund (fs_connector s) h (rf_Route r) (refund_payment r) r (''refund:'' @ rf_RefundID r))"

definition ask_get_refund :: "'s refunds \<Rightarrow> refund \<Rightarrow> ('s world, provider_refund) go_io" where
  "ask_get_refund s r = ext_call (CallGetRefund (rf_Route r) r) (\<lambda>h. co_GetRefund (fs_connector s) h (rf_Route r) r)"

text \<open>\<^verbatim>\<open>process\<close> only runs with a native store.\<close>

definition Refunds_process :: "'s refunds \<Rightarrow> 's refund_store \<Rightarrow> refund \<Rightarrow> ('s world, unit) go_io" where
  "Refunds_process s native r =
     (let st = rf_OperationalStatus r in
      if st = ''pending_debit'' then
        (case fs_ledger s of
           None \<Rightarrow> io_return ()
         | Some l \<Rightarrow>
             io_bind (io_try (debit_refund l r)) (\<lambda>res. case res of
               Inl err \<Rightarrow>
                 if errors_is err ErrInsufficientBalance
                 then send_refund_update native (rf_RefundID r) ''failed''
                        (mput ''lastError'' (JStr ''insufficient balance'') (transition ''pending_debit''))
                 else io_return ()
             | Inr _ \<Rightarrow> send_refund_update native (rf_RefundID r) ''pending_provider''
                        (mput ''balanceDebited'' (JBool True) (transition ''pending_debit''))))
      else if st = ''pending_provider'' then
        io_bind (io_try (ask_create_refund s r)) (\<lambda>res. case res of
          Inr result \<Rightarrow> Refunds_applyProvider native r result
        | Inl _ \<Rightarrow> io_bind (io_try (ask_get_refund s r)) (\<lambda>res. case res of
              Inl _ \<Rightarrow> io_return ()
            | Inr result \<Rightarrow> Refunds_applyProvider native r result))
      else if st = ''pending'' then
        io_bind (io_try (ask_get_refund s r)) (\<lambda>res. case res of
          Inl _ \<Rightarrow> io_return () | Inr result \<Rightarrow> Refunds_applyProvider native r result)
      else if st = ''pending_compensation'' then
        (case fs_ledger s of
           None \<Rightarrow> io_return ()
         | Some l \<Rightarrow>
             io_bind (io_try (credit_refund l r)) (\<lambda>res. case res of
               Inl _ \<Rightarrow> io_return ()
             | Inr _ \<Rightarrow> send_refund_update native (rf_RefundID r) ''failed'' (transition ''pending_compensation'')))
      else io_return ())"

definition Refunds_runBatch :: "'s refunds \<Rightarrow> ('s world, unit) go_io" where
  "Refunds_runBatch s =
     (case fs_native s of
        None \<Rightarrow> io_return ()
      | Some native \<Rightarrow>
          io_bind (io_try (on_store (rs_ClaimRefunds native 50))) (\<lambda>res. case res of
            Inl _ \<Rightarrow> io_return ()
          | Inr items \<Rightarrow> io_each (Refunds_process s native) items))"

definition Refunds_Run :: "'s refunds \<Rightarrow> 's world signal list \<Rightarrow> ('s world, bool) go_io" where
  "Refunds_Run s = ticker_loop (Refunds_runBatch s)"

section \<open>Requests\<close>

definition refund_invalid :: "string \<Rightarrow> create_refund \<Rightarrow> bool" where
  "refund_invalid key inp \<longleftrightarrow> blank key \<or> blank (cr_ExternalID inp) \<or> blank (cr_Amount inp)"

definition Refunds_accept ::
  "'s refunds \<Rightarrow> principal \<Rightarrow> string \<Rightarrow> string \<Rightarrow> string \<Rightarrow> create_refund \<Rightarrow> ('s world, refund \<times> bool \<times> bool) go_io" where
  "Refunds_accept s p credential paymentID key inp =
     (if refund_invalid key inp then io_fail ErrInvalid
      else
        io_bind (on_store (st_Get (fs_store s) (pr_AccountID p) (pr_MerchantID p) paymentID)) (\<lambda>payment.
          if pay_Origin payment = ''v1'' then
            (case fs_legacy s of
               None \<Rightarrow> io_fail ErrUnsupported
             | Some l \<Rightarrow> io_bind (ext_call (CallLegacyCreate credential paymentID key inp)
                   (\<lambda>h. lr_Create l h credential paymentID key inp)) (\<lambda>(r, replayed). io_return (r, replayed, False)))
          else
            (case fs_native s of
               None \<Rightarrow> io_fail ErrUnsupported
             | Some native \<Rightarrow> io_bind (on_store (rs_CreateRefund native p paymentID key inp))
                   (\<lambda>(r, replayed). io_return (r, replayed, \<not> replayed)))))"

text \<open>A new native refund is processed at once; the answer is the refund as it was created.\<close>

definition Refunds_Create ::
  "'s refunds \<Rightarrow> principal \<Rightarrow> string \<Rightarrow> string \<Rightarrow> string \<Rightarrow> create_refund \<Rightarrow> ('s world, refund \<times> bool) go_io" where
  "Refunds_Create s p credential paymentID key inp =
     io_bind (Refunds_accept s p credential paymentID key inp) (\<lambda>(r, replayed, native).
       if native
       then io_bind (case fs_native s of None \<Rightarrow> io_return () | Some n \<Rightarrow> Refunds_process s n r) (\<lambda>_. io_return (r, replayed))
       else io_return (r, replayed))"

definition Refunds_List :: "'s refunds \<Rightarrow> principal \<Rightarrow> string \<Rightarrow> string \<Rightarrow> ('s world, refund list) go_io" where
  "Refunds_List s p credential paymentID =
     io_bind (on_store (st_Get (fs_store s) (pr_AccountID p) (pr_MerchantID p) paymentID)) (\<lambda>payment.
       if pay_Origin payment = ''v1'' then
         (case fs_legacy s of
            None \<Rightarrow> io_fail ErrUnsupported
          | Some l \<Rightarrow> ext_call (CallLegacyList credential paymentID) (\<lambda>h. lr_List l h credential paymentID))
       else
         (case fs_native s of
            None \<Rightarrow> io_fail Panic
          | Some native \<Rightarrow> on_store (rs_ListRefunds native p paymentID)))"

definition Refunds_Get :: "'s refunds \<Rightarrow> principal \<Rightarrow> string \<Rightarrow> string \<Rightarrow> ('s world, refund) go_io" where
  "Refunds_Get s p credential i =
     (let legacy = (case fs_legacy s of
            None \<Rightarrow> io_fail ErrUnsupported
          | Some l \<Rightarrow> ext_call (CallLegacyGet credential i) (\<lambda>h. lr_Get l h credential i))
      in case fs_native s of
           None \<Rightarrow> legacy
         | Some native \<Rightarrow>
             io_bind (io_try (on_store (rs_GetRefund native p i))) (\<lambda>res. case res of
               Inr r \<Rightarrow> io_return r
             | Inl e \<Rightarrow> if errors_is e ErrNotFound then legacy else io_fail e))"

end
