(* ===== verification/Refund_Decision.thy ===== *)
theory Refund_Decision
  imports Pg_Payouts Pg_Refunds Pg_Service Refunds_App Worker
begin

text \<open>
  One turn of the refund worker: \<^verbatim>\<open>process\<close> split into the calls it makes and the update it decides on,
  and the paths of the saga that a decision takes.
\<close>

section \<open>The service on PostgreSQL\<close>

definition pg_refunds :: "pg_env \<Rightarrow> legacy_refunds option \<Rightarrow> connector \<Rightarrow> ledger option \<Rightarrow> pgstate refunds" where
  "pg_refunds E legacy cn lg = \<lparr>fs_store = pg_store E, fs_native = Some (pg_refund_store E), fs_legacy = legacy,
     fs_connector = cn, fs_ledger = lg\<rparr>"

lemma pg_refunds_parts [simp]:
  "fs_store (pg_refunds E legacy cn lg) = pg_store E" "fs_native (pg_refunds E legacy cn lg) = Some (pg_refund_store E)"
  "fs_legacy (pg_refunds E legacy cn lg) = legacy" "fs_connector (pg_refunds E legacy cn lg) = cn"
  "fs_ledger (pg_refunds E legacy cn lg) = lg"
  by (simp_all add: pg_refunds_def)

section \<open>Calls, then one update\<close>

type_synonym refund_update = "string \<times> string \<times> jmap"

definition refund_result :: "refund \<Rightarrow> provider_refund \<Rightarrow> refund_update" where
  "refund_result r result = (rf_RefundID r, Refunds_next (prf_Status result),
     mput ''providerStatus'' (JStr (prf_RawStatus result)) (mput ''providerRefundId'' (JStr (prf_ProviderRefundID result))
       (mput ''providerSubmitted'' (JBool True) (transition (rf_OperationalStatus r)))))"

definition decide_refund_debit :: "'s refunds \<Rightarrow> refund \<Rightarrow> ('s world, refund_update option) go_io" where
  "decide_refund_debit s r = (case fs_ledger s of
       None \<Rightarrow> io_return None
     | Some l \<Rightarrow> io_bind (io_try (debit_refund l r)) (\<lambda>res. io_return (case res of
           Inl err \<Rightarrow> if errors_is err ErrInsufficientBalance
             then Some (rf_RefundID r, ''failed'', mput ''lastError'' (JStr ''insufficient balance'') (transition ''pending_debit'')) else None
         | Inr _ \<Rightarrow> Some (rf_RefundID r, ''pending_provider'', mput ''balanceDebited'' (JBool True) (transition ''pending_debit'')))))"

definition decide_refund_poll :: "'s refunds \<Rightarrow> refund \<Rightarrow> ('s world, refund_update option) go_io" where
  "decide_refund_poll s r = io_bind (io_try (ask_get_refund s r)) (\<lambda>res. io_return (case res of
       Inl _ \<Rightarrow> None | Inr result \<Rightarrow> Some (refund_result r result)))"

definition decide_refund_submit :: "'s refunds \<Rightarrow> refund \<Rightarrow> ('s world, refund_update option) go_io" where
  "decide_refund_submit s r = io_bind (io_try (ask_create_refund s r)) (\<lambda>res. case res of
       Inr result \<Rightarrow> io_return (Some (refund_result r result))
     | Inl _ \<Rightarrow> decide_refund_poll s r)"

definition decide_refund_credit :: "'s refunds \<Rightarrow> refund \<Rightarrow> ('s world, refund_update option) go_io" where
  "decide_refund_credit s r = (case fs_ledger s of
       None \<Rightarrow> io_return None
     | Some l \<Rightarrow> io_bind (io_try (credit_refund l r)) (\<lambda>res. io_return (case res of
           Inl _ \<Rightarrow> None
         | Inr _ \<Rightarrow> Some (rf_RefundID r, ''failed'', transition ''pending_compensation''))))"

definition refund_saga :: saga_spec where
  "refund_saga = \<lparr>sp_initial = ''pending_debit'', sp_active = [''pending_provider'', ''pending'', ''succeeded''],
     sp_compensating = [''pending_compensation''], sp_credited = (\<lambda>_. ''failed''), sp_rejected = ''failed''\<rparr>"

definition refund_decide :: "'s refunds \<Rightarrow> refund \<Rightarrow> ('s world, refund_update option) go_io" where
  "refund_decide s r =
     (let st = rf_OperationalStatus r in
      if st = ''pending_debit'' then decide_refund_debit s r
      else if st = ''pending_provider'' then decide_refund_submit s r
      else if st = ''pending'' then decide_refund_poll s r
      else if st = ''pending_compensation'' then decide_refund_credit s r
      else io_return None)"

definition send_refund :: "'s refund_store \<Rightarrow> refund_update option \<Rightarrow> ('s world, unit) go_io" where
  "send_refund native u = (case u of None \<Rightarrow> io_return () | Some (i, nx, f) \<Rightarrow> send_refund_update native i nx f)"

lemmas refund_decide_simps = refund_decide_def decide_refund_debit_def decide_refund_submit_def decide_refund_poll_def
  decide_refund_credit_def refund_result_def Let_def

lemmas refund_split_simps = refund_decide_simps send_refund_def Refunds_process_def Refunds_applyProvider_def
  io_bind_assoc io_bind_return io_bind_sum io_bind_if

lemma refund_process_splits: "Refunds_process s native r = io_bind (refund_decide s r) (send_refund native)"
  by (auto simp: refund_split_simps intro!: io_bind_cong split: option.split sum.split)

section \<open>What the saga sees of it\<close>

type_synonym refund_money = "string \<times> string \<times> string"

definition refund_money :: "refund \<Rightarrow> refund_money" where
  "refund_money r = (rf_AccountID r, rf_Amount r, rf_Currency r)"

fun refund_event :: "call \<times> bool \<Rightarrow> refund_money saga_event" where
  "refund_event (CallDebitRefund a i m c, ok) = Debit i (a, m, c) ok"
| "refund_event (CallCreditFailedRefund a i m c, ok) = Credit i (a, m, c) ok"
| "refund_event (CallCreateRefund rt p r k, ok) = Provider (rf_RefundID r) (refund_money r)"
| "refund_event (CallGetRefund rt r, ok) = Provider (rf_RefundID r) (refund_money r)"
| "refund_event (_, ok) = Unrelated"

definition refund_look :: "refund \<Rightarrow> refund_money saga_task" where
  "refund_look r = Look (rf_RefundID r) (refund_money r) (rf_OperationalStatus r)"

definition refund_task :: "refund_update \<Rightarrow> refund_money saga_task" where
  "refund_task = (\<lambda>(i, nx, f). Move i (expected_status f) nx (as_bool (mget f ''balanceDebited'')))"

lemma refund_saga_simps [simp]:
  "sp_initial refund_saga = ''pending_debit''" "sp_rejected refund_saga = ''failed''"
  "sp_active refund_saga = [''pending_provider'', ''pending'', ''succeeded'']"
  "sp_compensating refund_saga = [''pending_compensation'']" "sp_credited refund_saga = (\<lambda>_. ''failed'')"
  by (simp_all add: refund_saga_def)

interpretation refund_statuses: saga_statuses refund_saga
  by unfold_locales simp_all

lemma expected_status_simps [simp]:
  "expected_status (transition st) = st" "k \<noteq> ''expectedStatus'' \<Longrightarrow> expected_status (mput k v f) = expected_status f"
  by (simp_all add: expected_status_def transition_def as_string_def)

lemma refund_task_simps:
  "refund_task (refund_result r result) = Move (rf_RefundID r) (rf_OperationalStatus r) (Refunds_next (prf_Status result)) False"
  "refund_task (i, nx, mput ''lastError'' e (transition st)) = Move i st nx False"
  "refund_task (i, nx, mput ''balanceDebited'' (JBool True) (transition st)) = Move i st nx True"
  "refund_task (i, nx, transition st) = Move i st nx False"
  by (simp_all add: refund_task_def refund_result_def transition_def expected_status_def as_string_def as_bool_def)

lemma Refunds_next_target: "Refunds_next v \<in> set (sp_active refund_saga) \<union> set (sp_compensating refund_saga)"
  by (simp add: Refunds_next_def)

abbreviation refund_decided ::
  "refund_money saga \<Rightarrow> 's world \<Rightarrow> refund_update option \<Rightarrow> 's world \<Rightarrow> bool" where
  "refund_decided \<equiv> decision_path refund_saga refund_event refund_task"

lemma refund_debit_decision:
  assumes "refund_look r \<in> sg_tasks s" and "sg_calls s = map refund_event (wcalls w)"
    and "rf_OperationalStatus r = ''pending_debit''" and "decide_refund_debit sv r w = (res, w')"
  shows "\<exists>u. res = Inr u \<and> refund_decided s w u w'"
proof (cases "fs_ledger sv")
  case None
  with assms(2,4) show ?thesis by (auto simp: decide_refund_debit_def io_simps decision_none)
next
  case (Some l)
  let ?i = "rf_RefundID r" and ?m = "refund_money r"
  let ?refused = "(?i, ''failed'', mput ''lastError'' (JStr ''insufficient balance'') (transition ''pending_debit''))"
  have look: "Look ?i ?m (sp_initial refund_saga) \<in> sg_tasks s" using assms(1,3) by (simp add: refund_look_def)
  from assms(4) Some obtain x u where call: "debit_refund l r w = (x, u)"
    and dec: "(res, w') = (Inr (case x of Inl err \<Rightarrow> if errors_is err ErrInsufficientBalance then Some ?refused else None
      | Inr _ \<Rightarrow> Some (?i, ''pending_provider'', mput ''balanceDebited'' (JBool True) (transition ''pending_debit''))), u)"
    by (auto simp: decide_refund_debit_def io_simps elim!: io_tryE)
  from call have u: "wstore u = wstore w" "map refund_event (wcalls u) = sg_calls s @ [Debit ?i ?m (\<not> isl x)]"
    using assms(2) by (auto simp: debit_refund_def refund_money_def dest!: ext_callD)
  show ?thesis
  proof (cases x)
    case (Inr a)
    with dec decision_debited [OF look, of u w refund_event refund_task] u show ?thesis by (auto simp: refund_task_simps)
  next
    case (Inl err)
    have "refund_decided s w (if errors_is err ErrInsufficientBalance then Some ?refused else None) u"
      by (rule decision_refused [OF look]) (use u Inl in \<open>simp_all add: option_task_def refund_task_simps(2)\<close>)
    with dec Inl show ?thesis by auto
  qed
qed

lemma refund_credit_decision:
  assumes "refund_look r \<in> sg_tasks s" and "sg_calls s = map refund_event (wcalls w)"
    and "rf_OperationalStatus r = ''pending_compensation''" and "decide_refund_credit sv r w = (res, w')"
  shows "\<exists>u. res = Inr u \<and> refund_decided s w u w'"
proof (cases "fs_ledger sv")
  case None
  with assms(2,4) show ?thesis by (auto simp: decide_refund_credit_def io_simps decision_none)
next
  case (Some l)
  let ?i = "rf_RefundID r" and ?m = "refund_money r" and ?st = "rf_OperationalStatus r"
  have look: "Look ?i ?m ?st \<in> sg_tasks s" using assms(1) by (simp add: refund_look_def)
  have comp: "?st \<in> set (sp_compensating refund_saga)" using assms(3) by simp
  from assms(4) Some obtain x u where call: "credit_refund l r w = (x, u)"
    and dec: "(res, w') = (Inr (case x of Inl _ \<Rightarrow> None | Inr _ \<Rightarrow> Some (?i, ''failed'', transition ''pending_compensation'')), u)"
    by (auto simp: decide_refund_credit_def io_simps elim!: io_tryE)
  from call have u: "wstore u = wstore w" "map refund_event (wcalls u) = sg_calls s @ [Credit ?i ?m (\<not> isl x)]"
    using assms(2) by (auto simp: credit_refund_def refund_money_def dest!: ext_callD)
  show ?thesis
  proof (cases x)
    case (Inr a)
    with dec decision_credited [OF look comp u(1), of refund_event refund_task] u assms(3) show ?thesis
      by (auto simp: refund_task_simps)
  next
    case (Inl err)
    with dec decision_uncredited [OF look comp u(1)] u show ?thesis by auto
  qed
qed

lemma refund_asked_result:
  "ask_get_refund sv r w = (x, u) \<Longrightarrow> wstore u = wstore w \<and>
     map refund_event (wcalls u) = map refund_event (wcalls w) @ [Provider (rf_RefundID r) (refund_money r)]"
  "ask_create_refund sv r w = (x, u) \<Longrightarrow> wstore u = wstore w \<and>
     map refund_event (wcalls u) = map refund_event (wcalls w) @ [Provider (rf_RefundID r) (refund_money r)]"
  by (auto simp: ask_get_refund_def ask_create_refund_def dest!: ext_callD)

lemma refund_asked_decision:
  assumes "refund_look r \<in> sg_tasks s" and "sg_calls s = map refund_event (wcalls w)"
    and "rf_OperationalStatus r \<in> set (sp_active refund_saga)" and "wstore u = wstore w"
    and "map refund_event (wcalls u) = sg_calls s @ replicate n (Provider (rf_RefundID r) (refund_money r))"
  shows "refund_decided s w (case x of Inl e \<Rightarrow> None | Inr result \<Rightarrow> Some (refund_result r result)) u"
proof (rule decision_asked [OF _ assms(3-5)])
  show "Look (rf_RefundID r) (refund_money r) (rf_OperationalStatus r) \<in> sg_tasks s"
    using assms(1) by (simp add: refund_look_def)
qed (simp add: option_task_def refund_task_simps Refunds_next_target [simplified] split: sum.split)

lemma refund_poll_result:
  assumes "decide_refund_poll sv r w = (res, w')"
  obtains x where "ask_get_refund sv r w = (x, w')" "res = Inr (case x of Inl _ \<Rightarrow> None | Inr result \<Rightarrow> Some (refund_result r result))"
  using assms by (auto simp: decide_refund_poll_def io_simps elim!: io_tryE)

lemma refund_poll_decision:
  assumes "refund_look r \<in> sg_tasks s" and "sg_calls s = map refund_event (wcalls w)"
    and "rf_OperationalStatus r \<in> set (sp_active refund_saga)" and "decide_refund_poll sv r w = (res, w')"
  shows "\<exists>u. res = Inr u \<and> refund_decided s w u w'"
proof -
  from assms(4) obtain x where call: "ask_get_refund sv r w = (x, w')"
    and res: "res = Inr (case x of Inl _ \<Rightarrow> None | Inr result \<Rightarrow> Some (refund_result r result))"
    by (rule refund_poll_result)
  from refund_asked_result(1) [OF call] assms(2) have "wstore w' = wstore w"
    "map refund_event (wcalls w') = sg_calls s @ replicate 1 (Provider (rf_RefundID r) (refund_money r))" by simp_all
  from refund_asked_decision [OF assms(1-3) this] res show ?thesis by blast
qed

lemma refund_submit_decision:
  assumes "refund_look r \<in> sg_tasks s" and "sg_calls s = map refund_event (wcalls w)"
    and "rf_OperationalStatus r = ''pending_provider''" and "decide_refund_submit sv r w = (res, w')"
  shows "\<exists>u. res = Inr u \<and> refund_decided s w u w'"
proof -
  let ?P = "Provider (rf_RefundID r) (refund_money r)"
  have active: "rf_OperationalStatus r \<in> set (sp_active refund_saga)" using assms(3) by simp
  note decision = refund_asked_decision [OF assms(1,2) active]
  from assms(4) obtain x v where call: "ask_create_refund sv r w = (x, v)"
    and rest: "(case x of Inr result \<Rightarrow> io_return (Some (refund_result r result)) | Inl _ \<Rightarrow> decide_refund_poll sv r) v = (res, w')"
    by (auto simp: decide_refund_submit_def elim!: io_tryE)
  from refund_asked_result(2) [OF call] assms(2) have v: "wstore v = wstore w" "map refund_event (wcalls v) = sg_calls s @ replicate 1 ?P"
    by simp_all
  show ?thesis
  proof (cases x)
    case (Inl e)
    with rest obtain y where call2: "ask_get_refund sv r v = (y, w')"
      and res: "res = Inr (case y of Inl _ \<Rightarrow> None | Inr result \<Rightarrow> Some (refund_result r result))"
      by (auto elim: refund_poll_result)
    from refund_asked_result(1) [OF call2] v have "wstore w' = wstore w" "map refund_event (wcalls w') = sg_calls s @ replicate 2 ?P"
      by (simp_all add: numeral_2_eq_2)
    from decision [OF this] res show ?thesis by blast
  next
    case (Inr result)
    with rest decision [OF v, of x] show ?thesis by (auto simp: io_simps)
  qed
qed

lemma refund_decision:
  assumes "refund_look r \<in> sg_tasks s" and "sg_calls s = map refund_event (wcalls w)"
    and "refund_decide sv r w = (res, w')"
  shows "\<exists>u. res = Inr u \<and> refund_decided s w u w'"
proof -
  let ?st = "rf_OperationalStatus r"
  consider "?st = ''pending_debit''" | "?st = ''pending_provider''" | "?st = ''pending''" | "?st = ''pending_compensation''"
    | "refund_decide sv r = io_return None"
    by (cases "?st = ''pending_debit''"; cases "?st = ''pending_provider''"; cases "?st = ''pending''"; cases "?st = ''pending_compensation''")
      (simp_all add: refund_decide_def Let_def)
  then show ?thesis
  proof cases
    case 1
    with assms refund_debit_decision show ?thesis by (simp add: refund_decide_def)
  next
    case 2
    with assms refund_submit_decision show ?thesis by (simp add: refund_decide_def)
  next
    case 3
    then have "decide_refund_poll sv r w = (res, w')" "?st \<in> set (sp_active refund_saga)"
      using assms(3) by (simp_all add: refund_decide_def)
    with assms(1,2) refund_poll_decision show ?thesis by blast
  next
    case 4
    with assms refund_credit_decision show ?thesis by (simp add: refund_decide_def)
  next
    case 5
    with assms show ?thesis by (auto simp: io_simps decision_none)
  qed
qed

lemma refund_decide_returns: "\<exists>u w'. refund_decide sv r w = (Inr u, w')"
proof -
  obtain res w' where run: "refund_decide sv r w = (res, w')" by force
  from refund_decision [where s = "\<lparr>sg_view = \<lambda>_. None, sg_calls = map refund_event (wcalls w), sg_tasks = {refund_look r}\<rparr>",
      OF _ _ run] run show ?thesis by auto
qed

end
