(* ===== verification/Refund_System.thy ===== *)
theory Refund_System
  imports Refund_Decision
begin

text \<open>
  The refund service on PostgreSQL as a system of concurrent workers. It meets the contract of a worker, so it
  refines the saga of theory \<open>Saga\<close>, and it never has more refunds on a payment than the payment paid.
\<close>

section \<open>The system\<close>

type_synonym refund_system = "(pgstate, refund, refund_update) worker_state"

text \<open>What the refunds of a payment rely on: its identifier and its amount.\<close>

definition payment_cores :: "pgdb \<Rightarrow> (string \<times> string) list" where
  "payment_cores db = map (\<lambda>p. (py_transaction_id p, py_amount p)) (db_payments db)"

text \<open>
  The operations on the store. \<open>elsewhere\<close>: other components use the database and make calls; they leave the refund rows
  alone, and payments keep their identifiers and amounts.
\<close>

inductive refund_serve :: "pgstate refunds \<Rightarrow> pgstate world \<Rightarrow> refund list \<Rightarrow> pgstate world \<Rightarrow> bool"
  for sv :: "pgstate refunds" where
  accepted: "Refunds_accept sv prin credential paymentID key inp w = (Inr (r, replayed, True), w') \<Longrightarrow> refund_serve sv w [r] w'"
| answered: "Refunds_accept sv prin credential paymentID key inp w = (res, w') \<Longrightarrow> \<forall>r b. res \<noteq> Inr (r, b, True) \<Longrightarrow> refund_serve sv w [] w'"
| claimed: "fs_native sv = Some native \<Longrightarrow> on_store (rs_ClaimRefunds native n) w = (res, w') \<Longrightarrow>
    refund_serve sv w (case res of Inl _ \<Rightarrow> [] | Inr items \<Rightarrow> items) w'"
| elsewhere: "db_refunds (pg_db (wstore w')) = db_refunds (pg_db (wstore w)) \<Longrightarrow>
    set (payment_cores (pg_db (wstore w))) \<subseteq> set (payment_cores (pg_db (wstore w'))) \<Longrightarrow>
    distinct (map fst (payment_cores (pg_db (wstore w')))) \<Longrightarrow>
    unrelated_calls refund_event w w' \<Longrightarrow> refund_serve sv w [] w'"

definition refund_worker :: "pgstate refunds \<Rightarrow> (pgstate, refund, refund_update) worker" where
  "refund_worker sv = \<lparr>wk_serve = refund_serve sv, wk_decide = refund_decide sv,
     wk_send = (\<lambda>u. case fs_native sv of None \<Rightarrow> io_return () | Some native \<Rightarrow> send_refund native (Some u))\<rparr>"

lemma refund_worker_parts [simp]:
  "wk_serve (refund_worker sv) = refund_serve sv" "wk_decide (refund_worker sv) = refund_decide sv"
  "wk_send (refund_worker sv) = (\<lambda>u. case fs_native sv of None \<Rightarrow> io_return () | Some native \<Rightarrow> send_refund native (Some u))"
  by (simp_all add: refund_worker_def)

abbreviation refund_run :: "pgstate refunds \<Rightarrow> refund_system \<Rightarrow> refund_system \<Rightarrow> bool" where
  "refund_run sv \<equiv> worker_run (refund_worker sv)"

text \<open>The abstraction: rows, calls and tasks as the saga sees them.\<close>

definition refund_entry :: "refund_row \<Rightarrow> refund_money \<times> string \<times> bool" where
  "refund_entry r = ((rr_account_id r, rr_amount r, rr_currency r), rr_status r, rr_balance_debited r)"

abbreviation refund_view :: "refund_row list \<Rightarrow> string \<Rightarrow> (refund_money \<times> string \<times> bool) option" where
  "refund_view \<equiv> table_view rr_refund_id refund_entry"

definition refunds_of_store :: "pgstate \<Rightarrow> string \<Rightarrow> (refund_money \<times> string \<times> bool) option" where
  "refunds_of_store s = refund_view (db_refunds (pg_db s))"

section \<open>The refundable balance\<close>

text \<open>The refunds that count: those of the payment that did not fail.\<close>

definition live_refund :: "string \<Rightarrow> refund_row \<Rightarrow> bool" where
  "live_refund t r \<longleftrightarrow> rr_transaction_id r = t \<and> rr_status r \<noteq> ''failed''"

definition refund_amount :: "pg_env \<Rightarrow> refund_row \<Rightarrow> rat" where
  "refund_amount E r = the (en_numeric E (rr_amount r))"

definition refunded_total :: "pg_env \<Rightarrow> string \<Rightarrow> refund_row list \<Rightarrow> rat" where
  "refunded_total E t rows = sum_list (map (refund_amount E) (filter (live_refund t) rows))"

definition refunds_covered :: "pg_env \<Rightarrow> (string \<times> string) list \<Rightarrow> refund_row list \<Rightarrow> bool" where
  "refunds_covered E cores rows \<longleftrightarrow> distinct (map fst cores) \<and>
     (\<forall>r \<in> set rows. rr_transaction_id r \<in> fst ` set cores \<and> (\<exists>a. en_numeric E (rr_amount r) = Some a \<and> 0 < a)) \<and>
     (\<forall>(t, amount) \<in> set cores. list_ex (live_refund t) rows \<longrightarrow>
        (\<exists>b. en_numeric E amount = Some b \<and> refunded_total E t rows \<le> b))"

lemma coveredD:
  assumes "refunds_covered E cores rows"
  shows "distinct (map fst cores)" and "r \<in> set rows \<Longrightarrow> rr_transaction_id r \<in> fst ` set cores"
    and "r \<in> set rows \<Longrightarrow> en_numeric E (rr_amount r) = Some (refund_amount E r) \<and> 0 < refund_amount E r"
    and "(t, amount) \<in> set cores \<Longrightarrow> list_ex (live_refund t) rows \<Longrightarrow>
      \<exists>b. en_numeric E amount = Some b \<and> refunded_total E t rows \<le> b"
  using assms by (force simp: refunds_covered_def refund_amount_def)+

lemma sum_amounts_total:
  "\<forall>r \<in> set rows. en_numeric E (rr_amount r) \<noteq> None \<Longrightarrow> sum_amounts E rows = Some (sum_list (map (refund_amount E) rows))"
  by (induction rows) (auto simp: refund_amount_def)

lemma total_changed:
  assumes "\<And>r. r \<in> set rows \<Longrightarrow> 0 \<le> refund_amount E r" and "\<And>r. r \<in> set rows \<Longrightarrow> live_refund t (f r) \<Longrightarrow> live_refund t r"
    and "\<And>r. r \<in> set rows \<Longrightarrow> rr_amount (f r) = rr_amount r"
  shows "refunded_total E t (map f rows) \<le> refunded_total E t rows"
  using assms
proof (induction rows)
  case (Cons r rows)
  have "refunded_total E t (map f rows) \<le> refunded_total E t rows" by (rule Cons.IH) (use Cons.prems in simp_all)
  with Cons.prems(1-3) [of r] show ?case by (auto simp: refunded_total_def refund_amount_def)
qed (simp add: refunded_total_def)

text \<open>Rows that keep payment and amount, and never come back from a failure, stay covered.\<close>

lemma covered_changed:
  assumes "refunds_covered E cores rows" and "\<And>r. r \<in> set rows \<Longrightarrow> rr_amount (f r) = rr_amount r"
    and "\<And>r. r \<in> set rows \<Longrightarrow> rr_transaction_id (f r) = rr_transaction_id r"
    and "\<And>r. r \<in> set rows \<Longrightarrow> rr_status r = ''failed'' \<Longrightarrow> rr_status (f r) = ''failed''"
  shows "refunds_covered E cores (map f rows)"
proof -
  note covered = coveredD [OF assms(1)]
  have live: "live_refund t r" if "live_refund t (f r)" "r \<in> set rows" for t r
    using that assms(3,4) by (auto simp: live_refund_def)
  have "\<exists>b. en_numeric E amount = Some b \<and> refunded_total E t (map f rows) \<le> b"
    if "(t, amount) \<in> set cores" "list_ex (live_refund t) (map f rows)" for t amount
  proof -
    from that(2) live have "list_ex (live_refund t) rows" by (auto simp: list_ex_iff)
    from covered(4) [OF that(1) this] obtain b where "en_numeric E amount = Some b" "refunded_total E t rows \<le> b" by blast
    moreover have "refunded_total E t (map f rows) \<le> refunded_total E t rows"
      by (rule total_changed) (use covered(3) live assms(2) in \<open>auto simp: less_imp_le\<close>)
    ultimately show ?thesis by auto
  qed
  then show ?thesis using assms(1-3) by (auto simp: refunds_covered_def)
qed

lemma covered_cores:
  assumes "refunds_covered E cores rows" and "set cores \<subseteq> set cores'" and "distinct (map fst cores')"
  shows "refunds_covered E cores' rows"
proof -
  have "\<exists>b. en_numeric E amount = Some b \<and> refunded_total E t rows \<le> b"
    if new: "(t, amount) \<in> set cores'" and live: "list_ex (live_refund t) rows" for t amount
  proof -
    from live coveredD(2) [OF assms(1)] obtain amount' where old: "(t, amount') \<in> set cores"
      by (force simp: list_ex_iff live_refund_def)
    with assms(2) have "(t, amount') \<in> set cores'" by blast
    with new assms(3) have "amount' = amount" by (metis eq_key_imp_eq_value)
    with coveredD(4) [OF assms(1) old live] show ?thesis by simp
  qed
  then show ?thesis using assms by (force simp: refunds_covered_def)
qed

lemma covered_accepted:
  assumes "refunds_covered E (payment_cores db) (db_refunds db)" and "refund_accepted E prin paymentID key inp db row u t"
  shows "refunds_covered E (payment_cores db)
    (db_refunds db @ [new_refund_row now u t (payment_of_row row) key hash inp])"
proof -
  let ?new = "new_refund_row now u t (payment_of_row row) key hash inp" and ?rows = "db_refunds db"
  note covered = coveredD [OF assms(1)]
  from assms(2) have row: "row \<in> set (db_payments db)" "py_transaction_id row = t"
    and ok: "refundable E (cr_Amount inp) (py_amount row) t db = Some True"
    by (auto simp: refund_accepted_def)
  have live: "filter (\<lambda>r. rr_transaction_id r = t \<and> rr_status r \<noteq> ''failed'') ?rows = filter (live_refund t) ?rows"
    by (simp add: live_refund_def [abs_def])
  have "sum_amounts E (filter (live_refund t) ?rows) = Some (refunded_total E t ?rows)"
    unfolding refunded_total_def by (rule sum_amounts_total) (use covered(3) in auto)
  with ok obtain a b where a: "en_numeric E (cr_Amount inp) = Some a" "0 < a" and b: "en_numeric E (py_amount row) = Some b"
    and room: "a \<le> b - refunded_total E t ?rows"
    by (auto simp: refundable_def live split: option.splits)
  have new: "rr_amount ?new = cr_Amount inp" "rr_transaction_id ?new = t" "live_refund t' ?new \<longleftrightarrow> t' = t" for t'
    by (auto simp: new_refund_row_def live_refund_def)
  have "refunded_total E t (?rows @ [?new]) = refunded_total E t ?rows + a"
    using a by (simp add: refunded_total_def new refund_amount_def)
  with room have total: "refunded_total E t (?rows @ [?new]) \<le> b" by simp
  have core: "(t, py_amount row) \<in> set (payment_cores db)" using row by (auto simp: payment_cores_def)
  have "\<exists>b. en_numeric E amount = Some b \<and> refunded_total E t' (?rows @ [?new]) \<le> b"
    if "(t', amount) \<in> set (payment_cores db)" "list_ex (live_refund t') (?rows @ [?new])" for t' amount
  proof (cases "t' = t")
    case True
    with that(1) core covered(1) have "amount = py_amount row" by (metis eq_key_imp_eq_value)
    with b total True show ?thesis by simp
  next
    case False
    with that(2) have "list_ex (live_refund t') ?rows" by (simp add: new)
    with covered(4) [OF that(1)] False show ?thesis by (simp add: refunded_total_def new)
  qed
  then show ?thesis using assms(1) a core by (force simp: refunds_covered_def new)
qed

definition refund_store_ok :: "pg_env \<Rightarrow> pgstate \<Rightarrow> bool" where
  "refund_store_ok E s \<longleftrightarrow> digest_ok E \<and> refund_ids_ok E (pg_db s) \<and>
     refunds_covered E (payment_cores (pg_db s)) (db_refunds (pg_db s))"

lemma refund_store_frame:
  "db_refunds (pg_db s') = db_refunds (pg_db s) \<Longrightarrow> db_payments (pg_db s') = db_payments (pg_db s) \<Longrightarrow>
   refund_store_ok E s' = refund_store_ok E s \<and> refunds_of_store s' = refunds_of_store s"
  by (simp add: refund_store_ok_def refund_ids_ok_frame [of "pg_db s'"] payment_cores_def refunds_of_store_def)

abbreviation abs_refunds :: "refund_system \<Rightarrow> refund_money saga" where
  "abs_refunds \<equiv> abs_worker refund_event refunds_of_store refund_look refund_task"

definition refund_fit :: "pg_env \<Rightarrow> refund_update \<Rightarrow> bool" where
  "refund_fit E u \<longleftrightarrow> canonical E (fst u) \<and> expected_status (snd (snd u)) \<noteq> ''failed''"

abbreviation refund_system_ok :: "pg_env \<Rightarrow> refund_system \<Rightarrow> bool" where
  "refund_system_ok E \<equiv> worker_ok (refund_store_ok E) (\<lambda>r. canonical E (rf_RefundID r)) (refund_fit E)"

section \<open>Requests\<close>

lemma refund_id_canonical: "digest_ok E \<Longrightarrow> uuid_laws E \<Longrightarrow> canonical E (refund_id E m key)"
  unfolding refund_id_def uuid_laws_def digest_ok_def by (simp add: deterministicID_eq deterministicUUID_v4)

lemmas refund_view_row = table_view_row [where key = rr_refund_id and entry = refund_entry]
lemmas refund_view_update = table_view_update [where key = rr_refund_id and entry = refund_entry]

lemma created_refund_serve:
  assumes "refund_store_ok E (wstore w)" and "unrelated_calls refund_event w w'"
    and "refund_accepted E prin paymentID key inp (pg_db (wstore w)) row u t"
    and "r = created_refund wall (refund_id E (py_merchant_id row) key) paymentID (payment_of_row row) inp"
    and "pg_db (wstore w') = (pg_db (wstore w))\<lparr>db_refunds := db_refunds (pg_db (wstore w)) @
      [new_refund_row now u t (payment_of_row row) key hash inp], db_deliveries := ds\<rparr>"
  shows "serve_path refund_saga refund_event refunds_of_store refund_look w [r] w' \<and> refund_store_ok E (wstore w') \<and>
    canonical E (rf_RefundID r)"
proof -
  let ?rows = "db_refunds (pg_db (wstore w))" and ?new = "new_refund_row now u t (payment_of_row row) key hash inp"
  have ok: "digest_ok E" "refund_ids_ok E (pg_db (wstore w))" "refunds_covered E (payment_cores (pg_db (wstore w))) ?rows"
    using assms(1) by (simp_all add: refund_store_ok_def)
  have can: "canonical E (rf_RefundID r)"
    using refund_id_canonical ok by (simp add: assms(4) created_refund_def refund_ids_ok_def)
  have u: "u = rf_RefundID r" and fresh: "u \<notin> rr_refund_id ` set ?rows"
    using assms(3) can by (auto simp: refund_accepted_def canonical_def assms(4) created_refund_def)
  have entry: "refund_entry ?new = (refund_money r, ''pending_debit'', False)" and new: "rr_refund_id ?new = u"
    by (simp_all add: refund_entry_def new_refund_row_def refund_money_def assms(4) created_refund_def)
  have "serve_path refund_saga refund_event refunds_of_store refund_look w [r] w'"
  proof (rule serve_create [OF assms(2)])
    show none: "refunds_of_store (wstore w) (rf_RefundID r) = None"
      unfolding refunds_of_store_def using fresh u by (intro table_view_none) simp
    show "refund_look r = Look (rf_RefundID r) (refund_money r) (sp_initial refund_saga)"
      by (simp add: refund_look_def assms(4) created_refund_def)
    show "refunds_of_store (wstore w') = (refunds_of_store (wstore w))(rf_RefundID r \<mapsto> (refund_money r, sp_initial refund_saga, False))"
      using none by (auto simp: refunds_of_store_def assms(5) fun_eq_iff table_view_append entry new u [symmetric] split: option.split)
  qed
  moreover have "refund_ids_ok E (pg_db (wstore w'))"
    using ok(2) fresh can by (simp add: refund_ids_ok_def assms(5) new u [symmetric])
  moreover have "payment_cores (pg_db (wstore w')) = payment_cores (pg_db (wstore w))"
    by (simp add: payment_cores_def assms(5))
  ultimately show ?thesis
    using ok(1) can covered_accepted [OF ok(3) assms(3)] by (simp add: refund_store_ok_def assms(5))
qed

lemma quiet_refunds:
  assumes "refund_store_ok E (wstore w)" and "pg_db (wstore w') = pg_db (wstore w)" and "unrelated_calls refund_event w w'"
  shows "serve_path refund_saga refund_event refunds_of_store refund_look w [] w' \<and> refund_store_ok E (wstore w')"
  using assms refund_store_frame [of "wstore w'" "wstore w" E] serve_quiet [of refunds_of_store w' w refund_event] by simp

lemma accept_refund_serves:
  assumes "refund_store_ok E (wstore w)" and "Refunds_accept (pg_refunds E legacy cn lg) prin credential paymentID key inp w = (res, w')"
  shows "(\<exists>r b. res = Inr (r, b, True) \<and> serve_path refund_saga refund_event refunds_of_store refund_look w [r] w' \<and>
      refund_store_ok E (wstore w') \<and> canonical E (rf_RefundID r)) \<or>
    (\<forall>r b. res \<noteq> Inr (r, b, True)) \<and> serve_path refund_saga refund_event refunds_of_store refund_look w [] w' \<and> refund_store_ok E (wstore w')"
proof (cases "refund_invalid key inp")
  case True
  with assms have "w' = w" "\<forall>r b. res \<noteq> Inr (r, b, True)" by (auto simp: Refunds_accept_def io_simps)
  with quiet_refunds [OF assms(1), of w'] show ?thesis by simp
next
  case False
  obtain x s1 where get: "pg_Get E (pr_AccountID prin) (pr_MerchantID prin) paymentID (wstore w) = (x, s1)" by force
  have s1: "pg_db s1 = pg_db (wstore w)" by (rule pg_Get_db [OF get])
  let ?w1 = "w\<lparr>wstore := s1\<rparr>"
  have ok1: "refund_store_ok E (wstore ?w1)" using assms(1) s1 refund_store_frame [of s1 "wstore w" E] by simp
  have run: "(case x of Inl e \<Rightarrow> (Inl e, ?w1) | Inr payment \<Rightarrow>
      (if pay_Origin payment = ''v1''
       then case legacy of None \<Rightarrow> io_fail ErrUnsupported
         | Some l \<Rightarrow> io_bind (ext_call (CallLegacyCreate credential paymentID key inp) (\<lambda>h. lr_Create l h credential paymentID key inp))
             (\<lambda>(r, replayed). io_return (r, replayed, False))
       else io_bind (on_store (pg_CreateRefund E prin paymentID key inp)) (\<lambda>(r, replayed). io_return (r, replayed, \<not> replayed))) ?w1) = (res, w')"
    using assms(2) False get
    by (cases x) (auto simp: Refunds_accept_def io_bind_def on_store_def pg_store_def pg_refund_store_def split: prod.splits)
  show ?thesis
  proof (cases x)
    case (Inl e)
    with run have "w' = ?w1" "\<forall>r b. res \<noteq> Inr (r, b, True)" by auto
    with quiet_refunds [OF assms(1), of w'] s1 show ?thesis by simp
  next
    case x: (Inr payment)
    show ?thesis
    proof (cases "pay_Origin payment = ''v1''")
      case True
      have "pg_db (wstore w') = pg_db (wstore w) \<and> unrelated_calls refund_event w w' \<and> (\<forall>r b. res \<noteq> Inr (r, b, True))"
      proof (cases legacy)
        case None
        with run x True s1 show ?thesis by (auto simp: io_simps)
      next
        case (Some l)
        with run x True have "io_bind (ext_call (CallLegacyCreate credential paymentID key inp) (\<lambda>h. lr_Create l h credential paymentID key inp))
             (\<lambda>(r, replayed). io_return (r, replayed, False)) ?w1 = (res, w')" by simp
        then show ?thesis
          by (cases rule: io_bindE) (auto simp: unrelated_calls_def s1 io_simps split: prod.splits dest!: ext_callD)
      qed
      with quiet_refunds [OF assms(1), of w'] show ?thesis by blast
    next
      case False
      obtain y s2 where create: "pg_CreateRefund E prin paymentID key inp s1 = (y, s2)" by force
      with run x False have w': "w' = w\<lparr>wstore := s2\<rparr>" and res: "res = map_sum id (\<lambda>(r, b). (r, b, \<not> b)) y"
        by (cases y; auto simp: io_bind_def on_store_def io_simps split: prod.splits)+
      from create show ?thesis
      proof (cases rule: pg_CreateRefundE)
        case same
        with quiet_refunds [OF assms(1), of w'] s1 w' res show ?thesis by (cases y) auto
      next
        case (created now row u t wall ds)
        have "unrelated_calls refund_event w w'" by (simp add: w')
        from created_refund_serve [where hash = "refund_hash E inp" and now = now and ds = ds, OF assms(1) this _ refl, of prin paymentID key inp row u t wall]
          created s1 res show ?thesis by (intro disjI1 exI [of _ False]) (auto simp: w')
      qed
    qed
  qed
qed

section \<open>Claims and updates\<close>

lemma claimed_refunds:
  assumes "refund_store_ok E (wstore w)" and "on_store (pg_ClaimRefunds E n) w = (res, w')"
    and "items = (case res of Inl _ \<Rightarrow> [] | Inr rs \<Rightarrow> rs)"
  shows "serve_path refund_saga refund_event refunds_of_store refund_look w items w' \<and> refund_store_ok E (wstore w') \<and>
    (\<forall>r \<in> set items. canonical E (rf_RefundID r))"
proof -
  from on_storeD [OF assms(2)] obtain s1 where cl: "pg_ClaimRefunds E n (wstore w) = (res, s1)"
    and w': "w' = w\<lparr>wstore := s1\<rparr>" by blast
  let ?rows = "db_refunds (pg_db (wstore w))"
  from cl show ?thesis
  proof (cases rule: pg_ClaimRefundsE)
    case (1 now ids)
    have items: "\<forall>r \<in> set items. \<exists>row \<in> set (db_refunds (pg_db s1)). \<exists>p. r = scanRefund (row, p)"
      using 1(2) assms(3) by (cases res) auto
    have ids: "refund_ids_ok E (pg_db s1)"
      using assms(1) 1(1) by (simp add: refund_store_ok_def refund_ids_ok_def comp_def)
    have "refunds_covered E (payment_cores (pg_db (wstore w))) (map (leased_refund now ids) ?rows)"
      by (rule covered_changed) (use assms(1) in \<open>auto simp: refund_store_ok_def\<close>)
    then have ok: "refund_store_ok E s1" using assms(1) ids by (simp add: refund_store_ok_def 1(1) payment_cores_def)
    have view: "refunds_of_store s1 = refunds_of_store (wstore w)"
      unfolding refunds_of_store_def 1(1) by (simp add: table_view_map refund_entry_def)
    have quiet: "serve_path refund_saga refund_event refunds_of_store refund_look w [] w'"
      by (rule serve_quiet) (simp_all add: w' view)
    have look: "\<exists>i m st d. refund_look r = Look i m st \<and> refunds_of_store s1 i = Some (m, st, d)" if "r \<in> set items" for r
    proof -
      from that items obtain row p where "row \<in> set (db_refunds (pg_db s1))" "r = scanRefund (row, p)" by blast
      with refund_view_row [OF _ this(1)] ids show ?thesis
        by (simp add: refund_look_def refunds_of_store_def refund_entry_def refund_money_def refund_ids_ok_def)
    qed
    have "serve_path refund_saga refund_event refunds_of_store refund_look w items w'"
      by (rule serve_reads [OF quiet]) (use look in \<open>simp add: w'\<close>)
    moreover have "canonical E (rf_RefundID r)" if "r \<in> set items" for r
      using items that ids by (auto simp: refund_ids_ok_def list_all_iff)
    ultimately show ?thesis using ok by (simp add: w')
  qed
qed

lemma payment_cores_settled:
  "map (\<lambda>p. (py_transaction_id p, py_amount p)) (settled_payments E t db) = payment_cores db"
  by (simp add: settled_payments_def payment_cores_def map_sql_update)

lemma transition_keeps_cores:
  assumes "\<exists>t \<in> A. ps = (if c then settled_payments E t db1 else db_payments db) \<and> Q t" and "db_payments db1 = db_payments db"
  shows "map (\<lambda>p. (py_transaction_id p, py_amount p)) ps = payment_cores db"
  using assms payment_cores_settled [of E _ db1] by (auto simp: payment_cores_def)

lemma sent_refund:
  assumes "refund_store_ok E (wstore w)" and "refund_fit E u" and "send_refund (pg_refund_store E) (Some u) w = (res, w')"
  shows "wcalls w' = wcalls w \<and> refund_store_ok E (wstore w') \<and>
    (refunds_of_store (wstore w') = refunds_of_store (wstore w) \<or> (\<exists>i m frm to b d. refund_task u = Move i frm to b \<and>
       refunds_of_store (wstore w) i = Some (m, frm, d) \<and>
       refunds_of_store (wstore w') = (refunds_of_store (wstore w))(i \<mapsto> (m, to, d \<or> b))))"
proof -
  obtain i nx f where u: "u = (i, nx, f)" by (cases u)
  obtain x s' where tr: "pg_TransitionRefund E i nx f (wstore w) = (x, s')" by force
  with assms(3) have w': "w' = w\<lparr>wstore := s'\<rparr>"
    by (auto simp: u send_refund_def send_refund_update_def io_ignore_def on_store_def pg_refund_store_def split: prod.splits)
  from tr show ?thesis
  proof (cases rule: transition_refundE)
    case (error e)
    then show ?thesis using refund_store_frame [of s' "wstore w" E] assms(1) by (simp add: w')
  next
    case (moved now v row db1 ps ds)
    let ?rows = "db_refunds (pg_db (wstore w))" and ?hit = "refund_hit v (expected_status f)"
    have e: "as_string (mget f ''expectedStatus'') = expected_status f" by (simp add: expected_status_def)
    have "canonical E i" and live: "expected_status f \<noteq> ''failed''" using assms(2) by (auto simp: refund_fit_def u)
    with moved(1) have v: "v = i" by (simp add: canonical_def)
    have rows: "db_refunds (pg_db s') = sql_update ?hit (transitioned_refund now nx f) ?rows"
      by (simp add: moved(4,6) e)
    have ids: "distinct (map rr_refund_id ?rows)" using assms(1) by (simp add: refund_store_ok_def refund_ids_ok_def)
    have hit: "rr_refund_id row = i" "rr_status row = expected_status f" using moved(3) v e by (auto simp: refund_hit_def)
    have "refund_view (sql_update ?hit (transitioned_refund now nx f) ?rows) =
        (refund_view ?rows)(rr_refund_id row \<mapsto> refund_entry (transitioned_refund now nx f row))"
      by (rule refund_view_update [OF _ ids moved(2)]) (use hit v in \<open>auto simp: refund_hit_def\<close>)
    then have view: "refunds_of_store s' = (refunds_of_store (wstore w))(i \<mapsto>
        ((rr_account_id row, rr_amount row, rr_currency row), nx, rr_balance_debited row \<or> as_bool (mget f ''balanceDebited'')))"
      by (simp add: refunds_of_store_def rows hit refund_entry_def)
    have before: "refunds_of_store (wstore w) i = Some ((rr_account_id row, rr_amount row, rr_currency row), expected_status f, rr_balance_debited row)"
      using refund_view_row [OF ids moved(2)] hit by (simp add: refunds_of_store_def refund_entry_def)
    have cores: "payment_cores (pg_db s') = payment_cores (pg_db (wstore w))"
    proof -
      have "db_payments (pg_db s') = ps" by (simp add: moved(6))
      with transition_keeps_cores [OF moved(5)] show ?thesis by (simp add: payment_cores_def [of "pg_db s'"] moved(4))
    qed
    have "refunds_covered E (payment_cores (pg_db (wstore w))) (sql_update ?hit (transitioned_refund now nx f) ?rows)"
      unfolding sql_update_def
      by (rule covered_changed) (use assms(1) live in \<open>auto simp: refund_store_ok_def refund_hit_def\<close>)
    moreover have "refund_ids_ok E (pg_db s')"
      using assms(1) by (simp add: refund_store_ok_def refund_ids_ok_def rows map_sql_update)
    ultimately have "refund_store_ok E s'" using assms(1) cores by (simp add: refund_store_ok_def rows)
    then show ?thesis using view before by (auto simp: w' u refund_task_def)
  qed
qed

section \<open>The service meets the contract\<close>

lemma refund_decided_fit:
  assumes "refund_decide sv r w = (Inr (Some u), w')" and "canonical E (rf_RefundID r)"
  shows "refund_fit E u"
  using assms
  by (auto simp: refund_decide_simps io_simps refund_fit_def split: if_splits option.splits sum.splits elim!: io_tryE)

lemma refund_serves:
  assumes "refund_store_ok E (wstore w)" and "refund_serve (pg_refunds E legacy cn lg) w rs w'"
  shows "serve_path refund_saga refund_event refunds_of_store refund_look w rs w' \<and> refund_store_ok E (wstore w') \<and>
    (\<forall>r \<in> set rs. canonical E (rf_RefundID r))"
  using assms(2)
proof cases
  case (accepted prin credential paymentID key inp r replayed)
  with accept_refund_serves [OF assms(1) accepted(2)] show ?thesis by auto
next
  case (answered prin credential paymentID key inp res)
  with accept_refund_serves [OF assms(1) answered(2)] show ?thesis by auto
next
  case (claimed native n res)
  with claimed_refunds [OF assms(1), of n res w' rs] show ?thesis by (auto simp: pg_refund_store_def)
next
  case elsewhere
  have "refunds_covered E (payment_cores (pg_db (wstore w'))) (db_refunds (pg_db (wstore w')))"
    using covered_cores [OF _ elsewhere(3,4)] assms(1) elsewhere(2) by (simp add: refund_store_ok_def)
  then have "refund_store_ok E (wstore w')"
    using assms(1) elsewhere(2) by (simp add: refund_store_ok_def refund_ids_ok_frame [of "pg_db (wstore w')"])
  then show ?thesis using elsewhere serve_quiet [of refunds_of_store w' w refund_event refund_saga refund_look]
    by (simp add: refunds_of_store_def)
qed

interpretation rw: saga_worker refund_saga "refund_worker (pg_refunds E legacy cn lg)" refund_event refunds_of_store
    "refund_store_ok E" refund_look "\<lambda>r. canonical E (rf_RefundID r)" refund_task "refund_fit E"
  for E legacy cn lg
proof (unfold_locales, goal_cases)
  case (1 w rs w')
  then show ?case using refund_serves by simp
next
  case (2 r a w res w')
  then show ?case using refund_decision by simp
next
  case (3 r w u w')
  then show ?case using refund_decided_fit by simp
next
  case (4 w u ru w')
  show ?case by (rule sent_refund [OF 4(1,2)]) (use 4(3) in simp)
qed

end
