(* ===== verification/Refund_Properties.thy ===== *)
theory Refund_Properties
  imports Refund_System
begin

text \<open>
  The handlers of the refund service as runs of its system, a concrete service for the witnesses, and the
  properties of refunds on PostgreSQL.
\<close>

section \<open>Handlers as runs\<close>

lemma refund_decide_total: "decides_always (refund_worker sv)"
  by (simp add: decides_always_def refund_decide_returns)

lemma refund_turn:
  assumes "fs_native sv = Some native"
  shows "Refunds_process sv native = worker_turn (refund_worker sv)"
proof
  fix r
  show "Refunds_process sv native r = worker_turn (refund_worker sv) r"
    unfolding refund_process_splits worker_turn_def
    by (auto simp: assms send_refund_def intro!: io_bind_cong split: option.split)
qed

lemma refund_turn_total:
  assumes "fs_native sv = Some native"
  shows "\<exists>w'. worker_turn (refund_worker sv) r w = (Inr (), w')"
proof -
  obtain u w1 where "refund_decide sv r w = (Inr u, w1)" using refund_decide_returns by blast
  then show ?thesis
    by (cases u) (auto simp: worker_turn_def assms send_refund_def send_refund_update_def io_ignore_def io_simps)
qed

lemma refund_served:
  "refund_serve sv (yy_world s) rs w' \<Longrightarrow> worker_step (refund_worker sv) s (s\<lparr>yy_world := w', yy_read := rs @ yy_read s\<rparr>)"
  by (rule worker_step.served) simp

lemma refund_answered: "refund_serve sv (yy_world s) [] w' \<Longrightarrow> worker_step (refund_worker sv) s (s\<lparr>yy_world := w'\<rparr>)"
  using refund_served [of sv s "[]" w'] by simp

lemma refund_batch_run:
  assumes "fs_native sv = Some native" and "Refunds_runBatch sv (yy_world s) = (res, w')"
  shows "refund_run sv s (s\<lparr>yy_world := w'\<rparr>)"
proof -
  from assms obtain x w1 where cl: "on_store (rs_ClaimRefunds native 50) (yy_world s) = (x, w1)"
    and rest: "(case x of Inl _ \<Rightarrow> io_return () | Inr items \<Rightarrow> io_each (worker_turn (refund_worker sv)) items) w1 = (res, w')"
    unfolding Refunds_runBatch_def by (auto simp: refund_turn elim!: io_tryE)
  let ?s1 = "s\<lparr>yy_world := w1, yy_read := (case x of Inl _ \<Rightarrow> [] | Inr items \<Rightarrow> items) @ yy_read s\<rparr>"
  have "worker_step (refund_worker sv) s ?s1" by (rule refund_served [OF refund_serve.claimed [OF assms(1) cl]])
  moreover have "refund_run sv ?s1 (s\<lparr>yy_world := w'\<rparr>)"
  proof (cases x)
    case (Inl e)
    with rest show ?thesis by (simp add: io_simps)
  next
    case (Inr items)
    with rest have "io_each (worker_turn (refund_worker sv)) items w1 = (res, w')" by simp
    from batch_run [OF this _ _ refund_decide_total refund_turn_total [OF assms(1)], of ?s1 "yy_read s"] Inr show ?thesis by simp
  qed
  ultimately show ?thesis by (rule converse_rtranclp_into_rtranclp)
qed

lemma refund_create_run:
  assumes "fs_native sv = Some native" and "Refunds_Create sv prin credential paymentID key inp (yy_world s) = (res, w')"
  shows "refund_run sv s (s\<lparr>yy_world := w'\<rparr>)"
  using assms(2) unfolding Refunds_Create_def
proof (cases rule: io_bindE)
  case (error e)
  then have "worker_step (refund_worker sv) s (s\<lparr>yy_world := w'\<rparr>)" by (intro refund_answered refund_serve.answered) auto
  then show ?thesis ..
next
  case (ok x w1)
  obtain r replayed fresh where x: "x = (r, replayed, fresh)" by (cases x)
  show ?thesis
  proof (cases fresh)
    case False
    with ok have "worker_step (refund_worker sv) s (s\<lparr>yy_world := w'\<rparr>)"
      by (intro refund_answered refund_serve.answered) (auto simp: x io_simps)
    then show ?thesis ..
  next
    case True
    let ?s1 = "s\<lparr>yy_world := w1, yy_read := [r] @ yy_read s\<rparr>"
    have "worker_step (refund_worker sv) s ?s1" by (rule refund_served [OF refund_serve.accepted]) (use ok True x in simp)
    moreover obtain w2 where p: "worker_turn (refund_worker sv) r w1 = (Inr (), w2)" using refund_turn_total [OF assms(1)] by blast
    then have "refund_run sv ?s1 (s\<lparr>yy_world := w'\<rparr>)"
      using turn_run [OF refund_decide_total, of r ?s1 sv "Inr ()" w2] ok(2) True
      by (simp add: x io_simps assms(1) refund_turn [OF assms(1)])
    ultimately show ?thesis by (rule converse_rtranclp_into_rtranclp)
  qed
qed

definition refund_start :: "pg_env \<Rightarrow> refund_system \<Rightarrow> bool" where
  "refund_start E s \<longleftrightarrow> digest_ok E \<and> uuid_laws E \<and> distinct (map py_transaction_id (db_payments (pg_db (wstore (yy_world s))))) \<and>
     db_refunds (pg_db (wstore (yy_world s))) = [] \<and> wcalls (yy_world s) = [] \<and> yy_read s = [] \<and> yy_send s = []"

lemma refund_start_worker: "refund_start E s \<Longrightarrow> worker_start (refund_store_ok E) refunds_of_store s"
  by (auto simp: refund_start_def worker_start_def refund_store_ok_def refund_ids_ok_def refunds_of_store_def table_view_def
      refunds_covered_def payment_cores_def comp_def)

lemma refund_event_mem:
  "Debit i (a, m, k) ok \<in> refund_event ` A \<longleftrightarrow> (CallDebitRefund a i m k, ok) \<in> A"
  "Credit i (a, m, k) ok \<in> refund_event ` A \<longleftrightarrow> (CallCreditFailedRefund a i m k, ok) \<in> A"
proof -
  have "refund_event c = Debit i (a, m, k) ok \<longleftrightarrow> c = (CallDebitRefund a i m k, ok)"
    "refund_event c = Credit i (a, m, k) ok \<longleftrightarrow> c = (CallCreditFailedRefund a i m k, ok)" for c
    by (cases c rule: refund_event.cases; auto)+
  then show "Debit i (a, m, k) ok \<in> refund_event ` A \<longleftrightarrow> (CallDebitRefund a i m k, ok) \<in> A"
    "Credit i (a, m, k) ok \<in> refund_event ` A \<longleftrightarrow> (CallCreditFailedRefund a i m k, ok) \<in> A"
    unfolding image_iff by (metis (lifting))+
qed

section \<open>A concrete service\<close>

definition ex_paid_payment :: payment_row where
  "ex_paid_payment = row_of_payment ''p1'' (zero_payment\<lparr>pay_AccountID := ''account1'', pay_MerchantID := ''merchant1'',
     pay_Status := ''confirmed'', pay_Amount := ''100'', pay_Currency := ''USD'', pay_ProviderPaymentID := ''provider1'', pay_Route := ex_route\<rparr>)"

definition ex_refund_request :: "string \<Rightarrow> create_refund" where
  "ex_refund_request amount = \<lparr>cr_ExternalID = ''r1'', cr_Amount = amount, cr_Reason = '''', cr_Metadata = []\<rparr>"

definition ex_provider_refund :: "string \<Rightarrow> provider_refund" where
  "ex_provider_refund status = \<lparr>prf_RefundID = '''', prf_TransactionID = '''', prf_Provider = ''test'', prf_ProviderConnectionID = '''',
     prf_ProviderRefundID = ''provider-refund1'', prf_Status = status, prf_RawStatus = status, prf_Amount = '''', prf_Currency = '''',
     prf_ObservedAt = 0, prf_ProviderData = []\<rparr>"

definition ex_refund_connector :: "string \<Rightarrow> connector" where
  "ex_refund_connector status = ex_connector\<lparr>co_CreateRefund := (\<lambda>h rt p r k. Inr (ex_provider_refund status)),
     co_GetRefund := (\<lambda>h rt r. Inr (ex_provider_refund status))\<rparr>"

definition ex_refund_ledger :: ledger where
  "ex_refund_ledger = \<lparr>le_DebitConfirmedRefund = (\<lambda>h a i m c. Inr ()), le_CreditFailedRefund = (\<lambda>h a i m c. Inr ())\<rparr>"

definition ex_refunds :: "string \<Rightarrow> pgstate refunds" where
  "ex_refunds status = pg_refunds ex_flat_env None (ex_refund_connector status) (Some ex_refund_ledger)"

definition ex_refund_world :: "pgstate world" where
  "ex_refund_world = \<lparr>wstore = \<lparr>pg_db = empty_db\<lparr>db_payments := [ex_paid_payment]\<rparr>, pg_tick = 0\<rparr>, wcalls = []\<rparr>"

definition ex_refund_start :: refund_system where
  "ex_refund_start = \<lparr>yy_world = ex_refund_world, yy_read = [], yy_send = []\<rparr>"

lemma ex_refund_start_ok [simp]: "refund_start ex_flat_env ex_refund_start"
  by (simp add: refund_start_def ex_refund_start_def ex_refund_world_def empty_db_def)

definition ex_refund_create :: "string \<Rightarrow> string \<Rightarrow> string \<Rightarrow> pgstate world \<Rightarrow> pgstate world" where
  "ex_refund_create status key amount w =
     snd (Refunds_Create (ex_refunds status) ex_principal '''' ''p1'' key (ex_refund_request amount) w)"

definition ex_refund_batch :: "string \<Rightarrow> pgstate world \<Rightarrow> pgstate world" where
  "ex_refund_batch status w = snd (Refunds_runBatch (ex_refunds status) w)"

text \<open>A refund of 60 out of 100 that succeeds, and one that the provider fails; a second one of 60 is refused.\<close>

definition ex_refunded :: "pgstate world" where
  "ex_refunded = ex_refund_create ''confirmed'' ''key2'' ''60''
     (ex_refund_batch ''confirmed'' (ex_refund_create ''confirmed'' ''key1'' ''60'' ex_refund_world))"

definition ex_refund_failed :: "pgstate world" where
  "ex_refund_failed = ex_refund_batch ''failed'' (ex_refund_batch ''failed'' (ex_refund_create ''failed'' ''key1'' ''60'' ex_refund_world))"

lemma ex_refund_outcomes:
  "map (\<lambda>r. (rr_status r, rr_amount r, rr_transaction_id r)) (db_refunds (pg_db (wstore ex_refunded))) = [(''succeeded'', ''60'', ''p1'')] \<and>
   map (\<lambda>p. (py_transaction_id p, py_amount p)) (db_payments (pg_db (wstore ex_refunded))) = [(''p1'', ''100'')] \<and>
   map (\<lambda>r. (rr_status r, rr_balance_debited r)) (db_refunds (pg_db (wstore ex_refund_failed))) = [(''failed'', True)]"
  by code_simp

lemma ex_refund_native [simp]: "fs_native (ex_refunds status) = Some (pg_refund_store ex_flat_env)"
  by (simp add: ex_refunds_def)

lemma ex_refund_steps:
  "refund_run (ex_refunds status) s (s\<lparr>yy_world := ex_refund_create status key amount (yy_world s)\<rparr>)"
  "refund_run (ex_refunds status) s (s\<lparr>yy_world := ex_refund_batch status (yy_world s)\<rparr>)"
  unfolding ex_refund_create_def ex_refund_batch_def
  by (rule refund_create_run refund_batch_run; (rule ex_refund_native | rule surjective_pairing))+

lemma ex_refunded_run: "refund_run (ex_refunds ''confirmed'') ex_refund_start (ex_refund_start\<lparr>yy_world := ex_refunded\<rparr>)"
proof -
  let ?s1 = "ex_refund_start\<lparr>yy_world := ex_refund_create ''confirmed'' ''key1'' ''60'' ex_refund_world\<rparr>"
  let ?s2 = "?s1\<lparr>yy_world := ex_refund_batch ''confirmed'' (yy_world ?s1)\<rparr>"
  have "refund_run (ex_refunds ''confirmed'') ex_refund_start ?s1"
    using ex_refund_steps(1) [of "''confirmed''" ex_refund_start] by (simp add: ex_refund_start_def)
  moreover have "refund_run (ex_refunds ''confirmed'') ?s1 ?s2" by (rule ex_refund_steps)
  moreover have "refund_run (ex_refunds ''confirmed'') ?s2 (?s2\<lparr>yy_world := ex_refund_create ''confirmed'' ''key2'' ''60'' (yy_world ?s2)\<rparr>)"
    by (rule ex_refund_steps)
  ultimately show ?thesis by (simp add: ex_refunded_def)
qed

lemma ex_refund_failed_run: "refund_run (ex_refunds ''failed'') ex_refund_start (ex_refund_start\<lparr>yy_world := ex_refund_failed\<rparr>)"
proof -
  let ?s1 = "ex_refund_start\<lparr>yy_world := ex_refund_create ''failed'' ''key1'' ''60'' ex_refund_world\<rparr>"
  let ?s2 = "?s1\<lparr>yy_world := ex_refund_batch ''failed'' (yy_world ?s1)\<rparr>"
  have "refund_run (ex_refunds ''failed'') ex_refund_start ?s1"
    using ex_refund_steps(1) [of "''failed''" ex_refund_start] by (simp add: ex_refund_start_def)
  moreover have "refund_run (ex_refunds ''failed'') ?s1 ?s2" by (rule ex_refund_steps)
  moreover have "refund_run (ex_refunds ''failed'') ?s2 (?s2\<lparr>yy_world := ex_refund_batch ''failed'' (yy_world ?s2)\<rparr>)"
    by (rule ex_refund_steps)
  ultimately show ?thesis by (simp add: ex_refund_failed_def)
qed

section \<open>Properties\<close>

text \<open>
  C8: the refund service refines the saga. Every run of the system, whatever the interleaving of requests, workers
  and crashes and whatever the database, the ledger and the provider answer, is a path of the same abstract
  specification that the payout service refines, with the statuses of refunds.
\<close>

theorem refunds_refine_saga:
  assumes "refund_system_ok E s" and "refund_run (pg_refunds E legacy cn lg) s s'"
  shows "(saga_step refund_saga)\<^sup>*\<^sup>* (abs_refunds s) (abs_refunds s') \<and> refund_system_ok E s'"
  by (rule rw.run_path [OF assms(2,1)])

theorem refunds_refine_saga_witness:
  "(saga_step refund_saga)\<^sup>*\<^sup>* (abs_refunds ex_refund_start) (abs_refunds (ex_refund_start\<lparr>yy_world := ex_refunded\<rparr>))"
  by (rule refunds_refine_saga [THEN conjunct1, OF _ ex_refunded_run [unfolded ex_refunds_def]])
     (use rw.start_inv refund_start_worker [OF ex_refund_start_ok] in blast)

text \<open>
  C3: a payment is never refunded beyond its amount. In every reachable state, whatever runs concurrently, the refunds of a
  payment that have not failed add up to at most the amount the payment was made for.
\<close>

theorem refunds_within_payment:
  assumes "refund_start E s0" and "refund_run (pg_refunds E legacy cn lg) s0 s"
    and "p \<in> set (db_payments (pg_db (wstore (yy_world s))))"
    and "r \<in> set (db_refunds (pg_db (wstore (yy_world s))))" and "rr_transaction_id r = py_transaction_id p" and "rr_status r \<noteq> ''failed''"
  shows "\<exists>b. en_numeric E (py_amount p) = Some b \<and>
    sum_list (map (\<lambda>r. the (en_numeric E (rr_amount r)))
      (filter (\<lambda>r. rr_transaction_id r = py_transaction_id p \<and> rr_status r \<noteq> ''failed'')
        (db_refunds (pg_db (wstore (yy_world s)))))) \<le> b"
proof -
  let ?db = "pg_db (wstore (yy_world s))"
  have "refunds_covered E (payment_cores ?db) (db_refunds ?db)"
    using rw.reachable_inv(2) [OF refund_start_worker [OF assms(1)] assms(2)] by (simp add: worker_ok_def refund_store_ok_def)
  moreover have "(py_transaction_id p, py_amount p) \<in> set (payment_cores ?db)" using assms(3) by (simp add: payment_cores_def)
  moreover have "list_ex (live_refund (py_transaction_id p)) (db_refunds ?db)"
    using assms(4-6) by (auto simp: list_ex_iff live_refund_def)
  ultimately have "\<exists>b. en_numeric E (py_amount p) = Some b \<and> refunded_total E (py_transaction_id p) (db_refunds ?db) \<le> b"
    by (rule coveredD(4))
  then show ?thesis by (simp add: refunded_total_def refund_amount_def [abs_def] live_refund_def [abs_def])
qed

theorem refunds_within_payment_witness:
  "\<exists>p r b. db_payments (pg_db (wstore ex_refunded)) = [p] \<and> db_refunds (pg_db (wstore ex_refunded)) = [r] \<and>
    en_numeric ex_flat_env (py_amount p) = Some b \<and> the (en_numeric ex_flat_env (rr_amount r)) \<le> b"
proof -
  obtain p where p: "db_payments (pg_db (wstore ex_refunded)) = [p]" "py_transaction_id p = ''p1''"
    using ex_refund_outcomes by (auto simp: map_eq_Cons_conv)
  obtain r where r: "db_refunds (pg_db (wstore ex_refunded)) = [r]" "rr_transaction_id r = ''p1''" "rr_status r = ''succeeded''"
    using ex_refund_outcomes by (auto simp: map_eq_Cons_conv)
  from refunds_within_payment [OF ex_refund_start_ok ex_refunded_run [unfolded ex_refunds_def], of p r] p r show ?thesis by simp
qed

text \<open>
  C7: refunded money is accounted for. In every reachable state each call about a refund at the provider and each
  credit was preceded by a successful debit of the same account, refund, amount and currency; a refund at the provider or
  succeeded was debited and never credited back; a refund that carries the debit mark and has failed was credited back.
\<close>

theorem refund_money_conserved:
  assumes "refund_start E s0" and "refund_run (pg_refunds E legacy cn lg) s0 s"
  shows "(\<forall>h1 c ok h2. wcalls (yy_world s) = h1 @ (c, ok) # h2 \<longrightarrow>
      (\<forall>rt p r k. c = CallCreateRefund rt p r k \<or> c = CallGetRefund rt r \<longrightarrow>
        (CallDebitRefund (rf_AccountID r) (rf_RefundID r) (rf_Amount r) (rf_Currency r), True) \<in> set h1) \<and>
      (\<forall>a i m k. c = CallCreditFailedRefund a i m k \<longrightarrow> (CallDebitRefund a i m k, True) \<in> set h1)) \<and>
    (\<forall>r \<in> set (db_refunds (pg_db (wstore (yy_world s)))).
      (rr_status r \<in> {''pending_provider'', ''pending'', ''succeeded''} \<longrightarrow>
        (CallDebitRefund (rr_account_id r) (rr_refund_id r) (rr_amount r) (rr_currency r), True) \<in> set (wcalls (yy_world s)) \<and>
        (\<forall>a m k ok. (CallCreditFailedRefund a (rr_refund_id r) m k, ok) \<notin> set (wcalls (yy_world s)))) \<and>
      (rr_status r = ''failed'' \<and> rr_balance_debited r \<longrightarrow>
        (CallCreditFailedRefund (rr_account_id r) (rr_refund_id r) (rr_amount r) (rr_currency r), True) \<in> set (wcalls (yy_world s))))"
proof (intro conjI ballI)
  note start = refund_start_worker [OF assms(1)]
  show "\<forall>h1 c ok h2. wcalls (yy_world s) = h1 @ (c, ok) # h2 \<longrightarrow>
      (\<forall>rt p r k. c = CallCreateRefund rt p r k \<or> c = CallGetRefund rt r \<longrightarrow>
        (CallDebitRefund (rf_AccountID r) (rf_RefundID r) (rf_Amount r) (rf_Currency r), True) \<in> set h1) \<and>
      (\<forall>a i m k. c = CallCreditFailedRefund a i m k \<longrightarrow> (CallDebitRefund a i m k, True) \<in> set h1)"
  proof (intro allI impI)
    fix h1 c ok h2 assume "wcalls (yy_world s) = h1 @ (c, ok) # h2"
    note before = rw.debited_before [OF start assms(2) this]
    show "(\<forall>rt p r k. c = CallCreateRefund rt p r k \<or> c = CallGetRefund rt r \<longrightarrow>
        (CallDebitRefund (rf_AccountID r) (rf_RefundID r) (rf_Amount r) (rf_Currency r), True) \<in> set h1) \<and>
      (\<forall>a i m k. c = CallCreditFailedRefund a i m k \<longrightarrow> (CallDebitRefund a i m k, True) \<in> set h1)"
      using before by (auto simp: refund_money_def refund_event_mem)
  qed
  fix r assume r: "r \<in> set (db_refunds (pg_db (wstore (yy_world s))))"
  have "distinct (map rr_refund_id (db_refunds (pg_db (wstore (yy_world s)))))"
    using rw.reachable_inv(2) [OF start assms(2)] by (simp add: worker_ok_def refund_store_ok_def refund_ids_ok_def)
  from refund_view_row [OF this r] have row: "refunds_of_store (wstore (yy_world s)) (rr_refund_id r) =
      Some ((rr_account_id r, rr_amount r, rr_currency r), rr_status r, rr_balance_debited r)"
    by (simp add: refunds_of_store_def refund_entry_def)
  note money = rw.money_settled [OF start assms(2) row]
  show "rr_status r \<in> {''pending_provider'', ''pending'', ''succeeded''} \<longrightarrow>
        (CallDebitRefund (rr_account_id r) (rr_refund_id r) (rr_amount r) (rr_currency r), True) \<in> set (wcalls (yy_world s)) \<and>
        (\<forall>a m k ok. (CallCreditFailedRefund a (rr_refund_id r) m k, ok) \<notin> set (wcalls (yy_world s)))"
    using money by (auto simp: split_paired_all refund_event_mem)
  show "rr_status r = ''failed'' \<and> rr_balance_debited r \<longrightarrow>
        (CallCreditFailedRefund (rr_account_id r) (rr_refund_id r) (rr_amount r) (rr_currency r), True) \<in> set (wcalls (yy_world s))"
    using money by (auto simp: refund_event_mem)
qed

theorem refund_money_conserved_witness:
  "\<exists>r. db_refunds (pg_db (wstore ex_refund_failed)) = [r] \<and> rr_status r = ''failed'' \<and>
    (CallCreditFailedRefund (rr_account_id r) (rr_refund_id r) (rr_amount r) (rr_currency r), True) \<in> set (wcalls ex_refund_failed)"
proof -
  obtain r where r: "db_refunds (pg_db (wstore ex_refund_failed)) = [r]" "rr_status r = ''failed''" "rr_balance_debited r"
    using ex_refund_outcomes by (auto simp: map_eq_Cons_conv)
  from refund_money_conserved [OF ex_refund_start_ok ex_refund_failed_run [unfolded ex_refunds_def]] r show ?thesis by simp
qed

lemma Refunds_Run_ends:
  fixes sv :: "pgstate refunds"
  assumes "fs_native sv = Some native"
  shows "fst (Refunds_Run sv signals w) = Inr (Cancelled \<in> set signals)"
  unfolding Refunds_Run_def
proof (rule ticker_loop_ends)
  fix w
  have "\<exists>w'. io_each (worker_turn (refund_worker sv)) items w = (Inr (), w')" for items w
    by (rule io_each_returns refund_turn_total [OF assms])+
  then show "\<exists>w'. Refunds_runBatch sv w = (Inr (), w')"
    by (auto simp: Refunds_runBatch_def assms refund_turn [OF assms] io_bind_def io_try_def io_simps split: prod.split sum.split)
qed

text \<open>
  C29: the handlers of refunds are runs of the system. A request to \<^verbatim>\<open>Refunds.Create\<close> that nothing interrupts takes the
  system through its steps and leaves no work behind. So does the loop \<^verbatim>\<open>Refunds.Run\<close>, one batch after the other, when
  the rest of the program moves the system through its steps between the ticks; no batch ends it, and it returns
  exactly when its context ends.
\<close>

theorem refund_handlers_run:
  assumes "fs_native sv = Some native"
    and "\<forall>others. Tick others \<in> set signals \<longrightarrow> (\<forall>w. quiet_run (refund_worker sv) w (others w))"
  shows "refund_run sv s (s\<lparr>yy_world := snd (Refunds_Create sv prin credential paymentID key inp (yy_world s))\<rparr>) \<and>
    refund_run sv s (s\<lparr>yy_world := snd (Refunds_Run sv signals (yy_world s))\<rparr>) \<and>
    fst (Refunds_Run sv signals (yy_world s)) = Inr (Cancelled \<in> set signals)"
proof (intro conjI)
  show "refund_run sv s (s\<lparr>yy_world := snd (Refunds_Run sv signals (yy_world s))\<rparr>)"
    unfolding Refunds_Run_def
    by (rule loop_run [OF _ assms(2)]) (auto simp: quiet_run_def intro: refund_batch_run [OF assms(1)])
qed (rule refund_create_run [OF assms(1) surjective_pairing] Refunds_Run_ends [OF assms(1)])+

theorem refund_handlers_run_witness:
  "(let sv = ex_refunds ''confirmed''; requests = [Tick (ex_refund_create ''confirmed'' ''key1'' ''60''), Cancelled]
    in refund_run sv ex_refund_start (ex_refund_start\<lparr>yy_world := snd (Refunds_Run sv requests (yy_world ex_refund_start))\<rparr>) \<and>
       fst (Refunds_Run sv requests (yy_world ex_refund_start)) = Inr True)"
proof -
  let ?sv = "ex_refunds ''confirmed''" and ?others = "ex_refund_create ''confirmed'' ''key1'' ''60''"
  have "quiet_run (refund_worker ?sv) w (?others w)" for w
    using ex_refund_steps(1) by (auto simp: quiet_run_def)
  then show ?thesis
    using refund_handlers_run [OF ex_refund_native, of "[Tick ?others, Cancelled]" "''confirmed''" ex_refund_start] by (simp add: Let_def)
qed

end
