(* ===== verification/Payout_Progress.thy ===== *)
theory Payout_Progress
  imports Payout_Example
begin

text \<open>
  Progress of the payout worker. A turn of \<^verbatim>\<open>process\<close> whose answers are definite brings an unfinished payout closer
  to its end; no turn takes it further away.
\<close>

definition payout_rank :: "string \<Rightarrow> nat" where
  "payout_rank st = (if st = ''pending_debit'' then 3
     else if st \<in> {''pending_provider'', ''provider_unknown'', ''processing''} then 2
     else if st \<in> set (sp_compensating payout_saga) then 1 else 0)"

lemma rank_zero: "payout_rank st = 0 \<longleftrightarrow> st \<notin> set payout_work"
  by (auto simp: payout_rank_def payout_work_def)

definition decisive :: "string \<Rightarrow> bool" where
  "decisive st \<longleftrightarrow> st \<in> {''confirmed'', ''failed'', ''rejected'', ''cancelled'', ''reversed''}"

text \<open>The answers that a turn gets when it finds the payout \<open>p\<close> and the calls \<open>h\<close> were made before.\<close>

definition debit_definite :: "'s payouts \<Rightarrow> payout \<Rightarrow> history \<Rightarrow> bool" where
  "debit_definite sv p h \<longleftrightarrow> (case ys_ledger sv of None \<Rightarrow> False | Some l \<Rightarrow>
     (case pl_DebitPayout l h (po_AccountID p) (po_PayoutID p) (mo_Amount (po_Source p)) (mo_Currency (po_Source p)) of
        Inl err \<Rightarrow> errors_is err ErrInsufficientBalance | Inr _ \<Rightarrow> True))"

definition poll_definite :: "'s payouts \<Rightarrow> payout \<Rightarrow> history \<Rightarrow> bool" where
  "poll_definite sv p h \<longleftrightarrow> (case pc_GetPayout (ys_connector sv) h (po_Route p) p of
     Inl _ \<Rightarrow> False | Inr x \<Rightarrow> decisive (ppo_Status x))"

definition submit_definite :: "'s payouts \<Rightarrow> payout \<Rightarrow> history \<Rightarrow> bool" where
  "submit_definite sv p h \<longleftrightarrow> (case pc_CreatePayout (ys_connector sv) h (po_Route p) p (''payout:'' @ po_PayoutID p) of
     Inl err \<Rightarrow> errors_is err ErrProviderRejected \<or>
       poll_definite sv p (h @ [(CallCreatePayout (po_Route p) p (''payout:'' @ po_PayoutID p), False)])
   | Inr x \<Rightarrow> decisive (ppo_Status x))"

definition credit_definite :: "'s payouts \<Rightarrow> payout \<Rightarrow> history \<Rightarrow> bool" where
  "credit_definite sv p h \<longleftrightarrow> (case ys_ledger sv of None \<Rightarrow> False | Some l \<Rightarrow>
     pl_CreditFailedPayout l h (po_AccountID p) (po_PayoutID p) (mo_Amount (po_Source p)) (mo_Currency (po_Source p)) = Inr ())"

definition turn_definite :: "'s payouts \<Rightarrow> payout \<Rightarrow> history \<Rightarrow> bool" where
  "turn_definite sv p h \<longleftrightarrow> (let st = po_OperationalStatus p in
     if st = ''pending_debit'' then debit_definite sv p h
     else if st = ''pending_provider'' then submit_definite sv p h
     else if st = ''provider_unknown'' \<or> st = ''processing'' then poll_definite sv p h
     else st \<in> set (sp_compensating payout_saga) \<and> credit_definite sv p h)"

text \<open>Services that always answer definitely.\<close>

definition services_up :: "'s payouts \<Rightarrow> bool" where
  "services_up sv \<longleftrightarrow> (\<forall>p h. po_OperationalStatus p \<in> set payout_work \<longrightarrow> turn_definite sv p h)"

section \<open>What a turn decides\<close>

definition steady :: "payout \<Rightarrow> payout_update option \<Rightarrow> bool" where
  "steady p u \<longleftrightarrow> (case u of None \<Rightarrow> True | Some x \<Rightarrow> fst x = po_PayoutID p \<and>
     expected_status (snd (snd x)) = po_OperationalStatus p \<and> payout_rank (fst (snd x)) \<le> payout_rank (po_OperationalStatus p))"

definition closer :: "payout \<Rightarrow> payout_update option \<Rightarrow> bool" where
  "closer p u \<longleftrightarrow> (case u of None \<Rightarrow> False | Some x \<Rightarrow> payout_rank (fst (snd x)) < payout_rank (po_OperationalStatus p))"

lemma steady_simps [simp]:
  "steady p None" "steady p (Some x) \<longleftrightarrow> fst x = po_PayoutID p \<and>
     expected_status (snd (snd x)) = po_OperationalStatus p \<and> payout_rank (fst (snd x)) \<le> payout_rank (po_OperationalStatus p)"
  "\<not> closer p None" "closer p (Some x) \<longleftrightarrow> payout_rank (fst (snd x)) < payout_rank (po_OperationalStatus p)"
  by (simp_all add: steady_def closer_def)

lemma next_rank: "decisive st \<Longrightarrow> payout_rank (Payouts_next st) < 2" "payout_rank (Payouts_next st) \<le> 2"
  by (auto simp: decisive_def Payouts_next_def payout_rank_def)

lemma status_ranks:
  "payout_rank ''pending_debit'' = 3" "payout_rank ''pending_provider'' = 2" "payout_rank ''provider_unknown'' = 2"
  "payout_rank ''processing'' = 2" "payout_rank ''failed'' = 0" "payout_rank ''pending_compensation'' = 1"
  "payout_rank (payout_credited st) = 0" "st \<in> set (sp_compensating payout_saga) \<Longrightarrow> payout_rank st = 1"
  by (auto simp: payout_rank_def payout_credited_def)

lemma update_parts [simp]:
  "fst (provider_update p x) = po_PayoutID p" "fst (snd (provider_update p x)) = Payouts_next (ppo_Status x)"
  "expected_status (snd (snd (provider_update p x))) = po_OperationalStatus p"
  "fst (failure_update p st nx m) = po_PayoutID p" "fst (snd (failure_update p st nx m)) = nx"
  "expected_status (snd (snd (failure_update p st nx m))) = st"
  "expected_status (mput ''balanceDebited'' v (transition st)) = st" "expected_status (transition st) = st"
  by (simp_all add: provider_update_def failure_update_def expected_status_def transition_def as_string_def)

lemmas turn_simps = io_simps status_ranks debit_definite_def poll_definite_def submit_definite_def
  credit_definite_def

lemma decide_debit_rank:
  assumes "decide_debit sv p w = (Inr u, w')" and "po_OperationalStatus p = ''pending_debit''"
  shows "wstore w' = wstore w \<and> steady p u \<and> (debit_definite sv p (wcalls w) \<longrightarrow> closer p u)"
  using assms unfolding decide_debit_def debit_payout_def
  by (auto simp: turn_simps elim!: io_tryE dest!: ext_callD split: option.splits sum.splits if_splits)

lemma decide_credit_rank:
  assumes "decide_credit sv p w = (Inr u, w')" and "po_OperationalStatus p \<in> set (sp_compensating payout_saga)"
  shows "wstore w' = wstore w \<and> steady p u \<and> (credit_definite sv p (wcalls w) \<longrightarrow> closer p u)"
  using assms(1) status_ranks(8) [OF assms(2)] unfolding decide_credit_def credit_payout_def
  by (auto simp: turn_simps elim!: io_tryE dest!: ext_callD split: option.splits sum.splits)

lemma decide_poll_rank:
  assumes "decide_poll sv p w = (Inr u, w')" and "payout_rank (po_OperationalStatus p) = 2"
  shows "wstore w' = wstore w \<and> steady p u \<and> (poll_definite sv p (wcalls w) \<longrightarrow> closer p u)"
  using assms next_rank unfolding decide_poll_def ask_get_payout_def
  by (auto simp: turn_simps elim!: io_tryE dest!: ext_callD split: sum.splits)

lemma decide_submit_rank:
  assumes "decide_submit sv p w = (Inr u, w')" and "po_OperationalStatus p = ''pending_provider''"
  shows "wstore w' = wstore w \<and> steady p u \<and> (submit_definite sv p (wcalls w) \<longrightarrow> closer p u)"
  using assms next_rank unfolding decide_submit_def ask_create_payout_def ask_get_payout_def
  by (auto simp: turn_simps elim!: io_tryE dest!: ext_callD split: sum.splits if_splits)

lemma decide_rank:
  assumes "payout_decide sv p w = (Inr u, w')"
  shows "wstore w' = wstore w \<and> steady p u \<and> (turn_definite sv p (wcalls w) \<longrightarrow> closer p u)"
  using assms decide_debit_rank [of sv p w u w'] decide_submit_rank [of sv p w u w'] decide_poll_rank [of sv p w u w']
    decide_credit_rank [of sv p w u w']
  by (auto simp: payout_decide_def turn_definite_def Let_def status_ranks io_simps split: if_splits)

section \<open>Turns\<close>

text \<open>A turn of the worker for the payout \<open>i\<close>, with the row as it is.\<close>

definition payout_turn :: "pgstate payouts \<Rightarrow> string \<Rightarrow> pgstate world \<Rightarrow> pgstate world" where
  "payout_turn sv i w = (case find (\<lambda>r. pu_payout_id r = i) (db_payouts (pg_db (wstore w))) of
     None \<Rightarrow> w | Some r \<Rightarrow> snd (Payouts_process sv (scanPayout r) w))"

text \<open>What holds of the row \<open>r'\<close> that a turn leaves of \<open>r\<close>.\<close>

definition turned :: "payout_row \<Rightarrow> pgstate world \<Rightarrow> payout_row \<Rightarrow> bool" where
  "turned r w' r' \<longleftrightarrow> r' \<in> set (db_payouts (pg_db (wstore w'))) \<and> pu_payout_id r' = pu_payout_id r \<and>
     (r' = r \<or> pu_resource_version r' = pu_resource_version r + 1) \<and> payout_rank (pu_status r') \<le> payout_rank (pu_status r)"

lemma payout_row_found:
  assumes "payout_ids_ok E db" and "row \<in> set (db_payouts db)"
  shows "find (\<lambda>r. pu_payout_id r = pu_payout_id row) (db_payouts db) = Some row"
  using assms by (intro find_unique [where key = pu_payout_id]) (auto simp: payout_ids_ok_def)

lemma process_row:
  assumes "payout_ids_ok E (pg_db (wstore w))" and "row \<in> set (db_payouts (pg_db (wstore w)))"
    and "Payouts_process (pg_payouts E cfg rt cn lg marshal) (scanPayout row) w = (r, w')"
  shows "pg_tick (wstore w) \<le> pg_tick (wstore w') \<and> payout_ids_ok E (pg_db (wstore w')) \<and> (\<exists>row'. turned row w' row' \<and>
    (turn_definite (pg_payouts E cfg rt cn lg marshal) (scanPayout row) (wcalls w) \<and> pg_up E (wstore w) \<and>
       bigint_succ (pu_resource_version row) \<noteq> None \<longrightarrow> payout_rank (pu_status row') < payout_rank (pu_status row)))"
proof -
  let ?sv = "pg_payouts E cfg rt cn lg marshal"
  obtain u w1 where dec: "payout_decide ?sv (scanPayout row) w = (Inr u, w1)" using decide_returns by blast
  from decide_rank [OF dec] have w1: "wstore w1 = wstore w" and steady: "steady (scanPayout row) u"
    and closer: "turn_definite ?sv (scanPayout row) (wcalls w) \<Longrightarrow> closer (scanPayout row) u" by auto
  have w': "w' = snd (send_decided ?sv u w1)" using assms(3) dec by (simp add: process_splits io_bind_def)
  show ?thesis
  proof (cases u)
    case None
    with w' w1 assms(1,2) closer show ?thesis
      by (intro conjI exI [of _ row]) (auto simp: send_decided_def io_simps turned_def closer_def)
  next
    case (Some x)
    then obtain nx f where u: "u = Some (pu_payout_id row, nx, f)" and f: "expected_status f = pu_status row"
      and le: "payout_rank nx \<le> payout_rank (pu_status row)"
      using steady by (cases x) (auto simp: steady_def)
    obtain q s' where tr: "pg_TransitionPayout E (pu_payout_id row) nx f (wstore w) = (q, s')" by fastforce
    have ws: "wstore w' = s'"
      using w' u tr w1 by (simp add: send_decided_def send_payout_update_def io_ignore_def on_store_def pg_payout_store_def)
    have tick: "pg_tick (wstore w) \<le> pg_tick s'" by (rule ticksD [OF ticks_pg_TransitionPayout tr])
    have ids: "distinct (map pu_payout_id (db_payouts (pg_db (wstore w))))" using assms(1) by (simp add: payout_ids_ok_def)
    from tr ids show ?thesis
    proof (cases rule: transitionE)
      case (error e)
      have "\<not> (pg_up E (wstore w) \<and> bigint_succ (pu_resource_version row) \<noteq> None)"
        using transition_up [OF _ assms(1,2) f [symmetric], where nx = nx] tr error(1) by force
      with error(2) ws tick assms(1,2) show ?thesis
        by (intro conjI exI [of _ row]) (auto simp: turned_def payout_ids_ok_def)
    next
      case (moved now v row' ds)
      have "canonical E (pu_payout_id row)" using assms(1,2) by (auto simp: payout_ids_ok_def list_all_iff)
      with moved(1) have v: "v = pu_payout_id row" by (simp add: canonical_def)
      with moved(2,3) have row': "row' = row" using distinct_key_unique [OF ids _ assms(2)] by (simp add: transition_hit_def)
      let ?row = "transitioned_row now nx f row"
      have "?row \<in> set (db_payouts (pg_db s'))" using moved row' by (force simp: table_simps)
      then have "turned row w' ?row" using le by (simp add: turned_def ws) (simp add: transitioned_row_def)
      moreover have "payout_ids_ok E (pg_db s')"
        using assms(1) payout_ids_ok_update [where g = "transitioned_row now nx f" and db' = "pg_db s'" and db = "pg_db (wstore w)"] moved(5) by simp
      moreover have "pu_status ?row = nx" by (simp add: transitioned_row_def)
      ultimately show ?thesis using closer u tick by (intro conjI exI [of _ ?row]) (auto simp: closer_def ws)
    qed
  qed
qed

text \<open>A payout of rank \<open>n\<close> is finished after at most \<open>n\<close> turns with definite answers, if its version has room for them.\<close>

lemma turns_finish:
  assumes "services_up (pg_payouts E cfg rt cn lg marshal)" and "pg_up E (wstore w)" and "payout_ids_ok E (pg_db (wstore w))"
    and "row \<in> set (db_payouts (pg_db (wstore w)))" and "payout_rank (pu_status row) \<le> n"
    and "\<forall>k < n. bigint_succ (pu_resource_version row + of_nat k) \<noteq> None"
  shows "\<exists>row' \<in> set (db_payouts (pg_db (wstore ((payout_turn (pg_payouts E cfg rt cn lg marshal) (pu_payout_id row) ^^ n) w)))).
    pu_payout_id row' = pu_payout_id row \<and> pu_status row' \<notin> set payout_work"
  using assms(2-)
proof (induction n arbitrary: w row)
  case 0
  then show ?case by (auto simp: rank_zero)
next
  case (Suc n)
  let ?sv = "pg_payouts E cfg rt cn lg marshal"
  obtain r w1 where run: "Payouts_process ?sv (scanPayout row) w = (r, w1)" by fastforce
  have turn: "payout_turn ?sv (pu_payout_id row) w = w1"
    using payout_row_found [OF Suc.prems(2,3)] run by (simp add: payout_turn_def)
  from process_row [OF Suc.prems(2,3) run] obtain row' where row': "turned row w1 row'"
    and next_ok: "payout_ids_ok E (pg_db (wstore w1))" and tick: "pg_tick (wstore w) \<le> pg_tick (wstore w1)"
    and less: "turn_definite ?sv (scanPayout row) (wcalls w) \<and> pg_up E (wstore w) \<and> bigint_succ (pu_resource_version row) \<noteq> None
      \<longrightarrow> payout_rank (pu_status row') < payout_rank (pu_status row)" by blast
  have up: "pg_up E (wstore w1)" using Suc.prems(1) tick by (rule pg_up_later)
  have "payout_rank (pu_status row') \<le> n"
  proof (cases "pu_status row \<in> set payout_work")
    case True
    with assms(1) have "turn_definite ?sv (scanPayout row) (wcalls w)" by (simp add: services_up_def)
    moreover have "bigint_succ (pu_resource_version row) \<noteq> None" using Suc.prems(5) [rule_format, of 0] by simp
    ultimately show ?thesis using less Suc.prems(1,4) by simp
  next
    case False
    then have "payout_rank (pu_status row) = 0" by (simp add: rank_zero)
    with row' show ?thesis by (simp add: turned_def)
  qed
  moreover have "\<forall>k < n. bigint_succ (pu_resource_version row' + of_nat k) \<noteq> None"
  proof (intro allI impI)
    fix k
    assume "k < n"
    then have "bigint_succ (pu_resource_version row + of_nat k) \<noteq> None" "bigint_succ (pu_resource_version row + of_nat (Suc k)) \<noteq> None"
      using Suc.prems(5) [rule_format, of k] Suc.prems(5) [rule_format, of "Suc k"] by simp_all
    with row' show "bigint_succ (pu_resource_version row' + of_nat k) \<noteq> None"
      by (auto simp: turned_def add.assoc add.commute [of 1])
  qed
  moreover have "(payout_turn ?sv (pu_payout_id row) ^^ Suc n) w = (payout_turn ?sv (pu_payout_id row) ^^ n) w1"
    by (simp only: funpow_Suc_right comp_apply turn)
  ultimately show ?case using Suc.IH [OF up next_ok, of row'] row' by (auto simp: turned_def)
qed

end
