(* ===== verification/Payout_Properties.thy ===== *)
theory Payout_Properties
  imports Payout_Progress
begin

text \<open>
  The properties of the payout service on PostgreSQL.
\<close>

section \<open>Properties\<close>

text \<open>
  C30: the handlers are runs of the system. A request to \<^verbatim>\<open>Payouts.Create\<close> that nothing interrupts takes the system through
  its steps and leaves no work behind. So does the loop \<^verbatim>\<open>Payouts.Run\<close>, one batch after the other, when the rest of the
  program moves the system through its steps between the ticks; no batch ends it, and it returns exactly when its
  context ends.
\<close>

theorem payout_handlers_run:
  assumes "\<forall>others. Tick others \<in> set signals \<longrightarrow> (\<forall>w. quiet_run (payout_worker E sv) w (others w))"
  shows "payout_run E sv s (s\<lparr>yy_world := snd (Payouts_Create sv prin key inp (yy_world s))\<rparr>) \<and>
    payout_run E sv s (s\<lparr>yy_world := snd (Payouts_Run sv signals (yy_world s))\<rparr>) \<and>
    fst (Payouts_Run sv signals (yy_world s)) = Inr (Cancelled \<in> set signals)"
proof (intro conjI)
  show "payout_run E sv s (s\<lparr>yy_world := snd (Payouts_Run sv signals (yy_world s))\<rparr>)"
    unfolding Payouts_Run_def by (rule loop_run [OF _ assms]) (auto simp: quiet_run_def intro: runBatch_run)
qed (rule handler_runs Payouts_Run_ends)+

theorem payout_handlers_run_witness:
  "(let sv = ex_payouts [] ''confirmed''; requests = [Tick (ex_create sv), Cancelled]
    in payout_run ex_flat_env sv ex_start (ex_start\<lparr>yy_world := snd (Payouts_Run sv requests (yy_world ex_start))\<rparr>) \<and>
       fst (Payouts_Run sv requests (yy_world ex_start)) = Inr True)"
proof -
  let ?sv = "ex_payouts [] ''confirmed''"
  have "quiet_run (payout_worker ex_flat_env ?sv) w (ex_create ?sv w)" for w
    using handler_runs(1) by (auto simp: quiet_run_def ex_create_def)
  then show ?thesis using payout_handlers_run [of "[Tick (ex_create ?sv), Cancelled]" ex_flat_env ?sv ex_start] by (simp add: Let_def)
qed

text \<open>
  C1: the payout service refines the saga. Every run of the system, whatever the interleaving of
  requests, workers, provider events and crashes and whatever the database, the ledger and the provider
  answer, is a path of the abstract specification.
\<close>

theorem payouts_refine_saga:
  assumes "payout_system_ok E s" and "payout_run E (pg_payouts E cfg rt cn lg marshal) s s'"
  shows "(saga_step payout_saga)\<^sup>*\<^sup>* (abs_payouts s) (abs_payouts s') \<and> payout_system_ok E s'"
  by (rule pw.run_path [OF assms(2,1)])

theorem payouts_refine_saga_witness:
  "(saga_step payout_saga)\<^sup>*\<^sup>* (abs_payouts ex_start) (abs_payouts (ex_start\<lparr>yy_world := ex_paid\<rparr>))"
  by (rule payouts_refine_saga [THEN conjunct1, OF _ ex_paid_run [unfolded ex_payouts_def]])
     (use pw.start_inv payout_start_worker [OF ex_start_ok] in blast)

text \<open>
  C6: debit before everything else. In every reachable state, each call that creates or polls a payout at the
  provider, and each credit of the ledger, was preceded by a successful debit of the same payout, account,
  amount and currency.
\<close>

theorem payout_debit_first:
  assumes "payout_start E s0" and "payout_run E (pg_payouts E cfg rt cn lg marshal) s0 s"
    and "wcalls (yy_world s) = h1 @ (c, ok) # h2"
  shows "(\<forall>rt p k. c = CallCreatePayout rt p k \<or> c = CallGetPayout rt p \<longrightarrow>
      (CallDebitPayout (po_AccountID p) (po_PayoutID p) (mo_Amount (po_Source p)) (mo_Currency (po_Source p)), True) \<in> set h1) \<and>
    (\<forall>a i m k. c = CallCreditFailedPayout a i m k \<longrightarrow> (CallDebitPayout a i m k, True) \<in> set h1)"
proof -
  note before = pw.debited_before [OF payout_start_worker [OF assms(1)] assms(2,3)]
  show ?thesis using before by (auto simp: payout_money_def payout_event_mem)
qed

theorem payout_debit_first_witness:
  "\<exists>c0 c1 c2. wcalls ex_paid = [c0, c1, (c2, True)] \<and> (\<exists>rt p k. c2 = CallCreatePayout rt p k \<and>
     (CallDebitPayout (po_AccountID p) (po_PayoutID p) (mo_Amount (po_Source p)) (mo_Currency (po_Source p)), True) \<in> set [c0, c1])"
proof -
  obtain c0 c1 c2 where three: "wcalls ex_paid = [c0, c1, c2]" and "ex_call_kind c2 = (2, True)"
    using ex_outcomes by (auto simp: map_eq_Cons_conv)
  then obtain rt p k where calls: "wcalls ex_paid = [c0, c1] @ (CallCreatePayout rt p k, True) # []"
    using ex_call_kind_submit by fastforce
  from payout_debit_first [OF ex_start_ok ex_paid_run [unfolded ex_payouts_def], of "[c0, c1]"] calls
  show ?thesis by auto
qed

text \<open>
  C2: money is conserved. In every reachable state a payout on its way or confirmed was debited, and one that is waiting
  for its debit, on its way or confirmed was never credited; a payout that carries the debit mark and has
  failed, was cancelled or was reversed was credited back in full.
\<close>

theorem payout_money_conserved:
  assumes "payout_start E s0" and "payout_run E (pg_payouts E cfg rt cn lg marshal) s0 s"
    and "r \<in> set (db_payouts (pg_db (wstore (yy_world s))))"
  shows "(pu_balance_debited r \<longrightarrow>
      (CallDebitPayout (pu_account_id r) (pu_payout_id r) (pu_source_amount r) (pu_source_currency r), True) \<in> set (wcalls (yy_world s)))
    \<and> (pu_status r \<in> {''pending_provider'', ''provider_unknown'', ''processing'', ''confirmed''} \<longrightarrow> pu_balance_debited r)
    \<and> (pu_status r \<in> {''pending_debit'', ''pending_provider'', ''provider_unknown'', ''processing'', ''confirmed''} \<longrightarrow>
        (\<forall>a m k ok. (CallCreditFailedPayout a (pu_payout_id r) m k, ok) \<notin> set (wcalls (yy_world s))))
    \<and> (pu_balance_debited r \<and> pu_status r \<in> {''failed'', ''cancelled'', ''reversed''} \<longrightarrow>
        (CallCreditFailedPayout (pu_account_id r) (pu_payout_id r) (pu_source_amount r) (pu_source_currency r), True)
          \<in> set (wcalls (yy_world s)))"
proof -
  note start = payout_start_worker [OF assms(1)]
  have "payout_ids_ok E (pg_db (wstore (yy_world s)))"
    using pw.reachable_inv(2) [OF start assms(2)] by (simp add: worker_ok_def payout_store_ok_def)
  then have "distinct (map pu_payout_id (db_payouts (pg_db (wstore (yy_world s)))))" by (simp add: payout_ids_ok_def)
  from payout_view_row [OF this assms(3)] have row: "store_view (wstore (yy_world s)) (pu_payout_id r) =
      Some ((pu_account_id r, pu_source_amount r, pu_source_currency r), pu_status r, pu_balance_debited r)"
    by (simp add: store_view_def row_entry_def)
  from pw.money_settled [OF start assms(2) row] show ?thesis
    by (auto simp: split_paired_all payout_event_mem payout_credited_def insert_commute)
qed

theorem payout_money_conserved_witness:
  "\<exists>r. db_payouts (pg_db (wstore ex_failed)) = [r] \<and> pu_status r = ''failed'' \<and>
    (CallCreditFailedPayout (pu_account_id r) (pu_payout_id r) (pu_source_amount r) (pu_source_currency r), True) \<in> set (wcalls ex_failed)"
proof -
  obtain r where r: "db_payouts (pg_db (wstore ex_failed)) = [r]" and st: "pu_status r = ''failed''" "pu_balance_debited r"
    using ex_outcomes by (auto simp: map_eq_Cons_conv)
  from payout_money_conserved [OF ex_start_ok ex_failed_run [unfolded ex_payouts_def], of r] r st
  show ?thesis by simp
qed

text \<open>
  C22: a debit can be lost. Two workers may hold snapshots of one payout that waits for its debit. When the ledger
  refuses the first for lack of balance and accepts the second, the refusal can reach the database first: the
  payout has failed without the debit mark, the update of the second is refused by the status check, and nothing
  credits the accepted debit, because a failed payout is not claimed again.
\<close>

theorem payout_debit_can_be_lost:
  "\<exists>sv s r. payout_run ex_flat_env sv ex_start s \<and> db_payouts (pg_db (wstore (yy_world s))) = [r] \<and> lost_debit s r"
proof -
  obtain r where "db_payouts (pg_db (wstore (yy_world ex_race))) = [r]" "lost_debit ex_race r"
    using ex_outcomes by (auto split: list.splits)
  moreover have "payout_run ex_flat_env (ex_payouts [Inl ErrInsufficientBalance] ''confirmed'') ex_start ex_race"
    unfolding ex_race_def by (rule fold_play_run)
  ultimately show ?thesis by blast
qed

text \<open>
  C13: progress. While the database answers, one turn of \<^verbatim>\<open>process\<close> with a current snapshot never takes an unfinished payout
  away from its end, by the rank debit, provider, compensation, end. It brings the payout strictly closer when the answers of
  that turn are definite: the ledger debits or refuses for lack of balance, the provider answers a final status or
  rejects, and the ledger credits. When the answers are always definite, three turns finish the payout. The version of the
  row must have room for the updates.
\<close>

theorem payout_progress:
  assumes "pg_up E (wstore w)" and "payout_ids_ok E (pg_db (wstore w))"
    and "row \<in> set (db_payouts (pg_db (wstore w)))" and "pu_status row \<in> set payout_work"
  shows "(\<exists>w'. Payouts_process (pg_payouts E cfg rt cn lg marshal) (scanPayout row) w = (Inr (), w') \<and>
    (\<exists>row' \<in> set (db_payouts (pg_db (wstore w'))). pu_payout_id row' = pu_payout_id row \<and>
       payout_rank (pu_status row') \<le> payout_rank (pu_status row) \<and>
       (turn_definite (pg_payouts E cfg rt cn lg marshal) (scanPayout row) (wcalls w) \<and> bigint_succ (pu_resource_version row) \<noteq> None
         \<longrightarrow> payout_rank (pu_status row') < payout_rank (pu_status row)))) \<and>
    (services_up (pg_payouts E cfg rt cn lg marshal) \<and> (\<forall>k < 3. bigint_succ (pu_resource_version row + of_nat k) \<noteq> None) \<longrightarrow>
      (\<exists>row' \<in> set (db_payouts (pg_db (wstore ((payout_turn (pg_payouts E cfg rt cn lg marshal) (pu_payout_id row) ^^ 3) w)))).
        pu_payout_id row' = pu_payout_id row \<and> pu_status row' \<notin> set payout_work))"
proof -
  let ?sv = "pg_payouts E cfg rt cn lg marshal"
  obtain w' where run: "Payouts_process ?sv (scanPayout row) w = (Inr (), w')" using process_total by blast
  have "payout_rank (pu_status row) \<le> 3" by (simp add: payout_rank_def)
  then have "services_up ?sv \<and> (\<forall>k < 3. bigint_succ (pu_resource_version row + of_nat k) \<noteq> None) \<longrightarrow>
      (\<exists>row' \<in> set (db_payouts (pg_db (wstore ((payout_turn ?sv (pu_payout_id row) ^^ 3) w)))).
        pu_payout_id row' = pu_payout_id row \<and> pu_status row' \<notin> set payout_work)"
    using turns_finish [OF _ assms(1-3)] by blast
  with process_row [OF assms(2,3) run] run assms(1) show ?thesis unfolding turned_def by blast
qed

definition ex_payout_row :: payout_row where
  "ex_payout_row = new_payout_row 1000 ''p1'' ex_principal ''key1'' ''hash'' ex_payout_request ex_route"

definition ex_one_payout :: "string \<Rightarrow> pgstate world" where
  "ex_one_payout status = \<lparr>wstore = \<lparr>pg_db = empty_db\<lparr>db_payouts := [ex_payout_row\<lparr>pu_status := status\<rparr>]\<rparr>, pg_tick = 0\<rparr>, wcalls = []\<rparr>"

lemma ex_one_payout_ids [simp]: "payout_ids_ok ex_flat_env (pg_db (wstore (ex_one_payout st)))"
  by (simp add: payout_ids_ok_def ex_one_payout_def canonical_def ex_flat_env_def ex_env_def uuid_laws_def)

lemma ex_services_up: "services_up (ex_payouts [] ''confirmed'')"
proof -
  let ?sv = "ex_payouts [] ''confirmed''"
  have "debit_definite ?sv p h" "poll_definite ?sv p h" "submit_definite ?sv p h" "credit_definite ?sv p h" for p h
    by (simp_all add: debit_definite_def poll_definite_def submit_definite_def credit_definite_def
        ex_payouts_def ex_payout_ledger_def ex_payout_connector_def ex_provider_payout_def decisive_def)
  then show ?thesis by (auto simp: services_up_def turn_definite_def payout_work_def Let_def)
qed

theorem payout_progress_witness:
  "(\<exists>w'. Payouts_process (ex_payouts [] ''confirmed'') (scanPayout (ex_payout_row\<lparr>pu_status := ''processing''\<rparr>)) (ex_one_payout ''processing'') = (Inr (), w') \<and>
      (\<exists>row' \<in> set (db_payouts (pg_db (wstore w'))). pu_payout_id row' = ''p1'' \<and> payout_rank (pu_status row') < 2)) \<and>
    (\<exists>row' \<in> set (db_payouts (pg_db (wstore ((payout_turn (ex_payouts [] ''confirmed'') ''p1'' ^^ 3) (ex_one_payout ''pending_debit''))))).
      pu_payout_id row' = ''p1'' \<and> pu_status row' \<notin> set payout_work)"
proof -
  let ?sv = "ex_payouts [] ''confirmed''" and ?row = "\<lambda>st. ex_payout_row\<lparr>pu_status := st\<rparr>"
  have row: "?row st \<in> set (db_payouts (pg_db (wstore (ex_one_payout st))))" "pu_payout_id (?row st) = ''p1''"
    "pu_resource_version (?row st) = 1" for st
    by (simp_all add: ex_one_payout_def ex_payout_row_def new_payout_row_def)
  have three: "k = 0 \<or> k = 1 \<or> k = 2" if "k < 3" for k :: nat using that by auto
  have room: "bigint_succ 1 \<noteq> None" "\<forall>k < 3. bigint_succ (1 + of_nat k) \<noteq> None"
    by (auto simp: bigint_succ_def dest!: three)
  have definite: "turn_definite ?sv (scanPayout (?row ''processing'')) h" for h
    using ex_services_up by (simp add: services_up_def payout_work_def)
  note progress = payout_progress [OF ex_flat_up ex_one_payout_ids row(1), of _ "pg_NewAuth []" ex_router "ex_payout_connector ''confirmed''"
      "Some (ex_payout_ledger [])" "\<lambda>r. cpo_ExternalID r @ mo_Amount (cpo_Source r)", folded ex_payouts_def]
  show ?thesis
    using progress [of "''processing''", THEN conjunct1] progress [of "''pending_debit''", THEN conjunct2] definite ex_services_up room
    by (simp add: row payout_work_def status_ranks) blast
qed

definition readable :: "principal \<Rightarrow> payout \<Rightarrow> bool" where
  "readable p x \<longleftrightarrow> (if pr_MerchantID p = '''' then po_AccountID x = pr_AccountID p else po_MerchantID x = pr_MerchantID p)"

lemma scope_readable:
  "scope (pr_MerchantID p) (pr_AccountID p) (pu_merchant_id r) (pu_account_id r) \<Longrightarrow> readable p (scanPayout r)"
  by (auto simp: scope_def readable_def)

lemma listed_payouts:
  assumes "pg_ListPayouts E p opts s = (Inr page, s')"
  shows "\<exists>rows. set rows \<subseteq> {r \<in> set (db_payouts (pg_db s)). scope (pr_MerchantID p) (pr_AccountID p) (pu_merchant_id r) (pu_account_id r)} \<and>
    sorted_wrt (\<lambda>a b. pu_creation_date a \<ge> pu_creation_date b) rows \<and> length rows \<le> 100 \<and> pop_Data page = map scanPayout rows"
proof -
  let ?limit = "nat (payout_limit (polo_Limit opts))"
  let ?rows = "sort_by payout_before (filter (\<lambda>r. scope (pr_MerchantID p) (pr_AccountID p) (pu_merchant_id r) (pu_account_id r) \<and>
      (polo_ExternalID opts = '''' \<or> pu_external_id r = polo_ExternalID opts) \<and>
      (polo_Status opts = '''' \<or> pu_status r = polo_Status opts)) (db_payouts (pg_db s)))"
  have sorted: "sorted_wrt (\<lambda>a b. pu_creation_date a \<ge> pu_creation_date b) ?rows"
    by (rule sort_by_weak) (auto simp: payout_before_def)
  have limit: "?limit \<le> 100" by (auto simp: payout_limit_def)
  from assms have "pop_Data page = map scanPayout (take ?limit ?rows)"
    unfolding pg_ListPayouts_def Let_def
    by (elim db_queryE) (auto simp: take_map min_def split: if_splits)
  moreover have "set (take ?limit ?rows) \<subseteq> set ?rows" by (rule set_take_subset)
  ultimately show ?thesis using sorted limit
    by (intro exI [of _ "take ?limit ?rows"]) (auto simp: sorted_wrt_take min_def dest: in_set_takeD)
qed

text \<open>
  C21: tenants are isolated. A principal of a merchant reads, alone or in a list, only payouts of that merchant, and a
  principal of an account only payouts of that account; a list has at most 100 entries, the newest first.
\<close>

theorem payout_reads_isolated:
  "(Payouts_Get (pg_payouts E cfg rt cn lg marshal) p i w = (Inr x, w') \<longrightarrow> readable p x) \<and>
   (Payouts_List (pg_payouts E cfg rt cn lg marshal) p opts w = (Inr page, w'') \<longrightarrow>
      list_all (readable p) (pop_Data page) \<and> length (pop_Data page) \<le> 100 \<and>
      sorted_wrt (\<lambda>a b. po_CreationDate a \<ge> po_CreationDate b) (pop_Data page))"
proof (intro conjI impI)
  assume "Payouts_Get (pg_payouts E cfg rt cn lg marshal) p i w = (Inr x, w')"
  then have "\<exists>s'. pg_GetPayout E p i (wstore w) = (Inr x, s')"
    by (auto simp: Payouts_Get_def pg_payout_store_def dest!: on_storeD)
  then show "readable p x"
    by (auto simp: pg_GetPayout_def elim!: select_payoutE dest!: find_SomeD intro: scope_readable)
next
  assume "Payouts_List (pg_payouts E cfg rt cn lg marshal) p opts w = (Inr page, w'')"
  then have "\<exists>s'. pg_ListPayouts E p opts (wstore w) = (Inr page, s')"
    by (auto simp: Payouts_List_def pg_payout_store_def dest!: on_storeD)
  then obtain rows where rows: "set rows \<subseteq> {r \<in> set (db_payouts (pg_db (wstore w))). scope (pr_MerchantID p) (pr_AccountID p) (pu_merchant_id r) (pu_account_id r)}"
    "sorted_wrt (\<lambda>a b. pu_creation_date a \<ge> pu_creation_date b) rows" "length rows \<le> 100" "pop_Data page = map scanPayout rows"
    using listed_payouts by blast
  show "list_all (readable p) (pop_Data page)" using rows(1,4) by (auto simp: list_all_iff intro: scope_readable)
  show "length (pop_Data page) \<le> 100" using rows by simp
  show "sorted_wrt (\<lambda>a b. po_CreationDate a \<ge> po_CreationDate b) (pop_Data page)"
    using rows(2,4) by (simp add: sorted_wrt_map scanPayout_def)
qed

definition ex_two_merchants :: "pgstate world" where
  "ex_two_merchants = \<lparr>wstore = \<lparr>pg_db = empty_db\<lparr>db_payouts := [ex_payout_row, ex_payout_row\<lparr>pu_payout_id := ''p2'', pu_merchant_id := ''other''\<rparr>]\<rparr>,
     pg_tick = 0\<rparr>, wcalls = []\<rparr>"

theorem payout_reads_isolated_witness:
  "\<exists>x w'. Payouts_Get (ex_payouts [] '''') ex_principal ''p1'' ex_two_merchants = (Inr x, w') \<and> readable ex_principal x"
proof -
  have "\<exists>x w'. Payouts_Get (ex_payouts [] '''') ex_principal ''p1'' ex_two_merchants = (Inr x, w')"
    by (simp add: Payouts_Get_def ex_payouts_def pg_payout_store_def on_store_def pg_GetPayout_def select_payout_def db_query_up
        ex_two_merchants_def ex_payout_row_def new_payout_row_def ex_principal_def scope_def ex_flat_env_def ex_env_def
        pg_up_def split: prod.splits)
  then show ?thesis using payout_reads_isolated unfolding ex_payouts_def by blast
qed

section \<open>Following the cursor of a list\<close>

text \<open>The payouts that a list request asks for, and a client that follows the cursors for at most \<open>n\<close> pages.\<close>

definition matching_payouts :: "principal \<Rightarrow> payout_list_options \<Rightarrow> payout_row list \<Rightarrow> payout_row list" where
  "matching_payouts p opts = filter (\<lambda>r. scope (pr_MerchantID p) (pr_AccountID p) (pu_merchant_id r) (pu_account_id r) \<and>
     (polo_ExternalID opts = '''' \<or> pu_external_id r = polo_ExternalID opts) \<and>
     (polo_Status opts = '''' \<or> pu_status r = polo_Status opts))"

fun follow_payouts :: "'s payouts \<Rightarrow> principal \<Rightarrow> payout_list_options \<Rightarrow> nat \<Rightarrow> 's world \<Rightarrow> payout_page list option" where
  "follow_payouts sv p opts 0 w = Some []"
| "follow_payouts sv p opts (Suc n) w = (case Payouts_List sv p opts w of
     (Inl e, w') \<Rightarrow> None
   | (Inr page, w') \<Rightarrow>
       if pop_HasMore page
       then map_option (\<lambda>pages. page # pages) (follow_payouts sv p (opts\<lparr>polo_Cursor := pop_NextCursor page\<rparr>) n w')
       else Some [page])"

definition first_payouts :: "principal \<Rightarrow> payout_list_options \<Rightarrow> pgdb \<Rightarrow> payout_row list" where
  "first_payouts p opts db = take (nat (payout_limit (polo_Limit opts))) (sort_by payout_before (matching_payouts p opts (db_payouts db)))"

lemma payout_limit_pos: "0 < nat (payout_limit n)"
  by (simp add: payout_limit_def)

lemma payout_before_trans: "payout_before a b \<Longrightarrow> payout_before b c \<Longrightarrow> payout_before a c"
  by (auto simp: payout_before_def)

lemma sort_by_empty: "sort_by lt xs = [] \<longleftrightarrow> xs = []"
  by (metis length_0_conv length_sort_by)

lemma list_payouts_full:
  assumes "pg_up E (wstore w)" and "nat (payout_limit (polo_Limit opts)) < length (matching_payouts p opts (db_payouts (pg_db (wstore w))))"
  shows "Payouts_List (pg_payouts E cfg rt cn lg marshal) p opts w =
    (Inr \<lparr>pop_Data = map scanPayout (first_payouts p opts (pg_db (wstore w))), pop_HasMore = True,
       pop_NextCursor = pu_payout_id (last (first_payouts p opts (pg_db (wstore w))))\<rparr>,
     w\<lparr>wstore := (wstore w)\<lparr>pg_tick := Suc (pg_tick (wstore w))\<rparr>\<rparr>)"
proof -
  let ?rows = "sort_by payout_before (matching_payouts p opts (db_payouts (pg_db (wstore w))))"
  have "take (nat (payout_limit (polo_Limit opts))) ?rows \<noteq> []"
    using assms(2) payout_limit_pos [of "polo_Limit opts"] by (auto simp: sort_by_empty)
  then have "po_PayoutID (last (map scanPayout (take (nat (payout_limit (polo_Limit opts))) ?rows))) =
      pu_payout_id (last (take (nat (payout_limit (polo_Limit opts))) ?rows))" by (simp add: last_map)
  with assms show ?thesis
    by (simp add: Payouts_List_def pg_payout_store_def on_store_def pg_ListPayouts_def Let_def db_query_up first_payouts_def take_map
        min_def matching_payouts_def [symmetric])
qed

lemma follow_repeats:
  assumes "pg_up E (wstore w)" and "nat (payout_limit (polo_Limit opts)) < length (matching_payouts p opts (db_payouts (pg_db (wstore w))))"
  shows "follow_payouts (pg_payouts E cfg rt cn lg marshal) p (opts\<lparr>polo_Cursor := c\<rparr>) n w =
    Some (replicate n \<lparr>pop_Data = map scanPayout (first_payouts p opts (pg_db (wstore w))), pop_HasMore = True,
       pop_NextCursor = pu_payout_id (last (first_payouts p opts (pg_db (wstore w))))\<rparr>)"
  using assms
proof (induction n arbitrary: c w)
  case (Suc n)
  let ?w1 = "w\<lparr>wstore := (wstore w)\<lparr>pg_tick := Suc (pg_tick (wstore w))\<rparr>\<rparr>"
  have "pg_up E (wstore ?w1)" using Suc.prems(1) by (auto intro: pg_up_later)
  with Suc.IH [of ?w1] Suc.prems(2) list_payouts_full [OF Suc.prems(1), of "opts\<lparr>polo_Cursor := c\<rparr>"] show ?case
    by (simp add: matching_payouts_def first_payouts_def)
qed simp

text \<open>
  C38: following the cursor of the payout list leads nowhere. When more payouts match than fit a page, the first page holds
  the newest of them and announces more, with its last identifier as the cursor; but a client that follows the cursor gets the
  same page again and again, however many pages it reads, and there is a matching payout that no page shows.
\<close>

theorem payout_cursor_repeats:
  assumes "pg_up E (wstore w)" and "distinct (map pu_payout_id (db_payouts (pg_db (wstore w))))"
    and "nat (payout_limit (polo_Limit opts)) < length (matching_payouts p opts (db_payouts (pg_db (wstore w))))"
  shows "\<exists>page. (\<forall>n. follow_payouts (pg_payouts E cfg rt cn lg marshal) p opts n w = Some (replicate n page)) \<and>
    pop_Data page = map scanPayout (first_payouts p opts (pg_db (wstore w))) \<and>
    length (pop_Data page) = nat (payout_limit (polo_Limit opts)) \<and>
    pop_HasMore page \<and> pop_NextCursor page = po_PayoutID (last (pop_Data page)) \<and>
    (\<forall>a \<in> set (first_payouts p opts (pg_db (wstore w))).
      \<forall>b \<in> set (matching_payouts p opts (db_payouts (pg_db (wstore w)))) - set (first_payouts p opts (pg_db (wstore w))). payout_before a b) \<and>
    (\<exists>r \<in> set (matching_payouts p opts (db_payouts (pg_db (wstore w)))). pu_payout_id r \<notin> po_PayoutID ` set (pop_Data page))"
proof -
  let ?found = "matching_payouts p opts (db_payouts (pg_db (wstore w)))" and ?n = "nat (payout_limit (polo_Limit opts))"
  let ?rows = "sort_by payout_before ?found" and ?first = "first_payouts p opts (pg_db (wstore w))"
  let ?page = "\<lparr>pop_Data = map scanPayout ?first, pop_HasMore = True, pop_NextCursor = pu_payout_id (last ?first)\<rparr>"
  have ids: "inj_on pu_payout_id (set ?found)" "distinct ?found"
    using assms(2) by (auto simp: matching_payouts_def distinct_map inj_on_def)
  have first: "?first = take ?n ?rows" and split: "?rows = ?first @ drop ?n ?rows" by (simp_all add: first_payouts_def)
  have len: "length ?first = ?n" "?first \<noteq> []"
    using assms(3) payout_limit_pos [of "polo_Limit opts"] by (auto simp: first sort_by_empty)
  have "sorted_wrt payout_before ?rows"
  proof (rule sorted_sort_by)
    fix a b
    assume "a \<noteq> b" "a \<in> set ?found" "b \<in> set ?found"
    then have "pu_payout_id a \<noteq> pu_payout_id b" using ids(1) by (auto dest: inj_onD)
    then show "payout_before a b \<or> payout_before b a" by (simp add: payout_before_def) (metis linorder_less_linear)
  qed (use ids(2) in \<open>simp_all add: payout_before_trans\<close>)
  then have sorted: "\<forall>a \<in> set ?first. \<forall>b \<in> set (drop ?n ?rows). payout_before a b"
    using split by (metis sorted_wrt_append)
  have rest: "set ?found = set ?first \<union> set (drop ?n ?rows)" using split by (metis set_append set_sort_by)
  have "distinct (?first @ drop ?n ?rows)" using ids(2) split by (metis distinct_sort_by)
  then have disjoint: "set ?first \<inter> set (drop ?n ?rows) = {}" by simp
  have "drop ?n ?rows \<noteq> []" using assms(3) by simp
  then obtain r where r: "r \<in> set (drop ?n ?rows)" by (meson list.set_sel(1))
  then have unread: "r \<in> set ?found" "pu_payout_id r \<notin> pu_payout_id ` set ?first"
    using rest disjoint ids(1) by (auto simp: inj_on_def)
  have "follow_payouts (pg_payouts E cfg rt cn lg marshal) p opts n w = Some (replicate n ?page)" for n
    using follow_repeats [OF assms(1,3), of cfg rt cn lg marshal "polo_Cursor opts" n] by simp
  moreover have "\<forall>a \<in> set ?first. \<forall>b \<in> set ?found - set ?first. payout_before a b" using sorted rest by blast
  moreover have "pop_NextCursor ?page = po_PayoutID (last (pop_Data ?page))" using len(2) by (simp add: last_map)
  moreover have "\<exists>r \<in> set ?found. pu_payout_id r \<notin> po_PayoutID ` set (pop_Data ?page)"
    using unread by (intro bexI [of _ r]) (simp_all add: image_image)
  ultimately show ?thesis using len(1) by (intro exI [of _ ?page] conjI) simp_all
qed

definition ex_two_payouts :: "pgstate world" where
  "ex_two_payouts = \<lparr>wstore = \<lparr>pg_db = empty_db\<lparr>db_payouts := [ex_payout_row, ex_payout_row\<lparr>pu_payout_id := ''p2''\<rparr>]\<rparr>,
     pg_tick = 0\<rparr>, wcalls = []\<rparr>"

definition ex_first_page :: payout_list_options where
  "ex_first_page = \<lparr>polo_Limit = 1, polo_Cursor = '''', polo_Status = '''', polo_ExternalID = ''''\<rparr>"

theorem payout_cursor_repeats_witness:
  "\<exists>page. (\<forall>n. follow_payouts (ex_payouts [] '''') ex_principal ex_first_page n ex_two_payouts = Some (replicate n page)) \<and>
    length (pop_Data page) = 1"
proof -
  have more: "nat (payout_limit (polo_Limit ex_first_page)) < length (matching_payouts ex_principal ex_first_page (db_payouts (pg_db (wstore ex_two_payouts))))"
    and ids: "distinct (map pu_payout_id (db_payouts (pg_db (wstore ex_two_payouts))))"
    by (simp_all add: matching_payouts_def ex_two_payouts_def ex_payout_row_def new_payout_row_def ex_principal_def scope_def
        payout_limit_def ex_first_page_def)
  from payout_cursor_repeats [OF ex_flat_up ids more, of "pg_NewAuth []" ex_router "ex_payout_connector ''''"
      "Some (ex_payout_ledger [])" "\<lambda>r. cpo_ExternalID r @ mo_Amount (cpo_Source r)", folded ex_payouts_def]
  show ?thesis by (elim exE conjE, intro exI conjI) (auto simp: payout_limit_def ex_first_page_def)
qed

end
