(* ===== verification/Wire.thy ===== *)
theory Wire
  imports Ports
begin

text \<open>
  What the HTTP adapters share: numbers and quoted text as Go prints them, the JSON form of the data model, requests and
  responses. The other side of a connection is a parameter: a transport answers a request with a response or an error (of
  the connection, or because the request cannot be built). A nil map is the empty map, and objects keep no order.
\<close>

section \<open>Numbers and quoted text\<close>

definition digit :: "nat \<Rightarrow> char" where
  "digit n = char_of (48 + n mod 10)"

fun decimal :: "nat \<Rightarrow> string" where
  "decimal n = (if n < 10 then [digit n] else decimal (n div 10) @ [digit n])"

declare decimal.simps [simp del]

definition decimal_int :: "int \<Rightarrow> string" where
  "decimal_int i = (if i < 0 then ''-'' @ decimal (nat (- i)) else decimal (nat i))"

text \<open>\<^verbatim>\<open>strconv.Atoi\<close> on a 64-bit machine: an optional sign, decimal digits, and the range of \<^verbatim>\<open>int\<close>.\<close>

definition is_digit :: "char \<Rightarrow> bool" where
  "is_digit c \<longleftrightarrow> 48 \<le> (of_char c :: nat) \<and> (of_char c :: nat) \<le> 57"

definition digits_value :: "string \<Rightarrow> nat" where
  "digits_value s = foldl (\<lambda>n c. 10 * n + (of_char c - 48)) 0 s"

definition go_atoi :: "string \<Rightarrow> int option" where
  "go_atoi s =
     (let neg = has_prefix s ''-''; ds = (if neg \<or> has_prefix s ''+'' then tl s else s);
          n = (if neg then - int (digits_value ds) else int (digits_value ds))
      in if ds \<noteq> [] \<and> list_all is_digit ds \<and> - (2 ^ 63) \<le> n \<and> n < 2 ^ 63 then Some n else None)"

section \<open>The data model in JSON\<close>

text \<open>\<^verbatim>\<open>omitempty\<close> on a string, a list, a map.\<close>

definition omit_empty :: "string \<Rightarrow> string \<Rightarrow> jmap" where
  "omit_empty k v = (if v = '''' then [] else [(k, JStr v)])"

definition omit_empty_map :: "string \<Rightarrow> jmap \<Rightarrow> jmap" where
  "omit_empty_map k v = (if v = [] then [] else [(k, JObj v)])"

definition json_money :: "money \<Rightarrow> json" where
  "json_money m = JObj [(''amount'', JStr (mo_Amount m)), (''currency'', JStr (mo_Currency m))]"

definition json_destination :: "payout_destination \<Rightarrow> json" where
  "json_destination d = JObj ([(''country'', JStr (de_Country d)), (''currency'', JStr (de_Currency d))] @
     omit_empty ''amount'' (de_Amount d) @ [(''beneficiary'', JObj (de_Beneficiary d)), (''rail'', JObj (de_Rail d))])"

definition json_binding :: "provider_binding \<Rightarrow> json" where
  "json_binding b = JObj [(''bindingId'', JStr (pb_BindingID b)), (''entityType'', JStr (pb_EntityType b)),
     (''entityId'', JStr (pb_EntityID b)), (''externalEntityType'', JStr (pb_ExternalEntityType b)),
     (''externalEntityId'', JStr (pb_ExternalEntityID b))]"

definition json_route_request :: "route_request \<Rightarrow> json" where
  "json_route_request r = JObj ([(''requestId'', JStr (rq_RequestID r)), (''transactionId'', JStr (rq_TransactionID r))] @
     omit_empty ''accountId'' (rq_AccountID r) @
     [(''merchantId'', JStr (rq_MerchantID r)), (''operation'', JStr (rq_Operation r)), (''amount'', JStr (rq_Amount r)),
      (''currency'', JStr (rq_Currency r))] @
     omit_empty ''destinationCurrency'' (rq_DestinationCurrency r) @
     [(''marketCountry'', JStr (rq_MarketCountry r)), (''paymentMethod'', JStr (rq_PaymentMethod r))] @
     (if rq_CustomerHasDocument r then [(''customerHasDocument'', JBool True)] else []) @
     omit_empty ''rail'' (rq_Rail r) @ omit_empty ''destinationMode'' (rq_DestinationMode r) @
     (if rq_RequiredFeatures r = [] then [] else [(''requiredFeatures'', JArr (map JStr (rq_RequiredFeatures r)))]))"

definition json_create_refund :: "create_refund \<Rightarrow> json" where
  "json_create_refund r = JObj ([(''externalId'', JStr (cr_ExternalID r)), (''amount'', JStr (cr_Amount r))] @
     omit_empty ''reason'' (cr_Reason r) @ omit_empty_map ''metadata'' (cr_Metadata r))"

section \<open>Requests and responses\<close>

record http_request =
  hq_Method :: string
  hq_URL :: string
  hq_Header :: "string gomap"
  hq_Body :: "json option"

record http_response =
  hs_Status :: int
  hs_Header :: "string gomap"
  hs_Body :: string

type_synonym transport = "http_request \<Rightarrow> go_error + http_response"

definition header :: "string gomap \<Rightarrow> string \<Rightarrow> string" where
  "header h k = (case mget h k of Some v \<Rightarrow> v | None \<Rightarrow> '''')"

definition status_ok :: "int \<Rightarrow> bool" where
  "status_ok st \<longleftrightarrow> 200 \<le> st \<and> st < 300"

section \<open>Lemmas\<close>

lemma of_char_digit [simp]: "of_char (digit n) = 48 + n mod 10"
  by (simp add: digit_def)

lemma is_digit_digit [simp]: "is_digit (digit n)"
proof -
  have "n mod 10 < 10" by simp
  then show ?thesis by (simp add: is_digit_def)
qed

lemma decimal_digits: "list_all is_digit (decimal n)"
proof (induction n rule: decimal.induct)
  case (1 n)
  then show ?case by (subst decimal.simps) auto
qed

lemma decimal_not_Nil [simp]: "decimal n \<noteq> []"
  by (subst decimal.simps) simp

lemma digits_value_snoc [simp]: "digits_value (s @ [c]) = 10 * digits_value s + (of_char c - 48)"
  by (simp add: digits_value_def)

lemma digits_value_decimal [simp]: "digits_value (decimal n) = n"
proof (induction n rule: decimal.induct)
  case (1 n)
  then show ?case by (subst decimal.simps) (auto simp: digits_value_def)
qed

lemma decimal_unsigned: "\<not> has_prefix (decimal n) ''-'' \<and> \<not> has_prefix (decimal n) ''+''"
proof -
  obtain c cs where "decimal n = c # cs" by (cases "decimal n") auto
  then show ?thesis using decimal_digits [of n] by (auto simp: has_prefix_def is_digit_def)
qed

text \<open>What Go prints, it reads back.\<close>

lemma go_atoi_decimal:
  assumes "- (2 ^ 63) \<le> i" and "i < 2 ^ 63"
  shows "go_atoi (decimal_int i) = Some i"
proof (cases "i < 0")
  case True
  then have "decimal_int i = CHR ''-'' # decimal (nat (- i))" "- int (nat (- i)) = i" by (simp_all add: decimal_int_def)
  with True assms decimal_digits [of "nat (- i)"] show ?thesis by (simp only: go_atoi_def Let_def) (simp add: has_prefix_def)
next
  case False
  then have printed: "decimal_int i = decimal (nat i)" and i: "int (nat i) = i" by (simp_all add: decimal_int_def)
  have "\<not> has_prefix (decimal (nat i)) ''-''" "\<not> has_prefix (decimal (nat i)) ''+''" using decimal_unsigned by blast+
  with False assms decimal_digits [of "nat i"] show ?thesis
    unfolding go_atoi_def Let_def printed by (simp add: i)
qed

end
