(* ===== verification/Dinacore.thy ===== *)
theory Dinacore
  imports Wire Pg_Payments
begin

text \<open>
  \<^verbatim>\<open>internal/adapters/dinacore\<close>: the client of the balance service, as implementation of the ledger interfaces, and the
  outbox worker that credits confirmed payments. The balance service makes an operation idempotent by its
  reference (type and identifier); that is the contract on its side.
\<close>

section \<open>The client\<close>

record ledger_client =
  lc_baseURL :: string
  lc_apiKey :: string

definition ledger_New :: "string \<Rightarrow> string \<Rightarrow> ledger_client" where
  "ledger_New baseURL apiKey = \<lparr>lc_baseURL = trim_right baseURL CHR ''/'', lc_apiKey = apiKey\<rparr>"

definition ledger_body :: "string \<Rightarrow> string \<Rightarrow> string \<Rightarrow> string \<Rightarrow> string \<Rightarrow> json" where
  "ledger_body merchantID refID amount currency refType = JObj [(''merchantId'', JStr merchantID), (''currency'', JStr currency),
     (''amount'', JStr amount), (''refType'', JStr refType), (''refId'', JStr refID)]"

definition ledger_request :: "ledger_client \<Rightarrow> string \<Rightarrow> json \<Rightarrow> http_request" where
  "ledger_request c path body = \<lparr>hq_Method = ''POST'', hq_URL = lc_baseURL c @ path,
     hq_Header = (if lc_apiKey c = '''' then id else mput ''X-Api-Key'' (lc_apiKey c)) (mput ''Content-Type'' ''application/json'' []),
     hq_Body = Some body\<rparr>"

definition ledger_post :: "transport \<Rightarrow> ledger_client \<Rightarrow> string \<Rightarrow> json \<Rightarrow> go_error + unit" where
  "ledger_post tr c path body =
     (case tr (ledger_request c path body) of
        Inl e \<Rightarrow> Inl e
      | Inr resp \<Rightarrow>
          if hs_Status resp = 402 then Inl ErrInsufficientBalance
          else if \<not> status_ok (hs_Status resp)
          then Inl (ErrOther (''dinacore status '' @ decimal_int (hs_Status resp) @ '': '' @ take 4096 (hs_Body resp)))
          else Inr ())"

definition ledger_CreditBalance :: "transport \<Rightarrow> ledger_client \<Rightarrow> string \<Rightarrow> string \<Rightarrow> string \<Rightarrow> string \<Rightarrow> go_error + unit" where
  "ledger_CreditBalance tr c accountID refID amount currency =
     ledger_post tr c ''/api/balance/credit'' (ledger_body accountID refID amount currency ''cashin'')"

definition ledger_CreditConfirmedPayment :: "transport \<Rightarrow> ledger_client \<Rightarrow> payment \<Rightarrow> string \<Rightarrow> go_error + unit" where
  "ledger_CreditConfirmedPayment tr c p amount = ledger_CreditBalance tr c (pay_AccountID p) (pay_TransactionID p) amount (pay_Currency p)"

definition ledger_DebitConfirmedRefund :: "transport \<Rightarrow> ledger_client \<Rightarrow> string \<Rightarrow> string \<Rightarrow> string \<Rightarrow> string \<Rightarrow> go_error + unit" where
  "ledger_DebitConfirmedRefund tr c merchantID refundID amount currency =
     ledger_post tr c ''/api/balance/debit'' (ledger_body merchantID refundID amount currency ''refund'')"

definition ledger_CreditFailedRefund :: "transport \<Rightarrow> ledger_client \<Rightarrow> string \<Rightarrow> string \<Rightarrow> string \<Rightarrow> string \<Rightarrow> go_error + unit" where
  "ledger_CreditFailedRefund tr c merchantID refundID amount currency =
     ledger_post tr c ''/api/balance/refund'' (ledger_body merchantID refundID amount currency ''refund_reservation_release'')"

definition ledger_DebitPayout :: "transport \<Rightarrow> ledger_client \<Rightarrow> string \<Rightarrow> string \<Rightarrow> string \<Rightarrow> string \<Rightarrow> go_error + unit" where
  "ledger_DebitPayout tr c accountID payoutID amount currency =
     ledger_post tr c ''/api/balance/debit'' (ledger_body accountID payoutID amount currency ''payout'')"

definition ledger_CreditFailedPayout :: "transport \<Rightarrow> ledger_client \<Rightarrow> string \<Rightarrow> string \<Rightarrow> string \<Rightarrow> string \<Rightarrow> go_error + unit" where
  "ledger_CreditFailedPayout tr c accountID payoutID amount currency =
     ledger_post tr c ''/api/balance/refund'' (ledger_body accountID payoutID amount currency ''payout_reservation_release'')"

definition http_ledger :: "(history \<Rightarrow> transport) \<Rightarrow> ledger_client \<Rightarrow> ledger" where
  "http_ledger tr c = \<lparr>le_DebitConfirmedRefund = (\<lambda>h. ledger_DebitConfirmedRefund (tr h) c),
     le_CreditFailedRefund = (\<lambda>h. ledger_CreditFailedRefund (tr h) c)\<rparr>"

definition http_payout_ledger :: "(history \<Rightarrow> transport) \<Rightarrow> ledger_client \<Rightarrow> payout_ledger" where
  "http_payout_ledger tr c = \<lparr>pl_DebitPayout = (\<lambda>h. ledger_DebitPayout (tr h) c),
     pl_CreditFailedPayout = (\<lambda>h. ledger_CreditFailedPayout (tr h) c)\<rparr>"

lemma ledger_post_402: "ledger_post tr c path body = Inl e \<Longrightarrow> errors_is e ErrInsufficientBalance \<Longrightarrow>
   (\<exists>resp. tr (ledger_request c path body) = Inr resp \<and> hs_Status resp = 402) \<or> tr (ledger_request c path body) = Inl e"
  by (auto simp: ledger_post_def split: sum.splits if_splits)

section \<open>The outbox worker\<close>

text \<open>The rows of V2 payments that are due, oldest first; \<^verbatim>\<open>interval '10 seconds' * power(2, least(attempt_count, 8))\<close>. An
  attempt count is never negative: it starts at 0 and only grows.\<close>

definition backoff :: "int \<Rightarrow> time" where
  "backoff attempts = min (60 * minute_ns) (10 * second_ns * 2 ^ nat (min attempts 8))"

definition due_credit :: "time \<Rightarrow> pgdb \<Rightarrow> outbox_row \<Rightarrow> bool" where
  "due_credit now db b \<longleftrightarrow> (\<exists>p \<in> set (db_payments db). py_transaction_id p = ob_ref_id b) \<and> \<not> ob_sent b \<and> ob_next_attempt_at b \<le> now"

definition claim_credits :: "pg_env \<Rightarrow> (pgstate, outbox_row list) go_io" where
  "claim_credits E = db_call E (\<lambda>now db.
     let ids = map ob_id (take 100 (sort_key ob_created_at (filter (due_credit now db) (db_balance_outbox db))));
         hit = (\<lambda>b. ob_id b \<in> set ids)
     in Inr (filter hit (db_balance_outbox db),
          db\<lparr>db_balance_outbox := sql_update hit (\<lambda>b. b\<lparr>ob_next_attempt_at := now + minute_ns\<rparr>) (db_balance_outbox db)\<rparr>))"

definition postpone_credit :: "pg_env \<Rightarrow> nat \<Rightarrow> string \<Rightarrow> (pgstate, unit) go_io" where
  "postpone_credit E i msg = db_call E (\<lambda>now db.
     Inr ((), db\<lparr>db_balance_outbox := sql_update (\<lambda>b. ob_id b = i) (\<lambda>b. b\<lparr>ob_attempt_count := ob_attempt_count b + 1,
       ob_last_error := Some msg, ob_next_attempt_at := now + backoff (ob_attempt_count b)\<rparr>) (db_balance_outbox db)\<rparr>))"

definition mark_sent :: "pg_env \<Rightarrow> nat \<Rightarrow> (pgstate, unit) go_io" where
  "mark_sent E i = db_call E (\<lambda>now db.
     Inr ((), db\<lparr>db_balance_outbox := sql_update (\<lambda>b. ob_id b = i) (\<lambda>b. b\<lparr>ob_sent := True, ob_sent_at := Some now, ob_last_error := None\<rparr>)
       (db_balance_outbox db)\<rparr>))"

definition credit_call :: "(history \<Rightarrow> transport) \<Rightarrow> ledger_client \<Rightarrow> outbox_row \<Rightarrow> ('s world, unit) go_io" where
  "credit_call tr c b = ext_call (CallCreditBalance (ob_account_id b) (ob_ref_id b) (ob_amount b) (ob_currency b))
     (\<lambda>h. ledger_CreditBalance (tr h) c (ob_account_id b) (ob_ref_id b) (ob_amount b) (ob_currency b))"

definition send_credit :: "pg_env \<Rightarrow> (history \<Rightarrow> transport) \<Rightarrow> ledger_client \<Rightarrow> outbox_row \<Rightarrow> (pgstate world, unit) go_io" where
  "send_credit E tr c b = io_bind (io_try (credit_call tr c b)) (\<lambda>r. case r of
       Inl e \<Rightarrow> io_ignore (on_store (postpone_credit E (ob_id b) (err_text e)))
     | Inr _ \<Rightarrow> io_ignore (on_store (mark_sent E (ob_id b))))"

definition outbox_flush :: "pg_env \<Rightarrow> (history \<Rightarrow> transport) \<Rightarrow> ledger_client \<Rightarrow> (pgstate world, unit) go_io" where
  "outbox_flush E tr c = io_bind (io_try (on_store (claim_credits E))) (\<lambda>r. case r of
       Inl _ \<Rightarrow> io_return ()
     | Inr items \<Rightarrow> io_each (send_credit E tr c) items)"

definition OutboxWorker_Run :: "pg_env \<Rightarrow> (history \<Rightarrow> transport) \<Rightarrow> ledger_client \<Rightarrow> pgstate world signal list \<Rightarrow> (pgstate world, bool) go_io" where
  "OutboxWorker_Run E tr c = ticker_loop (outbox_flush E tr c)"

end
