(* ===== verification/Webhooks.thy ===== *)
theory Webhooks
  imports Dinacore Pg_Service "HOL-Library.Multiset"
begin

text \<open>
  \<^verbatim>\<open>internal/adapters/webhooks/outbox.go\<close>: the worker that delivers merchant events to the registered URLs. A batch is
  claimed from the outbox, grouped by webhook, and the groups are handed to a bounded number of goroutines; each goroutine
  sends the deliveries of its group in order and stops at the first that fails. The receivers are a parameter: a function of
  the call history from requests to responses. The bytes of a JSONB payload are the parameter \<open>body\<close>.
\<close>

unbundle bit_operations_syntax

section \<open>State\<close>

record delivery =
  wd_id :: nat
  wd_webhookID :: string
  wd_url :: string
  wd_secret :: string
  wd_eventID :: string
  wd_payload :: string
  wd_attempts :: int
  wd_createdAt :: time

record webhook_request =
  wq_URL :: string
  wq_Header :: "string gomap"
  wq_Body :: string

type_synonym receivers = "history \<Rightarrow> webhook_request \<Rightarrow> go_error + http_response"

definition webhook_NewWorker :: "int list \<Rightarrow> nat" where
  "webhook_NewWorker configured = (case configured of c # _ \<Rightarrow> if c > 0 then nat c else 8 | [] \<Rightarrow> 8)"

section \<open>Claiming\<close>

definition due_delivery :: "time \<Rightarrow> pgdb \<Rightarrow> delivery_row \<Rightarrow> bool" where
  "due_delivery now db d \<longleftrightarrow> dl_status d = ''pending'' \<and> dl_next_attempt_at d \<le> now \<and>
     (\<exists>w \<in> set (db_webhooks db). wh_id w = dl_webhook_id d \<and> wh_api_version w = ''2'') \<and>
     ep_apiVersion (dl_payload d) = ''2''"

text \<open>One row of the answer; \<^verbatim>\<open>Scan\<close> refuses a \<^verbatim>\<open>NULL\<close> for a Go string.\<close>

definition scan_delivery :: "(event_payload \<Rightarrow> string) \<Rightarrow> pgdb \<Rightarrow> delivery_row \<Rightarrow> delivery option" where
  "scan_delivery body db d =
     (case find (\<lambda>w. wh_id w = dl_webhook_id d) (db_webhooks db) of
        None \<Rightarrow> None
      | Some w \<Rightarrow> (case wh_webhook_secret w of
            None \<Rightarrow> None
          | Some secret \<Rightarrow> Some \<lparr>wd_id = dl_id d, wd_webhookID = dl_webhook_id d, wd_url = wh_webhook_url w,
              wd_secret = secret, wd_eventID = dl_event_id d, wd_payload = body (dl_payload d),
              wd_attempts = dl_attempt_count d, wd_createdAt = dl_created_at d\<rparr>))"

definition claim_deliveries :: "pg_env \<Rightarrow> (event_payload \<Rightarrow> string) \<Rightarrow> (pgstate, delivery option list) go_io" where
  "claim_deliveries E body = db_call E (\<lambda>now db.
     let ids = map dl_id (take 50 (sort_key dl_next_attempt_at (filter (due_delivery now db) (db_deliveries db))));
         hit = (\<lambda>d. dl_id d \<in> set ids)
     in Inr (map (scan_delivery body db) (filter hit (db_deliveries db)),
          db\<lparr>db_deliveries := sql_update hit (\<lambda>d. d\<lparr>dl_next_attempt_at := now + minute_ns\<rparr>) (db_deliveries db)\<rparr>))"

section \<open>Grouping\<close>

text \<open>The loop of \<^verbatim>\<open>groupByWebhook\<close>: the groups by identifier and the identifiers in the order they are seen.\<close>

definition group_item :: "delivery \<Rightarrow> delivery list gomap \<times> string list \<Rightarrow> delivery list gomap \<times> string list" where
  "group_item item = (\<lambda>(byID, ids).
     (case mget byID (wd_webhookID item) of
        None \<Rightarrow> (mput (wd_webhookID item) [item] byID, ids @ [wd_webhookID item])
      | Some g \<Rightarrow> (mput (wd_webhookID item) (g @ [item]) byID, ids)))"

definition groupByWebhook :: "delivery list \<Rightarrow> delivery list list" where
  "groupByWebhook batch =
     (let (byID, ids) = fold group_item batch ([], [])
      in map (\<lambda>i. sort_key wd_createdAt (case mget byID i of None \<Rightarrow> [] | Some g \<Rightarrow> g)) (sort ids))"

section \<open>Delivering\<close>

text \<open>HMAC with SHA-256 (\<^verbatim>\<open>crypto/hmac\<close>, blocks of 64 bytes) over the parameter SHA-256.\<close>

definition byte_char :: "byte \<Rightarrow> char" where
  "byte_char b = char_of (unat b)"

definition hmac_pad :: "digest \<Rightarrow> string \<Rightarrow> byte \<Rightarrow> string" where
  "hmac_pad sha256 key p =
     (let k = (if length key > 64 then sha256 key else map (\<lambda>c. word_of_nat (of_char c)) key)
      in map (\<lambda>b. byte_char (b XOR p)) (k @ replicate (64 - length k) 0))"

definition hmac :: "digest \<Rightarrow> string \<Rightarrow> string \<Rightarrow> byte list" where
  "hmac sha256 key msg = sha256 (hmac_pad sha256 key 0x5C @ map byte_char (sha256 (hmac_pad sha256 key 0x36 @ msg)))"

definition signature :: "digest \<Rightarrow> string \<Rightarrow> string \<Rightarrow> int \<Rightarrow> string" where
  "signature sha256 secret payload timestamp =
     ''t='' @ decimal_int timestamp @ '',v1='' @ hex_encode (hmac sha256 secret (decimal_int timestamp @ ''.'' @ payload))"

text \<open>\<^verbatim>\<open>Unix()\<close> of a time: seconds since 1970, which is 62135596800 seconds after Go's zero time.\<close>

definition unix_seconds :: "time \<Rightarrow> int" where
  "unix_seconds t = t div second_ns - 62135596800"

definition webhook_request :: "digest \<Rightarrow> delivery \<Rightarrow> int \<Rightarrow> webhook_request" where
  "webhook_request sha256 d timestamp = \<lparr>wq_URL = wd_url d,
     wq_Header = mput ''X-Webhook-Signature'' (signature sha256 (wd_secret d) (wd_payload d) timestamp)
       (mput ''X-Webhook-Timestamp'' (decimal_int timestamp) (mput ''Content-Type'' ''application/json'' [])),
     wq_Body = wd_payload d\<rparr>"

definition webhook_call :: "digest \<Rightarrow> delivery \<Rightarrow> int \<Rightarrow> call" where
  "webhook_call sha256 d timestamp = CallWebhook (wd_url d) (decimal_int timestamp)
     (signature sha256 (wd_secret d) (wd_payload d) timestamp) (wd_payload d)"

definition webhook_answer :: "go_error + http_response \<Rightarrow> go_error + unit" where
  "webhook_answer r =
     (case r of
        Inl e \<Rightarrow> Inl e
      | Inr resp \<Rightarrow> if status_ok (hs_Status resp) then Inr () else Inl (ErrOther (''http '' @ decimal_int (hs_Status resp))))"

definition webhook_send :: "pg_env \<Rightarrow> receivers \<Rightarrow> delivery \<Rightarrow> (pgstate world, unit) go_io" where
  "webhook_send E rc d = io_bind (on_store (nowUTC E)) (\<lambda>t.
     ext_call (webhook_call (en_sha256 E) d (unix_seconds t))
       (\<lambda>h. webhook_answer (rc h (webhook_request (en_sha256 E) d (unix_seconds t)))))"

definition delivered_row :: "time \<Rightarrow> delivery_row \<Rightarrow> delivery_row" where
  "delivered_row now r = r\<lparr>dl_status := ''delivered'', dl_attempt_count := dl_attempt_count r + 1,
     dl_delivered_at := Some now, dl_last_error := None\<rparr>"

definition failed_row :: "time \<Rightarrow> string \<Rightarrow> string \<Rightarrow> delivery_row \<Rightarrow> delivery_row" where
  "failed_row now status msg r = r\<lparr>dl_status := status, dl_attempt_count := dl_attempt_count r + 1,
     dl_last_error := Some msg, dl_next_attempt_at := now + backoff (dl_attempt_count r)\<rparr>"

definition webhook_mark :: "pg_env \<Rightarrow> delivery \<Rightarrow> go_error + unit \<Rightarrow> (pgstate, unit) go_io" where
  "webhook_mark E d r = db_call E (\<lambda>now db.
     let f = (case r of
           Inr _ \<Rightarrow> delivered_row now
         | Inl e \<Rightarrow> failed_row now (if wd_attempts d + 1 \<ge> 8 then ''dead'' else ''pending'') (err_text e))
     in Inr ((), db\<lparr>db_deliveries := sql_update (\<lambda>r. dl_id r = wd_id d) f (db_deliveries db)\<rparr>))"

definition webhook_deliver :: "pg_env \<Rightarrow> receivers \<Rightarrow> delivery \<Rightarrow> (pgstate world, bool) go_io" where
  "webhook_deliver E rc d = io_bind (io_try (webhook_send E rc d)) (\<lambda>r.
     io_bind (io_ignore (on_store (webhook_mark E d r))) (\<lambda>_. io_return (\<not> isl r)))"

section \<open>The goroutines of a flush\<close>

text \<open>
  A goroutine waits for a group, has deliveries left to send, or has an answer to write to the outbox. \<open>dp_log\<close> lists the
  attempts made so far with their success. The steps of the goroutines interleave; between them the rest of the system
  changes the tables and makes calls of its own. \<open>stop\<close> is the branch of the cancelled context, which hands out no more
  groups.
\<close>

datatype job = Idle | Busy "delivery list" | Marking delivery "go_error + unit" "delivery list"

record dispatch =
  dp_queue :: "delivery list list"
  dp_jobs :: "job list"
  dp_stopped :: bool
  dp_world :: "pgstate world"
  dp_log :: "(delivery \<times> bool) list"

inductive dispatch_step :: "pg_env \<Rightarrow> receivers \<Rightarrow> dispatch \<Rightarrow> dispatch \<Rightarrow> bool" for E rc where
  hand_out: "dp_queue s = g # gs \<Longrightarrow> i < length (dp_jobs s) \<Longrightarrow> dp_jobs s ! i = Idle \<Longrightarrow>
    dispatch_step E rc s (s\<lparr>dp_queue := gs, dp_jobs := (dp_jobs s)[i := Busy g]\<rparr>)"
| finish: "i < length (dp_jobs s) \<Longrightarrow> dp_jobs s ! i = Busy [] \<Longrightarrow>
    dispatch_step E rc s (s\<lparr>dp_jobs := (dp_jobs s)[i := Idle]\<rparr>)"
| send: "i < length (dp_jobs s) \<Longrightarrow> dp_jobs s ! i = Busy (d # ds) \<Longrightarrow> webhook_send E rc d (dp_world s) = (r, w) \<Longrightarrow>
    dispatch_step E rc s (s\<lparr>dp_jobs := (dp_jobs s)[i := Marking d r ds], dp_world := w, dp_log := dp_log s @ [(d, \<not> isl r)]\<rparr>)"
| mark: "i < length (dp_jobs s) \<Longrightarrow> dp_jobs s ! i = Marking d r ds \<Longrightarrow> on_store (webhook_mark E d r) (dp_world s) = (x, w) \<Longrightarrow>
    dispatch_step E rc s (s\<lparr>dp_jobs := (dp_jobs s)[i := (if isl r then Idle else Busy ds)], dp_world := w\<rparr>)"
| stop: "dp_queue s \<noteq> [] \<Longrightarrow> dispatch_step E rc s (s\<lparr>dp_queue := [], dp_stopped := True\<rparr>)"

inductive_cases dispatch_stepE: "dispatch_step E rc s s'"

definition is_webhook_call :: "call \<times> bool \<Rightarrow> bool" where
  "is_webhook_call c = (case fst c of CallWebhook _ _ _ _ \<Rightarrow> True | _ \<Rightarrow> False)"

inductive flush_step :: "pg_env \<Rightarrow> receivers \<Rightarrow> dispatch \<Rightarrow> dispatch \<Rightarrow> bool" for E rc where
  inside: "dispatch_step E rc s s' \<Longrightarrow> flush_step E rc s s'"
| outside: "wcalls w = wcalls (dp_world s) @ cs \<Longrightarrow> list_all (\<lambda>c. \<not> is_webhook_call c) cs \<Longrightarrow>
    flush_step E rc s (s\<lparr>dp_world := w\<rparr>)"

abbreviation flush_run :: "pg_env \<Rightarrow> receivers \<Rightarrow> dispatch \<Rightarrow> dispatch \<Rightarrow> bool" where
  "flush_run E rc \<equiv> (flush_step E rc)\<^sup>*\<^sup>*"

text \<open>The state in which \<^verbatim>\<open>flush\<close> starts its goroutines for a batch.\<close>

definition dispatch_start :: "nat \<Rightarrow> delivery list \<Rightarrow> pgstate world \<Rightarrow> dispatch" where
  "dispatch_start concurrency batch w =
     (let groups = groupByWebhook batch
      in \<lparr>dp_queue = groups, dp_jobs = replicate (min concurrency (length groups)) Idle, dp_stopped = False,
          dp_world = w, dp_log = []\<rparr>)"

text \<open>\<^verbatim>\<open>flush\<close> until it starts the goroutines; \<open>None\<close> when it gives up, also because a row does not scan.\<close>

definition webhook_flush :: "pg_env \<Rightarrow> (event_payload \<Rightarrow> string) \<Rightarrow> nat \<Rightarrow> pgstate world \<Rightarrow> dispatch option \<times> pgstate world" where
  "webhook_flush E body concurrency w =
     (case on_store (claim_deliveries E body) w of
        (Inl _, w') \<Rightarrow> (None, w')
      | (Inr rows, w') \<Rightarrow> (case those rows of None \<Rightarrow> (None, w') | Some batch \<Rightarrow> (Some (dispatch_start concurrency batch w'), w')))"

text \<open>
  \<^verbatim>\<open>flush\<close> from its start to the return of \<^verbatim>\<open>workers.Wait\<close>: no group is left to hand out and every goroutine is idle.
\<close>

definition flush_over :: "dispatch \<Rightarrow> bool" where
  "flush_over s \<longleftrightarrow> dp_queue s = [] \<and> list_all (\<lambda>j. j = Idle) (dp_jobs s)"

inductive webhook_flushed :: "pg_env \<Rightarrow> receivers \<Rightarrow> (event_payload \<Rightarrow> string) \<Rightarrow> nat \<Rightarrow> pgstate world \<Rightarrow> pgstate world \<Rightarrow> bool"
  for E rc body concurrency where
  gave_up: "webhook_flush E body concurrency w = (None, w') \<Longrightarrow> webhook_flushed E rc body concurrency w w'"
| over: "webhook_flush E body concurrency w = (Some s, w1) \<Longrightarrow> flush_run E rc s s' \<Longrightarrow> flush_over s' \<Longrightarrow>
    webhook_flushed E rc body concurrency w (dp_world s')"

text \<open>The worker's loop; a flush can end in several ways, so this one is a relation.\<close>

inductive webhook_Run :: "pg_env \<Rightarrow> receivers \<Rightarrow> (event_payload \<Rightarrow> string) \<Rightarrow> nat \<Rightarrow>
    pgstate world signal list \<Rightarrow> pgstate world \<Rightarrow> bool \<Rightarrow> pgstate world \<Rightarrow> bool"
  for E rc body concurrency where
  waiting: "webhook_flushed E rc body concurrency w w' \<Longrightarrow> webhook_Run E rc body concurrency [] w False w'"
| cancelled: "webhook_flushed E rc body concurrency w w' \<Longrightarrow> webhook_Run E rc body concurrency (Cancelled # signals) w True w'"
| ticked: "webhook_flushed E rc body concurrency w w1 \<Longrightarrow> webhook_Run E rc body concurrency signals (others w1) r w' \<Longrightarrow>
    webhook_Run E rc body concurrency (Tick others # signals) w r w'"

section \<open>The groups\<close>

lemma grouped:
  assumes "fold group_item batch ([], []) = (byID, ids)"
  shows "distinct ids \<and> set ids = wd_webhookID ` set batch \<and>
    (\<forall>i. mget byID i = (if i \<in> set ids then Some (filter (\<lambda>d. wd_webhookID d = i) batch) else None))"
  using assms
proof (induction batch arbitrary: byID ids rule: rev_induct)
  case (snoc item batch)
  obtain m seen where before: "fold group_item batch ([], []) = (m, seen)" by force
  have *: "group_item item (m, seen) = (byID, ids)" using snoc.prems before by simp
  show ?case
  proof (cases "wd_webhookID item \<in> set seen")
    case True
    with snoc.IH [OF before] * show ?thesis by (auto simp: group_item_def insert_absorb)
  next
    case False
    then have "\<forall>d \<in> set batch. wd_webhookID d \<noteq> wd_webhookID item" using snoc.IH [OF before] by (metis image_eqI)
    moreover from False snoc.IH [OF before] * have "byID = mput (wd_webhookID item) [item] m" "ids = seen @ [wd_webhookID item]"
      by (simp_all add: group_item_def)
    ultimately show ?thesis using False snoc.IH [OF before] by (simp add: filter_empty_conv)
  qed
qed simp

definition group_of :: "delivery list \<Rightarrow> string \<Rightarrow> delivery list" where
  "group_of batch i = sort_key wd_createdAt (filter (\<lambda>d. wd_webhookID d = i) batch)"

lemma groups_spec: "groupByWebhook batch = map (group_of batch) (sorted_list_of_set (wd_webhookID ` set batch))"
proof -
  obtain byID ids where g: "fold group_item batch ([], []) = (byID, ids)" by force
  from grouped [OF g] have "sort ids = sorted_list_of_set (wd_webhookID ` set batch)"
    and "\<And>i. i \<in> set ids \<Longrightarrow> mget byID i = Some (filter (\<lambda>d. wd_webhookID d = i) batch)"
    by (metis sorted_list_of_set_sort_remdups distinct_remdups_id, simp)
  moreover have "set (sorted_list_of_set (wd_webhookID ` set batch)) = set ids" using grouped [OF g] by simp
  ultimately show ?thesis unfolding groupByWebhook_def Let_def g by (auto simp: group_of_def)
qed

section \<open>The order of the attempts\<close>

fun job_rest :: "job \<Rightarrow> delivery list" where
  "job_rest Idle = []"
| "job_rest (Busy ds) = ds"
| "job_rest (Marking d r ds) = (if isl r then [] else ds)"

definition rests :: "job list \<Rightarrow> delivery list multiset" where
  "rests js = mset (map job_rest js)"

definition waiting :: "dispatch \<Rightarrow> delivery list multiset" where
  "waiting s = mset (dp_queue s) + rests (dp_jobs s)"

abbreviation of_hook :: "string \<Rightarrow> delivery list \<Rightarrow> delivery list" where
  "of_hook h \<equiv> filter (\<lambda>d. wd_webhookID d = h)"

definition waiting_for :: "string \<Rightarrow> delivery list multiset \<Rightarrow> delivery list multiset" where
  "waiting_for h W = filter_mset (\<lambda>l. l \<noteq> []) (image_mset (of_hook h) W)"

definition attempts :: "string \<Rightarrow> (delivery \<times> bool) list \<Rightarrow> (delivery \<times> bool) list" where
  "attempts h xs = filter (\<lambda>a. wd_webhookID (fst a) = h) xs"

definition one_list :: "'a list \<Rightarrow> 'a list multiset" where
  "one_list r = (if r = [] then {#} else {#r#})"

text \<open>
  For each webhook at most one list of deliveries waits; the attempts made, this list and what was given up make its group;
  only the last attempt can have failed, and then nothing waits.
\<close>

definition hook_ok :: "bool \<Rightarrow> delivery list \<Rightarrow> delivery list multiset \<Rightarrow> (delivery \<times> bool) list \<Rightarrow> bool" where
  "hook_ok stopped g W as \<longleftrightarrow> (\<exists>r dropped. W = one_list r \<and> map fst as @ r @ dropped = g \<and> list_all snd (butlast as) \<and>
     (r \<noteq> [] \<longrightarrow> list_all snd as) \<and> (dropped \<noteq> [] \<longrightarrow> stopped \<or> \<not> list_all snd as))"

definition uniform :: "delivery list \<Rightarrow> bool" where
  "uniform l \<longleftrightarrow> (\<exists>h. \<forall>d \<in> set l. wd_webhookID d = h)"

definition dispatch_inv :: "delivery list \<Rightarrow> dispatch \<Rightarrow> bool" where
  "dispatch_inv batch s \<longleftrightarrow> (\<forall>l \<in># waiting s. uniform l) \<and>
     (\<forall>h. hook_ok (dp_stopped s) (group_of batch h) (waiting_for h (waiting s)) (attempts h (dp_log s)))"

lemma waiting_for_simps [simp]:
  "waiting_for h (W + V) = waiting_for h W + waiting_for h V"
  "waiting_for h (add_mset l W) = one_list (of_hook h l) + waiting_for h W"
  "waiting_for h {#} = {#}"
  by (auto simp: waiting_for_def one_list_def)

lemma one_list_simps [simp]: "one_list [] = {#}" "one_list (x # xs) = {#x # xs#}"
  by (simp_all add: one_list_def)

lemma attempts_snoc [simp]:
  "attempts h (xs @ [a]) = attempts h xs @ (if wd_webhookID (fst a) = h then [a] else [])"
  by (simp add: attempts_def)

lemma job_replaced:
  assumes "i < length js"
  shows "\<exists>R. rests js = add_mset (job_rest (js ! i)) R \<and> rests (js[i := j]) = add_mset (job_rest j) R"
proof -
  have *: "rests (js[i := k]) = add_mset (job_rest k) (mset (map job_rest (take i js)) + mset (map job_rest (drop (Suc i) js)))"
    for k using assms by (simp add: rests_def upd_conv_take_nth_drop)
  show ?thesis using * [of j] * [of "js ! i"] by (intro exI conjI) simp_all
qed

lemma one_list_split:
  assumes "one_list (x # xs) + R = one_list r"
  shows "r = x # xs \<and> R = {#}"
  using assms by (auto simp: one_list_def split: if_splits)

lemma uniform_other: "uniform (d # ds) \<Longrightarrow> wd_webhookID d \<noteq> h \<Longrightarrow> of_hook h (d # ds) = [] \<and> of_hook h ds = []"
  by (auto simp: uniform_def filter_empty_conv)

lemma uniform_tl: "uniform (d # ds) \<Longrightarrow> uniform ds"
  by (auto simp: uniform_def)

lemma dispatch_invE:
  assumes "dispatch_inv batch s"
  obtains r dropped where "waiting_for h (mset (dp_queue s)) + waiting_for h (rests (dp_jobs s)) = one_list r"
    and "map fst (attempts h (dp_log s)) @ r @ dropped = group_of batch h"
    and "list_all snd (butlast (attempts h (dp_log s)))"
    and "r \<noteq> [] \<longrightarrow> list_all snd (attempts h (dp_log s))"
    and "dropped \<noteq> [] \<longrightarrow> dp_stopped s \<or> \<not> list_all snd (attempts h (dp_log s))"
proof -
  from assms have "hook_ok (dp_stopped s) (group_of batch h) (waiting_for h (waiting s)) (attempts h (dp_log s))"
    by (simp add: dispatch_inv_def)
  with that show thesis by (auto simp: hook_ok_def waiting_def)
qed

lemma dispatch_step_inv:
  assumes "dispatch_step E rc s s'" and inv: "dispatch_inv batch s"
  shows "dispatch_inv batch s'"
  using assms(1)
proof cases
  case (hand_out g gs i)
  from job_replaced [OF hand_out(3), of "Busy g"] obtain R where
    "rests (dp_jobs s) = add_mset [] R" "rests ((dp_jobs s)[i := Busy g]) = add_mset g R"
    using hand_out(4) by auto
  with inv hand_out show ?thesis by (simp add: dispatch_inv_def waiting_def)
next
  case (finish i)
  from job_replaced [OF finish(2), of Idle] finish inv show ?thesis by (auto simp: dispatch_inv_def waiting_def)
next
  case (mark i d r ds x w)
  from job_replaced [OF mark(2), of "if isl r then Idle else Busy ds"] mark inv show ?thesis
    by (auto simp: dispatch_inv_def waiting_def split: if_splits)
next
  case stop
  have "hook_ok True (group_of batch h) (waiting_for h (rests (dp_jobs s))) (attempts h (dp_log s))" for h
  proof -
    from inv obtain r dropped where *: "waiting_for h (mset (dp_queue s)) + waiting_for h (rests (dp_jobs s)) = one_list r"
      "map fst (attempts h (dp_log s)) @ r @ dropped = group_of batch h" "list_all snd (butlast (attempts h (dp_log s)))"
      "r \<noteq> [] \<longrightarrow> list_all snd (attempts h (dp_log s))"
      by (rule dispatch_invE)
    show ?thesis
    proof (cases "waiting_for h (rests (dp_jobs s)) = {#}")
      case True
      then show ?thesis unfolding hook_ok_def using * by (intro exI [of _ "[]"] exI [of _ "r @ dropped"]) simp
    next
      case False
      with *(1) have "waiting_for h (rests (dp_jobs s)) = one_list r"
        by (auto simp: one_list_def union_is_single split: if_splits)
      then show ?thesis unfolding hook_ok_def using * by (intro exI [of _ r] exI [of _ dropped]) simp
    qed
  qed
  with inv stop show ?thesis by (simp add: dispatch_inv_def waiting_def)
next
  case (send i d ds r w)
  let ?rest = "if isl r then [] else ds"
  from job_replaced [OF send(2), of "Marking d r ds"] obtain R where
    R: "rests (dp_jobs s) = add_mset (d # ds) R"
       "rests ((dp_jobs s)[i := Marking d r ds]) = add_mset ?rest R"
    using send(3) by auto
  with inv have u: "uniform (d # ds)" by (simp add: dispatch_inv_def waiting_def)
  have "hook_ok (dp_stopped s) (group_of batch h) (waiting_for h (mset (dp_queue s) + add_mset ?rest R))
      (attempts h (dp_log s @ [(d, \<not> isl r)]))" for h
  proof (cases "wd_webhookID d = h")
    case False
    have "hook_ok (dp_stopped s) (group_of batch h) (waiting_for h (waiting s)) (attempts h (dp_log s))"
      using inv by (simp add: dispatch_inv_def)
    with uniform_other [OF u False] R False show ?thesis by (simp add: waiting_def)
  next
    case True
    from inv obtain q dropped where *: "waiting_for h (mset (dp_queue s)) + waiting_for h (rests (dp_jobs s)) = one_list q"
      "map fst (attempts h (dp_log s)) @ q @ dropped = group_of batch h"
      "q \<noteq> [] \<longrightarrow> list_all snd (attempts h (dp_log s))"
      "dropped \<noteq> [] \<longrightarrow> dp_stopped s \<or> \<not> list_all snd (attempts h (dp_log s))"
      by (rule dispatch_invE)
    from *(1) True R have "one_list (d # of_hook h ds) + (waiting_for h R + waiting_for h (mset (dp_queue s))) = one_list q"
      by (simp add: ac_simps)
    from one_list_split [OF this] have q: "q = d # of_hook h ds" "waiting_for h R = {#}" "waiting_for h (mset (dp_queue s)) = {#}"
      by auto
    show ?thesis unfolding hook_ok_def
      using True * q by (intro exI [of _ "of_hook h ?rest"] exI [of _ "if isl r then of_hook h ds @ dropped else dropped"]) auto
  qed
  with send inv R u uniform_tl show ?thesis by (auto simp: dispatch_inv_def waiting_def uniform_def)
qed

lemma waiting_for_groups:
  "distinct xs \<Longrightarrow> waiting_for h (mset (map (group_of batch) xs)) = (if h \<in> set xs then one_list (group_of batch h) else {#})"
proof (induction xs)
  case (Cons x xs)
  have "of_hook h (group_of batch x) = (if x = h then group_of batch h else [])"
    by (auto simp: group_of_def filter_empty_conv filter_id_conv)
  with Cons show ?case by auto
qed simp

lemma dispatch_start_inv: "dispatch_inv batch (dispatch_start c batch w)"
proof -
  let ?ids = "sorted_list_of_set (wd_webhookID ` set batch)"
  have idle: "rests (replicate n Idle) = replicate_mset n []" for n by (simp add: rests_def)
  have none: "waiting_for h (replicate_mset n []) = {#}" for h n by (induction n) simp_all
  have "uniform l" if "l \<in># waiting (dispatch_start c batch w)" for l
    using that by (auto simp: waiting_def dispatch_start_def Let_def idle groups_spec uniform_def group_of_def split: if_splits)
  moreover have "waiting_for h (waiting (dispatch_start c batch w)) = one_list (group_of batch h)" for h
  proof -
    have "h \<notin> wd_webhookID ` set batch \<Longrightarrow> of_hook h batch = []" by (auto simp: filter_empty_conv)
    then have "h \<notin> wd_webhookID ` set batch \<Longrightarrow> group_of batch h = []" by (simp add: group_of_def)
    with waiting_for_groups [of ?ids h batch] show ?thesis
      by (simp add: waiting_def dispatch_start_def Let_def idle none groups_spec split: if_splits)
  qed
  ultimately show ?thesis
    by (auto simp: dispatch_inv_def hook_ok_def dispatch_start_def attempts_def Let_def)
qed

lemma flush_run_inv: "flush_run E rc s s' \<Longrightarrow> dispatch_inv batch s \<Longrightarrow> dispatch_inv batch s'"
proof (induction rule: rtranclp_induct)
  case (step y z)
  from step.hyps(2) step.IH [OF step.prems] show ?case
  proof cases
    case inside
    then show ?thesis using dispatch_step_inv step by blast
  next
    case outside
    with step.IH [OF step.prems] show ?thesis by (simp add: dispatch_inv_def waiting_def)
  qed
qed

section \<open>The calls\<close>

definition attempt_call :: "pg_env \<Rightarrow> call \<times> bool \<Rightarrow> delivery \<times> bool \<Rightarrow> bool" where
  "attempt_call E c a \<longleftrightarrow> snd c = snd a \<and> (\<exists>t. fst c = webhook_call (en_sha256 E) (fst a) t)"

definition webhook_calls :: "'s world \<Rightarrow> history" where
  "webhook_calls w = filter is_webhook_call (wcalls w)"

lemma webhook_sendD:
  assumes "webhook_send E rc d w = (r, w')"
  shows "\<exists>t. webhook_calls w' = webhook_calls w @ [(webhook_call (en_sha256 E) d t, \<not> isl r)] \<and> wstore w' = wstore w"
  using assms
  by (auto simp: webhook_send_def io_bind_def nowUTC_def on_store_def ext_call_def Let_def webhook_calls_def
      is_webhook_call_def webhook_call_def split: prod.splits)

lemma on_store_calls: "on_store m w = (x, w') \<Longrightarrow> wcalls w' = wcalls w"
  by (auto simp: on_store_def split: prod.splits)

lemma flush_step_calls:
  assumes "flush_step E rc s s'" and "list_all2 (attempt_call E) (drop n (webhook_calls (dp_world s))) (dp_log s)"
    and "n \<le> length (webhook_calls (dp_world s))"
  shows "list_all2 (attempt_call E) (drop n (webhook_calls (dp_world s'))) (dp_log s') \<and> n \<le> length (webhook_calls (dp_world s'))"
  using assms(1)
proof cases
  case inside
  then show ?thesis
  proof cases
    case (send i d ds r w)
    from webhook_sendD [OF send(4)] assms(2,3) send(1) show ?thesis
      by (auto simp: attempt_call_def intro!: list_all2_appendI) (rule exI, rule refl)
  next
    case (mark i d r ds x w)
    from on_store_calls [OF mark(4)] assms(2,3) mark(1) show ?thesis by (simp add: webhook_calls_def)
  qed (use assms(2,3) in auto)
next
  case (outside w cs)
  then have "filter is_webhook_call cs = []" by (simp add: filter_empty_conv list_all_iff)
  with outside assms(2,3) show ?thesis by (simp add: webhook_calls_def)
qed

lemma flush_run_calls:
  assumes "flush_run E rc s0 s" and "dp_log s0 = []"
  shows "list_all2 (attempt_call E) (drop (length (webhook_calls (dp_world s0))) (webhook_calls (dp_world s))) (dp_log s) \<and>
    length (webhook_calls (dp_world s0)) \<le> length (webhook_calls (dp_world s))"
  using assms
proof (induction rule: rtranclp_induct)
  case (step y z)
  then show ?case using flush_step_calls by blast
qed simp

section \<open>The end of a flush\<close>

fun job_weight :: "job \<Rightarrow> nat" where
  "job_weight Idle = 0"
| "job_weight (Busy ds) = 3 * length ds + 1"
| "job_weight (Marking d r ds) = 3 * length ds + 2"

definition dispatch_weight :: "dispatch \<Rightarrow> nat" where
  "dispatch_weight s = sum_list (map (\<lambda>g. 3 * length g + 2) (dp_queue s)) + sum_list (map job_weight (dp_jobs s))"

lemma job_weight_update:
  "i < length js \<Longrightarrow> sum_list (map job_weight (js[i := j])) + job_weight (js ! i) = sum_list (map job_weight js) + job_weight j"
proof (induction js arbitrary: i)
  case (Cons x js)
  then show ?case by (cases i) auto
qed simp

lemma dispatch_step_weight: "dispatch_step E rc s s' \<Longrightarrow> dispatch_weight s' < dispatch_weight s"
proof (induction rule: dispatch_step.induct)
  case (hand_out s g gs i)
  from job_weight_update [OF hand_out(2), of "Busy g"] hand_out show ?case by (simp add: dispatch_weight_def)
next
  case (finish i s)
  from job_weight_update [OF finish(1), of Idle] finish show ?case by (simp add: dispatch_weight_def)
next
  case (send i s d ds r w)
  from job_weight_update [OF send(1), of "Marking d r ds"] send show ?case by (simp add: dispatch_weight_def)
next
  case (mark i s d r ds x w)
  from job_weight_update [OF mark(1), of "if isl r then Idle else Busy ds"] mark show ?case
    by (simp add: dispatch_weight_def split: if_splits)
next
  case (stop s)
  then show ?case by (cases "dp_queue s") (simp_all add: dispatch_weight_def)
qed

section \<open>The pause after a failure\<close>

lemma doubled_bounds: "1 \<le> (2::int) ^ nat (min n 8)" "(2::int) ^ nat (min n 8) \<le> 256"
proof -
  have "(2::int) ^ nat (min n 8) \<le> 2 ^ 8" by (rule power_increasing) auto
  then show "1 \<le> (2::int) ^ nat (min n 8)" "(2::int) ^ nat (min n 8) \<le> 256" by simp_all
qed

lemma backoff_value: "backoff n = 10 * second_ns * 2 ^ nat (min n 8)"
  using doubled_bounds(2) [of n] by (simp add: backoff_def)

section \<open>Running a flush\<close>

text \<open>One turn of goroutine \<open>i\<close>, if it can move.\<close>

definition dispatch_turn :: "pg_env \<Rightarrow> receivers \<Rightarrow> nat \<Rightarrow> dispatch \<Rightarrow> dispatch" where
  "dispatch_turn E rc i s =
     (if i < length (dp_jobs s) then
        (case dp_jobs s ! i of
           Idle \<Rightarrow> (case dp_queue s of [] \<Rightarrow> s | g # gs \<Rightarrow> s\<lparr>dp_queue := gs, dp_jobs := (dp_jobs s)[i := Busy g]\<rparr>)
         | Busy [] \<Rightarrow> s\<lparr>dp_jobs := (dp_jobs s)[i := Idle]\<rparr>
         | Busy (d # ds) \<Rightarrow> (case webhook_send E rc d (dp_world s) of (r, w) \<Rightarrow>
             s\<lparr>dp_jobs := (dp_jobs s)[i := Marking d r ds], dp_world := w, dp_log := dp_log s @ [(d, \<not> isl r)]\<rparr>)
         | Marking d r ds \<Rightarrow> (case on_store (webhook_mark E d r) (dp_world s) of (x, w) \<Rightarrow>
             s\<lparr>dp_jobs := (dp_jobs s)[i := (if isl r then Idle else Busy ds)], dp_world := w\<rparr>))
      else s)"

lemma dispatch_turn_run: "flush_run E rc s (dispatch_turn E rc i s)"
proof -
  have "dispatch_turn E rc i s = s \<or> dispatch_step E rc s (dispatch_turn E rc i s)"
  proof (cases "dp_jobs s ! i")
    case (Marking d r ds)
    obtain x w where w: "on_store (webhook_mark E d r) (dp_world s) = (x, w)" by force
    with Marking show ?thesis using dispatch_step.mark [OF _ Marking w] by (simp add: dispatch_turn_def)
  qed (auto simp: dispatch_turn_def intro: dispatch_step.intros split: list.split prod.split)
  then show ?thesis
  proof
    assume "dispatch_step E rc s (dispatch_turn E rc i s)"
    then have "flush_step E rc s (dispatch_turn E rc i s)" by (rule flush_step.inside)
    then show ?thesis ..
  qed simp
qed

lemma dispatch_turns_run: "flush_run E rc s (fold (dispatch_turn E rc) is s)"
proof (induction "is" arbitrary: s)
  case (Cons i turns)
  from rtranclp_trans [OF dispatch_turn_run Cons.IH] show ?case by simp
qed simp

text \<open>The goroutines a flush has, and the groups left, while it runs.\<close>

definition dispatch_size :: "nat \<Rightarrow> nat \<Rightarrow> dispatch \<Rightarrow> bool" where
  "dispatch_size c n s \<longleftrightarrow> length (dp_jobs s) = min c n \<and> length (dp_queue s) \<le> n"

lemma dispatch_step_size: "dispatch_step E rc s s' \<Longrightarrow> dispatch_size c n s \<Longrightarrow> dispatch_size c n s'"
  by (cases rule: dispatch_step.cases) (auto simp: dispatch_size_def)

lemma flush_run_size: "flush_run E rc s s' \<Longrightarrow> dispatch_size c n s \<Longrightarrow> dispatch_size c n s'"
proof (induction rule: rtranclp_induct)
  case (step y z)
  from step.hyps(2) show ?case
  proof cases
    case inside
    then show ?thesis using dispatch_step_size step by blast
  next
    case outside
    with step show ?thesis by (simp add: dispatch_size_def)
  qed
qed

lemma dispatch_idle:
  assumes "\<And>s'. dispatch_step E rc s s' \<Longrightarrow> dp_stopped s' \<noteq> dp_stopped s" and "i < length (dp_jobs s)"
  shows "dp_jobs s ! i = Idle"
proof (cases "dp_jobs s ! i")
  case (Busy ds)
  then show ?thesis
  proof (cases ds)
    case Nil
    with dispatch_step.finish [OF assms(2)] Busy assms(1) show ?thesis by fastforce
  next
    case (Cons d ds')
    obtain r w where "webhook_send E rc d (dp_world s) = (r, w)" by force
    with dispatch_step.send [OF assms(2)] Busy Cons assms(1) show ?thesis by fastforce
  qed
next
  case (Marking d r ds)
  obtain x w where "on_store (webhook_mark E d r) (dp_world s) = (x, w)" by force
  with dispatch_step.mark [OF assms(2) Marking] assms(1) show ?thesis by fastforce
qed

lemma dispatch_done:
  assumes quiet: "\<And>s'. dispatch_step E rc s s' \<Longrightarrow> dp_stopped s' \<noteq> dp_stopped s"
    and "dispatch_size c n s" and "0 < c"
  shows "waiting_for h (mset (dp_queue s)) + waiting_for h (rests (dp_jobs s)) = {#}"
proof -
  have idle: "dp_jobs s = replicate (length (dp_jobs s)) Idle"
    using dispatch_idle [OF quiet] by (simp add: list_eq_iff_nth_eq)
  have "dp_queue s = []"
  proof (rule ccontr)
    assume "dp_queue s \<noteq> []"
    then obtain g gs where q: "dp_queue s = g # gs" by (cases "dp_queue s") auto
    with assms(2,3) have "0 < length (dp_jobs s)" by (simp add: dispatch_size_def)
    with dispatch_step.hand_out [OF q, of 0] dispatch_idle [OF quiet] quiet show False by fastforce
  qed
  moreover have "waiting_for h (rests (replicate m Idle)) = {#}" for m
    by (induction m) (simp_all add: rests_def)
  ultimately show ?thesis using idle by (metis mset.simps(1) waiting_for_simps(3) add_0)
qed

text \<open>Every flush ends, so the loop ends when its context does.\<close>

lemma flush_gets_over:
  assumes "dispatch_size c n s" and "0 < c"
  shows "\<exists>s'. flush_run E rc s s' \<and> flush_over s'"
  using assms(1)
proof (induction "dispatch_weight s" arbitrary: s rule: less_induct)
  case less
  show ?case
  proof (cases "\<exists>s1. dispatch_step E rc s s1")
    case True
    then obtain s1 where s1: "dispatch_step E rc s s1" ..
    with less obtain s' where "flush_run E rc s1 s'" "flush_over s'"
      using dispatch_step_weight dispatch_step_size by blast
    moreover have "flush_step E rc s s1" using s1 by (rule flush_step.inside)
    ultimately show ?thesis by (blast intro: converse_rtranclp_into_rtranclp)
  next
    case False
    then have "dp_queue s = []" using dispatch_step.stop by blast
    moreover have "list_all (\<lambda>j. j = Idle) (dp_jobs s)"
      using dispatch_idle [of E rc s] False by (auto simp: list_all_length)
    ultimately show ?thesis unfolding flush_over_def by blast
  qed
qed

lemma webhook_flush_returns: "\<exists>w'. webhook_flushed E rc body (webhook_NewWorker configured) w w'"
proof (cases "webhook_flush E body (webhook_NewWorker configured) w")
  case (Pair d w1)
  show ?thesis
  proof (cases d)
    case None
    with Pair show ?thesis using webhook_flushed.gave_up by blast
  next
    case (Some s)
    then obtain batch where s: "s = dispatch_start (webhook_NewWorker configured) batch w1"
      using Pair by (auto simp: webhook_flush_def split: prod.splits sum.splits option.splits)
    have "dispatch_size (webhook_NewWorker configured) (length (groupByWebhook batch)) s"
      by (simp add: s dispatch_size_def dispatch_start_def Let_def)
    moreover have "0 < webhook_NewWorker configured" by (auto simp: webhook_NewWorker_def split: list.splits)
    ultimately obtain s' where "flush_run E rc s s'" "flush_over s'" using flush_gets_over by blast
    with Pair Some show ?thesis using webhook_flushed.over by blast
  qed
qed

lemma webhook_Run_ends:
  "\<exists>w'. webhook_Run E rc body (webhook_NewWorker configured) signals w (Cancelled \<in> set signals) w'"
proof (induction signals arbitrary: w)
  case Nil
  from webhook_flush_returns show ?case by simp (blast intro: webhook_Run.waiting)
next
  case (Cons x signals)
  obtain w1 where w1: "webhook_flushed E rc body (webhook_NewWorker configured) w w1" using webhook_flush_returns by blast
  show ?case
  proof (cases x)
    case Cancelled
    with webhook_Run.cancelled [OF w1] show ?thesis by auto
  next
    case (Tick others)
    with Cons webhook_Run.ticked [OF w1] show ?thesis by fastforce
  qed
qed

section \<open>Example\<close>

definition ex_delivery :: "nat \<Rightarrow> string \<Rightarrow> time \<Rightarrow> delivery" where
  "ex_delivery n hook t = \<lparr>wd_id = n, wd_webhookID = hook, wd_url = hook, wd_secret = ''s'', wd_eventID = ''e'',
     wd_payload = ''{}'', wd_attempts = 7, wd_createdAt = t\<rparr>"

text \<open>Three deliveries to one webhook and one to another, out of order; the first webhook answers its second request with 500.\<close>

definition ex_batch :: "delivery list" where
  "ex_batch = [ex_delivery 1 ''w1'' 30, ex_delivery 2 ''w2'' 5, ex_delivery 3 ''w1'' 10, ex_delivery 4 ''w1'' 20]"

definition ex_receivers :: receivers where
  "ex_receivers h q = Inr \<lparr>hs_Status = (if wq_URL q = ''w1'' \<and> length h \<ge> 2 then 500 else 200), hs_Header = [], hs_Body = ''''\<rparr>"

definition ex_delivery_row :: delivery_row where
  "ex_delivery_row = \<lparr>dl_id = 4, dl_webhook_id = ''w1'', dl_event_id = ''e'', dl_event_type = '''',
     dl_payload = \<lparr>ep_eventId = '''', ep_eventType = '''', ep_apiVersion = ''2'', ep_merchantId = '''', ep_creationDate = 0,
       ep_resourceVersion = 0, ep_previousStatus = None, ep_object = ResPayment zero_payment\<rparr>,
     dl_status = ''pending'', dl_attempt_count = 7, dl_next_attempt_at = 0, dl_created_at = 20, dl_delivered_at = None, dl_last_error = None\<rparr>"

definition ex_webhook_world :: "pgstate world" where
  "ex_webhook_world = \<lparr>wstore = \<lparr>pg_db = empty_db\<lparr>db_deliveries := [ex_delivery_row]\<rparr>, pg_tick = 0\<rparr>, wcalls = []\<rparr>"

definition ex_flush :: dispatch where
  "ex_flush = fold (dispatch_turn ex_flat_env ex_receivers) [0, 0, 1, 1, 0, 1, 0, 0, 1]
     (dispatch_start (webhook_NewWorker []) ex_batch ex_webhook_world)"

lemma ex_flush_run: "flush_run ex_flat_env ex_receivers (dispatch_start (webhook_NewWorker []) ex_batch ex_webhook_world) ex_flush"
  unfolding ex_flush_def by (rule dispatch_turns_run)

lemma webhook_send_eq:
  "webhook_send E rc d w =
     (let t = unix_seconds (en_wall E (pg_tick (wstore w)));
          r = webhook_answer (rc (wcalls w) (webhook_request (en_sha256 E) d t))
      in (r, w\<lparr>wcalls := wcalls w @ [(webhook_call (en_sha256 E) d t, \<not> isl r)]\<rparr>))"
  by (simp add: webhook_send_def io_bind_def nowUTC_def on_store_def ext_call_def Let_def)

lemma ex_groups: "groupByWebhook ex_batch =
   [[ex_delivery 3 ''w1'' 10, ex_delivery 4 ''w1'' 20, ex_delivery 1 ''w1'' 30], [ex_delivery 2 ''w2'' 5]]"
  by code_simp

lemma ex_flat_never_down [simp]: "en_down ex_flat_env n = False"
  by (simp add: ex_flat_env_def)

lemma ex_flush_log: "map (\<lambda>(d, ok). (wd_id d, ok)) (dp_log ex_flush) = [(3, True), (2, True), (4, False)] \<and>
   map dl_status (db_deliveries (pg_db (wstore (dp_world ex_flush)))) = [''dead''] \<and> \<not> dp_stopped ex_flush \<and>
   dp_queue ex_flush = [] \<and> dp_jobs ex_flush = [Idle, Idle]"
  by (simp add: ex_flush_def dispatch_start_def Let_def ex_groups webhook_NewWorker_def numeral_2_eq_2 dispatch_turn_def
      webhook_send_eq webhook_answer_def ex_receivers_def webhook_request_def status_ok_def webhook_mark_def on_store_def
      db_call_def ex_delivery_def ex_webhook_world_def ex_delivery_row_def sql_update_def delivered_row_def failed_row_def)

text \<open>
  C37: the groups of a batch. There is one group for each webhook of the batch, in the order of the identifiers; it holds
  the deliveries of this webhook, none lost and none repeated, by the time they were created, and in the order of the
  batch where the times are equal.
\<close>

theorem webhook_groups:
  "groupByWebhook batch = map (\<lambda>i. sort_key wd_createdAt (filter (\<lambda>d. wd_webhookID d = i) batch))
     (sorted_list_of_set (wd_webhookID ` set batch))"
  by (simp add: groups_spec group_of_def [abs_def])

text \<open>
  C9: a receiver sees its events in order. However the goroutines of a flush interleave with each other and with the rest
  of the system, the requests sent so far to one webhook are those of the oldest deliveries of its group, each once and in
  order of creation, signed with the secret of the webhook, and every one but the last was answered with success: after a
  failure nothing more is sent to this webhook.
\<close>

theorem webhook_order:
  assumes "flush_run E rc (dispatch_start c batch w) s"
  shows "(let tried = filter (\<lambda>a. wd_webhookID (fst a) = h) (dp_log s);
              group = sort_key wd_createdAt (filter (\<lambda>d. wd_webhookID d = h) batch)
          in map fst tried = take (length tried) group \<and> list_all snd (butlast tried)) \<and>
    list_all2 (\<lambda>c a. snd c = snd a \<and> (\<exists>t. fst c = webhook_call (en_sha256 E) (fst a) t))
       (drop (length (filter is_webhook_call (wcalls w))) (filter is_webhook_call (wcalls (dp_world s)))) (dp_log s)"
proof -
  from flush_run_inv [OF assms dispatch_start_inv] obtain r dropped where
    *: "map fst (attempts h (dp_log s)) @ r @ dropped = group_of batch h" "list_all snd (butlast (attempts h (dp_log s)))"
    by (rule dispatch_invE)
  from *(1) have "map fst (attempts h (dp_log s)) = take (length (attempts h (dp_log s))) (group_of batch h)"
    by (metis append_eq_conv_conj length_map)
  with *(2) flush_run_calls [OF assms] show ?thesis
    by (simp add: attempts_def group_of_def Let_def dispatch_start_def webhook_calls_def attempt_call_def [abs_def])
qed

theorem webhook_order_witness:
  "map (\<lambda>(d, ok). (wd_id d, ok)) (dp_log ex_flush) = [(3, True), (2, True), (4, False)] \<and>
   (let tried = filter (\<lambda>a. wd_webhookID (fst a) = ''w1'') (dp_log ex_flush);
        group = sort_key wd_createdAt (filter (\<lambda>d. wd_webhookID d = ''w1'') ex_batch)
    in map fst tried = take (length tried) group \<and> list_all snd (butlast tried))"
  using ex_flush_log webhook_order [OF ex_flush_run, THEN conjunct1] by blast

text \<open>
  C19: a flush ends and leaves nothing out. The goroutines can make only finitely many steps. When none can move any more
  and the context was not cancelled, every delivery of the batch was attempted, unless an earlier delivery to the same
  webhook failed; the worker always has at least one goroutine. So no flush holds up the loop \<^verbatim>\<open>Run\<close>: whatever ticks
  arrive, it goes on until its context ends and can then return.
\<close>

theorem webhook_flush_ends:
  "wf {(s', s). dispatch_step E rc s s'} \<and>
   (flush_run E rc (dispatch_start (webhook_NewWorker configured) batch w) s \<and> \<not> dp_stopped s \<and>
      (\<forall>s'. dispatch_step E rc s s' \<longrightarrow> dp_stopped s') \<longrightarrow>
    (let tried = filter (\<lambda>a. wd_webhookID (fst a) = h) (dp_log s)
     in map fst tried = sort_key wd_createdAt (filter (\<lambda>d. wd_webhookID d = h) batch) \<or> tried \<noteq> [] \<and> \<not> snd (last tried))) \<and>
   (\<exists>w'. webhook_Run E rc body (webhook_NewWorker configured) signals w (Cancelled \<in> set signals) w')"
proof (intro conjI impI webhook_Run_ends; (elim conjE)?)
  show "wf {(s', s). dispatch_step E rc s s'}"
    by (rule wf_subset [OF wf_measure [of dispatch_weight]]) (auto dest: dispatch_step_weight)
next
  assume run: "flush_run E rc (dispatch_start (webhook_NewWorker configured) batch w) s" and on: "\<not> dp_stopped s"
    and quiet: "\<forall>s'. dispatch_step E rc s s' \<longrightarrow> dp_stopped s'"
  have "0 < webhook_NewWorker configured" by (auto simp: webhook_NewWorker_def split: list.splits)
  moreover have "dispatch_size (webhook_NewWorker configured) (length (groupByWebhook batch)) s"
    by (rule flush_run_size [OF run]) (simp add: dispatch_size_def dispatch_start_def Let_def)
  ultimately have rest: "waiting_for h (mset (dp_queue s)) + waiting_for h (rests (dp_jobs s)) = {#}"
    using dispatch_done quiet on by blast
  from flush_run_inv [OF run dispatch_start_inv] obtain r dropped where
    *: "waiting_for h (mset (dp_queue s)) + waiting_for h (rests (dp_jobs s)) = one_list r"
       "map fst (attempts h (dp_log s)) @ r @ dropped = group_of batch h" "list_all snd (butlast (attempts h (dp_log s)))"
       "dropped \<noteq> [] \<longrightarrow> dp_stopped s \<or> \<not> list_all snd (attempts h (dp_log s))"
    by (rule dispatch_invE)
  from *(1) rest have "r = []" by (simp add: one_list_def split: if_splits)
  moreover have "\<not> list_all snd xs \<Longrightarrow> list_all snd (butlast xs) \<Longrightarrow> xs \<noteq> [] \<and> \<not> snd (last xs)" for xs :: "(delivery \<times> bool) list"
    by (cases xs rule: rev_cases) auto
  ultimately show "let tried = filter (\<lambda>a. wd_webhookID (fst a) = h) (dp_log s)
     in map fst tried = sort_key wd_createdAt (filter (\<lambda>d. wd_webhookID d = h) batch) \<or> tried \<noteq> [] \<and> \<not> snd (last tried)"
    using * on by (cases "dropped = []") (simp_all add: attempts_def group_of_def Let_def)
qed


theorem webhook_flush_ends_witness:
  "(let tried = filter (\<lambda>a. wd_webhookID (fst a) = ''w2'') (dp_log ex_flush)
    in map fst tried = sort_key wd_createdAt (filter (\<lambda>d. wd_webhookID d = ''w2'') ex_batch) \<or> tried \<noteq> [] \<and> \<not> snd (last tried))"
proof -
  have idle: "dp_queue ex_flush = []" "dp_jobs ex_flush = [Idle, Idle]" "\<not> dp_stopped ex_flush" using ex_flush_log by blast+
  have "dp_stopped s'" if "dispatch_step ex_flat_env ex_receivers ex_flush s'" for s'
    using that by cases (auto simp: idle less_Suc_eq)
  with ex_flush_run idle(3) show ?thesis using webhook_flush_ends [THEN conjunct2, THEN conjunct1, rule_format] by blast
qed

text \<open>
  C20: what becomes of a delivery. While the database answers, an attempt counts on the row of its delivery and touches no other row: success makes it
  delivered; a failure leaves it pending, to be tried again after a pause that grows from 10 seconds to 2560 seconds with
  the number of attempts, and the eighth failure makes it dead.
\<close>

theorem webhook_outcome:
  assumes "webhook_deliver E rc d w = (Inr ok, w')" and "\<not> en_down E (pg_tick (wstore w))"
    and "now = pg_time (en_clock E (pg_tick (wstore w)))"
  shows "list_all2 (\<lambda>r r'. if dl_id r \<noteq> wd_id d then r' = r
      else dl_id r' = dl_id r \<and> dl_payload r' = dl_payload r \<and> dl_attempt_count r' = dl_attempt_count r + 1 \<and>
        (if ok then dl_status r' = ''delivered''
         else dl_status r' = (if wd_attempts d < 7 then ''pending'' else ''dead'') \<and>
           dl_next_attempt_at r' = now + 10 * second_ns * 2 ^ nat (min (dl_attempt_count r) 8) \<and>
           now + 10 * second_ns \<le> dl_next_attempt_at r' \<and> dl_next_attempt_at r' \<le> now + 2560 * second_ns))
    (db_deliveries (pg_db (wstore w))) (db_deliveries (pg_db (wstore w')))"
proof -
  obtain r u where send: "webhook_send E rc d w = (r, u)" by force
  then have up: "wstore u = wstore w" using webhook_sendD by blast
  let ?f = "case r of Inr _ \<Rightarrow> delivered_row now | Inl e \<Rightarrow> failed_row now (if wd_attempts d + 1 \<ge> 8 then ''dead'' else ''pending'') (err_text e)"
  have ok: "ok = (\<not> isl r)" and w': "w' = u\<lparr>wstore := snd (webhook_mark E d r (wstore u))\<rparr>"
    using assms(1) send
    by (auto simp: webhook_deliver_def io_bind_def io_try_def io_ignore_def io_return_def on_store_def split: prod.splits)
  have rows: "db_deliveries (pg_db (wstore w')) = map (\<lambda>r. if dl_id r = wd_id d then ?f r else r) (db_deliveries (pg_db (wstore w)))"
    unfolding w' by (cases r) (simp_all add: up webhook_mark_def db_call_def assms(2,3) Let_def sql_update_def)
  show ?thesis unfolding rows
    by (auto simp: list.rel_map ok delivered_row_def failed_row_def backoff_value doubled_bounds split: sum.split intro!: list.rel_refl)
qed

theorem webhook_outcome_witness:
  "\<exists>w'. webhook_deliver ex_flat_env (\<lambda>h q. Inl (ErrOther ''refused'')) (ex_delivery 4 ''w1'' 20) ex_webhook_world = (Inr False, w') \<and>
     map dl_status (db_deliveries (pg_db (wstore w'))) = [''dead'']"
proof -
  obtain w' where d: "webhook_deliver ex_flat_env (\<lambda>h q. Inl (ErrOther ''refused'')) (ex_delivery 4 ''w1'' 20) ex_webhook_world = (Inr False, w')"
    by (simp add: webhook_deliver_def webhook_send_eq Let_def webhook_answer_def io_bind_def io_try_def io_ignore_def io_return_def)
  have up: "\<not> en_down ex_flat_env (pg_tick (wstore ex_webhook_world))" by simp
  have rows: "db_deliveries (pg_db (wstore ex_webhook_world)) = [ex_delivery_row]"
    and same: "dl_id ex_delivery_row = wd_id (ex_delivery 4 ''w1'' 20)" "\<not> wd_attempts (ex_delivery 4 ''w1'' 20) < 7"
    by (simp_all add: ex_webhook_world_def ex_delivery_row_def ex_delivery_def)
  from webhook_outcome [OF d up refl, unfolded rows list_all2_Cons1 list.rel_sel [of _ "[]"]] obtain r' where
    "db_deliveries (pg_db (wstore w')) = [r']" "dl_status r' = ''dead''"
    by (elim exE conjE) (rule that, simp only: same simp_thms if_True if_False, simp only: same simp_thms if_True if_False list_all2_Nil)
  with d show ?thesis by auto
qed

end
