(* ===== verification/Api_Json.thy ===== *)
theory Api_Json
  imports Wire
begin

text \<open>
  The JSON forms of what the HTTP interface answers, by the tags of \<^verbatim>\<open>core/model.go\<close>. The JSON form of a time is a
  parameter; a nil map is the empty object.
\<close>

definition omit_none :: "(time \<Rightarrow> json) \<Rightarrow> string \<Rightarrow> time option \<Rightarrow> jmap" where
  "omit_none jt k v = (case v of None \<Rightarrow> [] | Some t \<Rightarrow> [(k, jt t)])"

definition json_payment :: "(time \<Rightarrow> json) \<Rightarrow> payment \<Rightarrow> json" where
  "json_payment jt p = JObj (
     [(''transactionId'', JStr (pay_TransactionID p)), (''externalId'', JStr (pay_ExternalID p)),
      (''status'', JStr (pay_Status p)), (''amount'', JStr (pay_Amount p)), (''currency'', JStr (pay_Currency p)),
      (''paymentMethod'', JStr (pay_PaymentMethod p))] @
     omit_empty ''description'' (pay_Description p) @
     [(''creationDate'', jt (pay_CreationDate p)), (''expirationDate'', jt (pay_ExpirationDate p)),
      (''actionUrl'', JStr (pay_ActionURL p))] @
     omit_empty_map ''customer'' (pay_Customer p) @ omit_empty_map ''metadata'' (pay_Metadata p) @
     [(''paymentData'', JObj (pay_PaymentData p))])"

definition json_payment_page :: "(time \<Rightarrow> json) \<Rightarrow> payment_page \<Rightarrow> json" where
  "json_payment_page jt p = JObj ([(''data'', JArr (map (json_payment jt) (pp_Data p))), (''hasMore'', JBool (pp_HasMore p))] @
     omit_empty ''nextCursor'' (pp_NextCursor p))"

definition json_refund :: "(time \<Rightarrow> json) \<Rightarrow> refund \<Rightarrow> json" where
  "json_refund jt r = JObj (
     [(''refundId'', JStr (rf_RefundID r)), (''transactionId'', JStr (rf_TransactionID r)), (''externalId'', JStr (rf_ExternalID r)),
      (''status'', JStr (rf_Status r)), (''amount'', JStr (rf_Amount r)), (''currency'', JStr (rf_Currency r))] @
     omit_empty ''reason'' (rf_Reason r) @ [(''creationDate'', jt (rf_CreationDate r))] @
     omit_none jt ''completionDate'' (rf_CompletionDate r) @ omit_empty ''providerReference'' (rf_ProviderReference r) @
     omit_empty_map ''failure'' (rf_Failure r) @ omit_empty_map ''metadata'' (rf_Metadata r))"

definition json_refund_list :: "(time \<Rightarrow> json) \<Rightarrow> refund list \<Rightarrow> json" where
  "json_refund_list jt rs = JObj [(''data'', JArr (map (json_refund jt) rs))]"

definition json_payout :: "(time \<Rightarrow> json) \<Rightarrow> payout \<Rightarrow> json" where
  "json_payout jt p = JObj (
     [(''payoutId'', JStr (po_PayoutID p)), (''externalId'', JStr (po_ExternalID p)), (''source'', json_money (po_Source p)),
      (''destination'', json_destination (po_Destination p))] @
     omit_empty_map ''pricing'' (po_Pricing p) @ omit_empty_map ''remitter'' (po_Remitter p) @
     omit_empty ''description'' (po_Description p) @ [(''status'', JStr (po_Status p))] @
     omit_empty ''bankSystemTrxId'' (po_BankSystemTrxID p) @ [(''creationDate'', jt (po_CreationDate p))] @
     omit_none jt ''confirmationDate'' (po_ConfirmationDate p) @ omit_none jt ''failureDate'' (po_FailureDate p) @
     omit_none jt ''cancellationDate'' (po_CancellationDate p) @ omit_none jt ''reversalDate'' (po_ReversalDate p) @
     omit_empty_map ''failure'' (po_Failure p) @ omit_empty_map ''metadata'' (po_Metadata p))"

definition json_payout_page :: "(time \<Rightarrow> json) \<Rightarrow> payout_page \<Rightarrow> json" where
  "json_payout_page jt p = JObj ([(''data'', JArr (map (json_payout jt) (pop_Data p))), (''hasMore'', JBool (pop_HasMore p))] @
     omit_empty ''nextCursor'' (pop_NextCursor p))"

definition json_event_result :: "event_result \<Rightarrow> json" where
  "json_event_result r = JObj ([(''duplicate'', JBool (er_Duplicate r)), (''changed'', JBool (er_Changed r))] @
     omit_empty ''status'' (er_Status r))"

text \<open>An object of the answer, its fields by name.\<close>

definition json_field :: "json \<Rightarrow> string \<Rightarrow> json option" where
  "json_field j k = (case j of JObj m \<Rightarrow> mget m k | _ \<Rightarrow> None)"

end
