(* ===== verification/Metrics.thy ===== *)
theory Metrics
  imports Wire Pg_Tables
begin

text \<open>
  \<^verbatim>\<open>internal/observability/metrics.go\<close>: request counters, duration histograms and gauges, and the text in which they
  are exposed; the collector of the gauges in \<^verbatim>\<open>cmd/dinapay-v2/main.go\<close>. Every operation holds the lock, so it is one
  step. Counters are \<^verbatim>\<open>uint64\<close>. Floating-point numbers are a parameter (\<open>floats\<close>): the sum and the gauges are values of an
  abstract type; a duration is compared with a bucket's limit in nanoseconds, which decides like the rounded seconds
  because the limits have at most three decimals.
\<close>

section \<open>State\<close>

record 'f floats =
  fl_zero :: 'f
  fl_add :: "'f \<Rightarrow> 'f \<Rightarrow> 'f"
  fl_seconds :: "time \<Rightarrow> 'f"
  fl_count :: "nat \<Rightarrow> 'f"
  fl_show :: "'f \<Rightarrow> string"

record 'f histogram =
  hg_count :: int64
  hg_sum :: 'f
  hg_buckets :: "int64 list"

record 'f metrics =
  mx_requests :: "((string \<times> string \<times> string) \<times> int64) list"
  mx_durations :: "((string \<times> string) \<times> 'f histogram) list"
  mx_gauges :: "'f gomap"

definition no_metrics :: "'f metrics" where
  "no_metrics = \<lparr>mx_requests = [], mx_durations = [], mx_gauges = []\<rparr>"

definition bucket_limits :: "time list" where
  "bucket_limits = [5000000, 10000000, 25000000, 50000000, 100000000, 250000000, 500000000, 1000000000, 2500000000,
     5000000000, 10000000000]"

definition bucket_labels :: "string list" where
  "bucket_labels = [''0.005'', ''0.01'', ''0.025'', ''0.05'', ''0.1'', ''0.25'', ''0.5'', ''1'', ''2.5'', ''5'', ''10'']"

section \<open>Operations\<close>

definition SetPersistent :: "'f \<Rightarrow> 'f \<Rightarrow> 'f \<Rightarrow> 'f \<Rightarrow> 'f \<Rightarrow> 'f \<Rightarrow> 'f metrics \<Rightarrow> 'f metrics" where
  "SetPersistent webhooks webhookAge ledger ledgerAge unknownPayouts unknownPayoutAge m = m\<lparr>mx_gauges :=
     mput ''dinapay_payout_provider_unknown_oldest_seconds'' unknownPayoutAge
     (mput ''dinapay_payout_provider_unknown'' unknownPayouts
     (mput ''dinapay_ledger_outbox_oldest_seconds'' ledgerAge
     (mput ''dinapay_ledger_outbox_pending'' ledger
     (mput ''dinapay_webhook_outbox_oldest_seconds'' webhookAge
     (mput ''dinapay_webhook_outbox_pending'' webhooks (mx_gauges m))))))\<rparr>"

text \<open>Go's division truncates.\<close>

definition status_class :: "int \<Rightarrow> string" where
  "status_class status = decimal_int (if status < 0 then - (- status div 100) else status div 100) @ ''xx''"

definition route_label :: "string \<Rightarrow> string" where
  "route_label route = (if route = '''' then ''unmatched'' else route)"

definition map_or :: "'v \<Rightarrow> ('k \<times> 'v) list \<Rightarrow> 'k \<Rightarrow> 'v" where
  "map_or d m k = (case map_of m k of None \<Rightarrow> d | Some v \<Rightarrow> v)"

definition no_histogram :: "'f floats \<Rightarrow> 'f histogram" where
  "no_histogram fl = \<lparr>hg_count = 0, hg_sum = fl_zero fl, hg_buckets = map (\<lambda>_. 0) bucket_limits\<rparr>"

definition observe_duration :: "'f floats \<Rightarrow> time \<Rightarrow> 'f histogram \<Rightarrow> 'f histogram" where
  "observe_duration fl elapsed h = \<lparr>hg_count = hg_count h + 1, hg_sum = fl_add fl (hg_sum h) (fl_seconds fl elapsed),
     hg_buckets = map2 (\<lambda>limit n. if elapsed \<le> limit then n + 1 else n) bucket_limits (hg_buckets h)\<rparr>"

definition ObserveHTTP :: "'f floats \<Rightarrow> string \<Rightarrow> string \<Rightarrow> int \<Rightarrow> time \<Rightarrow> 'f metrics \<Rightarrow> 'f metrics" where
  "ObserveHTTP fl method route status elapsed m =
     (let rkey = (method, route_label route, status_class status); dkey = (method, route_label route)
      in m\<lparr>mx_requests := AList.update rkey (map_or 0 (mx_requests m) rkey + 1) (mx_requests m),
           mx_durations := AList.update dkey (observe_duration fl elapsed (map_or (no_histogram fl) (mx_durations m) dkey))
             (mx_durations m)\<rparr>)"

section \<open>The exposition\<close>

fun strings_join :: "string \<Rightarrow> string list \<Rightarrow> string" where
  "strings_join sep [] = ''''"
| "strings_join sep [x] = x"
| "strings_join sep (x # y # rest) = x @ sep @ strings_join sep (y # rest)"

definition label :: "string \<Rightarrow> string \<Rightarrow> string" where
  "label k v = k @ ''='' @ go_quote v"

definition series :: "string \<Rightarrow> string list \<Rightarrow> string \<Rightarrow> string" where
  "series name labels v = name @ ''{'' @ strings_join '','' (label ''service'' ''dinapay-v2'' # labels) @ ''} '' @ v"

definition show_uint :: "int64 \<Rightarrow> string" where
  "show_uint n = decimal (unat n)"

definition request_line :: "(string \<times> string \<times> string) \<times> int64 \<Rightarrow> string" where
  "request_line = (\<lambda>((method, route, status), n). series ''dinapay_http_requests_total''
     [label ''method'' method, label ''route'' route, label ''status_class'' status] (show_uint n))"

definition duration_lines :: "'f floats \<Rightarrow> (string \<times> string) \<times> 'f histogram \<Rightarrow> string list" where
  "duration_lines fl = (\<lambda>((method, route), h).
     let ls = [label ''method'' method, label ''route'' route] in
     map2 (\<lambda>l n. series ''dinapay_http_request_duration_seconds_bucket'' (ls @ [label ''le'' l]) (show_uint n)) bucket_labels (hg_buckets h) @
     [series ''dinapay_http_request_duration_seconds_bucket'' (ls @ [label ''le'' ''+Inf'']) (show_uint (hg_count h)),
      series ''dinapay_http_request_duration_seconds_sum'' ls (fl_show fl (hg_sum h)),
      series ''dinapay_http_request_duration_seconds_count'' ls (show_uint (hg_count h))])"

definition metrics_lines :: "'f floats \<Rightarrow> 'f metrics \<Rightarrow> string list" where
  "metrics_lines fl m = sort (map request_line (mx_requests m) @ concat (map (duration_lines fl) (mx_durations m)) @
     map (\<lambda>(name, v). name @ '' '' @ fl_show fl v) (mx_gauges m))"

definition newline :: string where
  "newline = [CHR 0x0A]"

definition metrics_text :: "'f floats \<Rightarrow> 'f metrics \<Rightarrow> string" where
  "metrics_text fl m = strings_join newline (metrics_lines fl m) @ newline"

section \<open>The collector\<close>

text \<open>\<^verbatim>\<open>count(*)\<close> and the age of the oldest row, 0 without rows.\<close>

definition count_and_age :: "'f floats \<Rightarrow> time \<Rightarrow> time list \<Rightarrow> 'f \<times> 'f" where
  "count_and_age fl now ts = (fl_count fl (length ts), fl_seconds fl (case ts of [] \<Rightarrow> 0 | t # ts \<Rightarrow> now - fold min ts t))"

definition gauge_query :: "pg_env \<Rightarrow> 'f floats \<Rightarrow> (pgdb \<Rightarrow> time list) \<Rightarrow> (pgstate, 'f \<times> 'f) go_io" where
  "gauge_query E fl rows = db_call E (\<lambda>now db. Inr (count_and_age fl now (rows db), db))"

definition pending_webhooks :: "pgdb \<Rightarrow> time list" where
  "pending_webhooks db = map dl_created_at (filter (\<lambda>d. dl_status d = ''pending'') (db_deliveries db))"

definition unsent_credits :: "pgdb \<Rightarrow> time list" where
  "unsent_credits db = map ob_created_at (filter (\<lambda>b. \<not> ob_sent b) (db_balance_outbox db))"

definition unknown_payouts :: "pgdb \<Rightarrow> time list" where
  "unknown_payouts db = map pu_creation_date (filter (\<lambda>p. pu_status p = ''provider_unknown'') (db_payouts db))"

text \<open>One round of \<^verbatim>\<open>collectMetrics\<close>: the gauges change only when all three queries succeed.\<close>

definition collectMetrics :: "pg_env \<Rightarrow> 'f floats \<Rightarrow> 'f metrics \<Rightarrow> pgstate \<Rightarrow> 'f metrics \<times> pgstate" where
  "collectMetrics E fl m s =
     (case io_bind (gauge_query E fl pending_webhooks) (\<lambda>(webhooks, webhookAge).
           io_bind (gauge_query E fl unsent_credits) (\<lambda>(ledger, ledgerAge).
           io_bind (gauge_query E fl unknown_payouts) (\<lambda>(unknown, unknownAge).
           io_return (SetPersistent webhooks webhookAge ledger ledgerAge unknown unknownAge m)))) s of
        (Inl _, s') \<Rightarrow> (m, s')
      | (Inr m', s') \<Rightarrow> (m', s'))"

definition metrics_Run :: "pg_env \<Rightarrow> 'f floats \<Rightarrow> ('f metrics \<times> pgstate) signal list \<Rightarrow> ('f metrics \<times> pgstate, bool) go_io" where
  "metrics_Run E fl = ticker_loop (\<lambda>(m, s). (Inr (), collectMetrics E fl m s))"

section \<open>Lemmas\<close>

type_synonym observation = "string \<times> string \<times> int \<times> time"

definition observe :: "'f floats \<Rightarrow> observation \<Rightarrow> 'f metrics \<Rightarrow> 'f metrics" where
  "observe fl = (\<lambda>(method, route, status, elapsed). ObserveHTTP fl method route status elapsed)"

definition duration_key :: "observation \<Rightarrow> string \<times> string" where
  "duration_key = (\<lambda>(method, route, status, elapsed). (method, route_label route))"

definition request_key :: "observation \<Rightarrow> string \<times> string \<times> string" where
  "request_key = (\<lambda>(method, route, status, elapsed). (method, route_label route, status_class status))"

definition took :: "observation \<Rightarrow> time" where
  "took = (\<lambda>(method, route, status, elapsed). elapsed)"

lemma observe_unfold: "observe fl e m = m\<lparr>
   mx_requests := AList.update (request_key e) (map_or 0 (mx_requests m) (request_key e) + 1) (mx_requests m),
   mx_durations := AList.update (duration_key e) (observe_duration fl (took e) (map_or (no_histogram fl) (mx_durations m) (duration_key e)))
     (mx_durations m)\<rparr>"
  by (cases e) (simp add: observe_def ObserveHTTP_def request_key_def duration_key_def took_def Let_def)

definition matching :: "(observation \<Rightarrow> bool) \<Rightarrow> observation list \<Rightarrow> int64" where
  "matching P es = of_nat (length (filter P es))"

lemma matching_simps [simp]:
  "matching P [] = 0" "matching P (es @ [e]) = (if P e then matching P es + 1 else matching P es)"
  by (simp_all add: matching_def)

text \<open>What the histogram of a key holds after the observations \<open>es\<close>, the latest last.\<close>

definition observed :: "(string \<times> string) \<Rightarrow> observation list \<Rightarrow> 'f histogram \<Rightarrow> bool" where
  "observed k es h \<longleftrightarrow> hg_count h = matching (\<lambda>e. duration_key e = k) es \<and>
     hg_buckets h = map (\<lambda>limit. matching (\<lambda>e. duration_key e = k \<and> took e \<le> limit) es) bucket_limits"

lemma observed_nothing: "\<forall>e \<in> set es. duration_key e \<noteq> k \<Longrightarrow> observed k es (no_histogram fl)"
proof -
  assume none: "\<forall>e \<in> set es. duration_key e \<noteq> k"
  then have "filter (\<lambda>e. duration_key e = k) es = []" "\<And>l. filter (\<lambda>e. duration_key e = k \<and> took e \<le> l) es = []"
    by (auto simp: filter_empty_conv)
  then show ?thesis by (simp add: observed_def no_histogram_def matching_def)
qed

lemma observed_again:
  "observed k es h \<Longrightarrow> duration_key e = k \<Longrightarrow> observed k (es @ [e]) (observe_duration fl (took e) h)"
  by (simp add: observed_def observe_duration_def map2_map_map [symmetric] zip_map2 comp_def case_prod_beta)
    (simp add: bucket_limits_def)

lemma observed_other: "observed k es h \<Longrightarrow> duration_key e \<noteq> k \<Longrightarrow> observed k (es @ [e]) h"
  by (simp add: observed_def)

lemma observations_recorded:
  fixes fl :: "'f floats"
  defines "m es \<equiv> fold (observe fl) es (no_metrics :: 'f metrics)"
  shows "map_or 0 (mx_requests (m es)) r = matching (\<lambda>e. request_key e = r) es"
    and "map_of (mx_durations (m es)) k = Some h \<Longrightarrow> observed k es h"
    and "map_of (mx_durations (m es)) k = None \<longleftrightarrow> (\<forall>e \<in> set es. duration_key e \<noteq> k)"
proof -
  have step: "m (es @ [e]) = observe fl e (m es)" for e es by (simp add: m_def)
  show "map_or 0 (mx_requests (m es)) r = matching (\<lambda>e. request_key e = r) es"
    by (induction es rule: rev_induct)
      (auto simp: step observe_unfold map_or_def update_conv' m_def [of "[]"] no_metrics_def)
  have "(case map_of (mx_durations (m es)) k of None \<Rightarrow> \<forall>e \<in> set es. duration_key e \<noteq> k
      | Some h \<Rightarrow> observed k es h \<and> (\<exists>e \<in> set es. duration_key e = k))"
  proof (induction es rule: rev_induct)
    case (snoc e es)
    show ?case
    proof (cases "duration_key e = k")
      case True
      have "observed k es (map_or (no_histogram fl) (mx_durations (m es)) k)"
        using snoc by (cases "map_of (mx_durations (m es)) k") (simp_all add: map_or_def observed_nothing)
      from observed_again [OF this True] True show ?thesis by (simp add: step observe_unfold update_conv')
    next
      case False
      with snoc show ?thesis by (auto simp: step observe_unfold update_conv' observed_other split: option.splits)
    qed
  qed (simp add: m_def no_metrics_def)
  then show "map_of (mx_durations (m es)) k = Some h \<Longrightarrow> observed k es h"
    and "map_of (mx_durations (m es)) k = None \<longleftrightarrow> (\<forall>e \<in> set es. duration_key e \<noteq> k)"
    by (auto split: option.splits)
qed

section \<open>Properties\<close>

text \<open>
  C33: the metrics count. After any sequence of fewer than 2^64 observed requests, each counter is the number of requests
  of its method, route and class of status; a histogram counts the requests of its method and route, its bucket with limit
  l those that took at most l; so the buckets grow with the limit, up to the count.
\<close>

theorem metrics_count:
  assumes "length es < 2 ^ 64" and "m = fold (observe fl) es no_metrics"
  shows "unat (map_or 0 (mx_requests m) r) = length (filter (\<lambda>e. request_key e = r) es) \<and>
    (case map_of (mx_durations m) k of
       None \<Rightarrow> \<forall>e \<in> set es. duration_key e \<noteq> k
     | Some h \<Rightarrow> unat (hg_count h) = length (filter (\<lambda>e. duration_key e = k) es) \<and>
         map unat (hg_buckets h) = map (\<lambda>l. length (filter (\<lambda>e. duration_key e = k \<and> took e \<le> l) es)) bucket_limits \<and>
         sorted (map unat (hg_buckets h) @ [unat (hg_count h)]))"
proof -
  have small: "unat (matching P es) = length (filter P es)" for P
    using le_less_trans [OF length_filter_le assms(1), of P] by (simp add: matching_def unat_of_nat)
  have more: "length (filter P es) \<le> length (filter Q es)" if "\<And>e. P e \<Longrightarrow> Q e" for P Q
    using that by (induction es) (auto simp: le_SucI)
  note rec = observations_recorded [of fl es, folded assms(2)]
  have requests: "unat (map_or 0 (mx_requests m) r) = length (filter (\<lambda>e. request_key e = r) es)"
    by (simp only: rec(1) small)
  show ?thesis
  proof (cases "map_of (mx_durations m) k")
    case None
    with rec(3) have "\<forall>e \<in> set es. duration_key e \<noteq> k" by (rule iffD1)
    with None requests show ?thesis by simp
  next
    case (Some h)
    with rec(2) have h: "observed k es h" .
    then have "sorted (map unat (hg_buckets h) @ [unat (hg_count h)])"
      by (auto simp: observed_def small sorted_append bucket_limits_def intro!: more)
    with Some h requests show ?thesis by (simp add: observed_def small comp_def)
  qed
qed

definition ex_floats :: "int floats" where
  "ex_floats = \<lparr>fl_zero = 0, fl_add = (+), fl_seconds = id, fl_count = int, fl_show = decimal_int\<rparr>"

theorem metrics_count_witness:
  "\<exists>h. map_of (mx_durations (fold (observe ex_floats) [(''GET'', ''/a'', 200, 7000000), (''GET'', ''/a'', 503, 600000000)] no_metrics))
      (''GET'', ''/a'') = Some h \<and> map unat (hg_buckets h) = [0, 1, 1, 1, 1, 1, 1, 2, 2, 2, 2]"
proof -
  let ?es = "[(''GET'', ''/a'', 200, 7000000), (''GET'', ''/a'', 503, 600000000)]"
  from metrics_count [of ?es _ ex_floats "(''GET'', ''/a'', ''2xx'')" "(''GET'', ''/a'')", OF _ refl]
  show ?thesis
    by (auto simp: duration_key_def route_label_def took_def bucket_limits_def split: option.splits)
qed

end
