(* ===== verification/Http_Api.thy ===== *)
theory Http_Api
  imports Api_Json Metrics Payments_App Refunds_App Events_App
begin

text \<open>
  \<^verbatim>\<open>internal/transport/httpapi/server.go\<close>: the routes, the handlers and the middleware. A handler takes the response writer
  and returns it written; it fails only when it panics, and then the connection is closed without an answer. The decoders of
  the request bodies are parameters; so are the random bytes and the clock of a request. A path is the list of its decoded
  segments: \<^verbatim>\<open>http.ServeMux\<close> redirects a path that is not clean before it looks for a route.
\<close>

section \<open>Requests and the response writer\<close>

record api_request =
  ar_Method :: string
  ar_Path :: "string list"
  ar_Header :: "string gomap"
  ar_Query :: "string gomap"
  ar_Body :: string

datatype body = BodyJSON json | BodyText string

text \<open>\<^verbatim>\<open>wr_status\<close> and \<^verbatim>\<open>wr_wroteHeader\<close> are those of \<^verbatim>\<open>statusWriter\<close>; \<open>wr_sent\<close> is the status on the wire.\<close>

record writer =
  wr_Header :: "string gomap"
  wr_status :: int
  wr_wroteHeader :: bool
  wr_sent :: "int option"
  wr_Body :: "body list"

definition set_header :: "string \<Rightarrow> string \<Rightarrow> writer \<Rightarrow> writer" where
  "set_header k v w = w\<lparr>wr_Header := mput k v (wr_Header w)\<rparr>"

definition WriteHeader :: "int \<Rightarrow> writer \<Rightarrow> writer" where
  "WriteHeader status w =
     (if wr_wroteHeader w then w
      else w\<lparr>wr_wroteHeader := True, wr_status := status,
        wr_sent := (case wr_sent w of None \<Rightarrow> Some status | Some st \<Rightarrow> Some st)\<rparr>)"

text \<open>The embedded \<^verbatim>\<open>Write\<close> sends status 200 if none was sent.\<close>

definition write_body :: "body \<Rightarrow> writer \<Rightarrow> writer" where
  "write_body b w = w\<lparr>wr_sent := (case wr_sent w of None \<Rightarrow> Some 200 | Some st \<Rightarrow> Some st), wr_Body := wr_Body w @ [b]\<rparr>"

definition writeJSON :: "writer \<Rightarrow> int \<Rightarrow> json \<Rightarrow> writer" where
  "writeJSON w status v = write_body (BodyJSON v) (WriteHeader status (set_header ''Content-Type'' ''application/json'' w))"

definition writeError :: "writer \<Rightarrow> int \<Rightarrow> string \<Rightarrow> string \<Rightarrow> writer" where
  "writeError w status code message = writeJSON w status (JObj [(''code'', JStr code), (''message'', JStr message),
     (''requestId'', JStr (header (wr_Header w) ''X-Request-Id''))])"

definition mapError :: "writer \<Rightarrow> go_error \<Rightarrow> writer" where
  "mapError w err =
     (if errors_is err ErrInvalid then writeError w 400 ''invalid_request'' (err_text err)
      else if errors_is err ErrUnauthorized then writeError w 403 ''forbidden'' (err_text err)
      else if errors_is err ErrNotFound then writeError w 404 ''not_found'' (err_text err)
      else if errors_is err ErrConflict then writeError w 409 ''idempotency_conflict'' (err_text err)
      else if errors_is err ErrInProgress then writeError w 409 ''operation_in_progress'' (err_text err)
      else if errors_is err ErrUnsupported then writeError w 422 ''refund_not_supported'' (err_text err)
      else writeError w 503 ''dependency_unavailable'' (err_text err))"

text \<open>\<^verbatim>\<open>http.Error\<close>, for the answers of the multiplexer and \<^verbatim>\<open>http.NotFound\<close>.\<close>

definition http_error :: "string \<Rightarrow> int \<Rightarrow> writer \<Rightarrow> writer" where
  "http_error msg status w = write_body (BodyText (msg @ newline)) (WriteHeader status
     (set_header ''X-Content-Type-Options'' ''nosniff'' (set_header ''Content-Type'' ''text/plain; charset=utf-8'' w)))"

definition http_NotFound :: "writer \<Rightarrow> writer" where
  "http_NotFound w = http_error ''404 page not found'' 404 w"

section \<open>The server\<close>

text \<open>
  A service that calls other services gets the request's context, from which the clients take the identifiers they send
  on. \<open>payouts\<close> is nil without a payout store.
\<close>

record 's server =
  sx_payments :: "go_context \<Rightarrow> 's payments"
  sx_refunds :: "go_context \<Rightarrow> 's refunds"
  sx_payouts :: "(go_context \<Rightarrow> 's payouts) option"
  sx_events :: "'s provider_events"
  sx_auth :: "'s authenticator"
  sx_serviceToken :: string

definition http_New ::
  "(go_context \<Rightarrow> 's payments) \<Rightarrow> (go_context \<Rightarrow> 's refunds) \<Rightarrow> (go_context \<Rightarrow> 's payouts) option \<Rightarrow> 's provider_events \<Rightarrow>
   's authenticator \<Rightarrow> string \<Rightarrow> 's server" where
  "http_New payments refunds payouts events auth serviceToken = \<lparr>sx_payments = payments, sx_refunds = refunds,
     sx_payouts = payouts, sx_events = events, sx_auth = auth, sx_serviceToken = serviceToken\<rparr>"

record create_request =
  cq_MerchantID :: string
  cq_ExternalID :: string
  cq_Amount :: string
  cq_Currency :: string
  cq_PaymentMethod :: string
  cq_Rail :: string
  cq_DestinationMode :: string
  cq_Description :: string
  cq_Customer :: jmap
  cq_SuccessURL :: string
  cq_CancelURL :: string
  cq_ExpirationDate :: time
  cq_Metadata :: jmap

text \<open>
  \<^verbatim>\<open>http.MaxBytesReader\<close>: the bytes that can be read, and whether the reader fails after them. A decoder
  (\<^verbatim>\<open>json.Decoder\<close> that refuses unknown fields) reads one value from it.
\<close>

type_synonym 'a decoder = "string \<times> bool \<Rightarrow> go_error + 'a"

record api_codec =
  ax_payment :: "create_request decoder"
  ax_refund :: "create_refund decoder"
  ax_payout :: "create_payout decoder"
  ax_event :: "provider_event decoder"
  ax_time :: "time \<Rightarrow> json"

definition limited_body :: "api_request \<Rightarrow> string \<times> bool" where
  "limited_body r = (take (2 ^ 20) (ar_Body r), length (ar_Body r) > 2 ^ 20)"

definition bearer :: "api_request \<Rightarrow> string" where
  "bearer r = trim_prefix (header (ar_Header r) ''Authorization'') ''Bearer ''"

section \<open>What the handlers share\<close>

text \<open>\<^verbatim>\<open>principal\<close>: the credentials and the scope of the caller, before anything else.\<close>

definition with_principal ::
  "'s server \<Rightarrow> writer \<Rightarrow> api_request \<Rightarrow> string \<Rightarrow> (principal \<Rightarrow> ('s world, writer) go_io) \<Rightarrow> ('s world, writer) go_io" where
  "with_principal sv w r requiredScope k =
     io_bind (io_try (on_store (au_Authenticate (sx_auth sv) (bearer r)))) (\<lambda>res. case res of
       Inl _ \<Rightarrow> io_return (writeError w 401 ''unauthorized'' ''invalid credentials'')
     | Inr p \<Rightarrow>
         if pr_Scopes p \<noteq> [] \<and> requiredScope \<notin> set (pr_Scopes p)
         then io_return (writeError w 403 ''forbidden'' ''API key does not grant the required scope'')
         else k p)"

definition with_body :: "writer \<Rightarrow> 'a decoder \<Rightarrow> api_request \<Rightarrow> ('a \<Rightarrow> ('s world, writer) go_io) \<Rightarrow> ('s world, writer) go_io" where
  "with_body w decode r k =
     (case decode (limited_body r) of
        Inl e \<Rightarrow> io_return (writeError w 400 ''invalid_request'' (err_text e))
      | Inr x \<Rightarrow> k x)"

text \<open>The answer to a call of a service; a panic takes the handler down.\<close>

definition answer :: "writer \<Rightarrow> ('s world, 'a) go_io \<Rightarrow> ('a \<Rightarrow> writer) \<Rightarrow> ('s world, writer) go_io" where
  "answer w m f = io_bind (io_try m) (\<lambda>res. case res of
       Inl e \<Rightarrow> if e = Panic then io_fail Panic else io_return (mapError w e)
     | Inr x \<Rightarrow> io_return (f x))"

definition query :: "api_request \<Rightarrow> string \<Rightarrow> string" where
  "query r k = header (ar_Query r) k"

definition query_limit :: "api_request \<Rightarrow> int option" where
  "query_limit r =
     (if query r ''limit'' = '''' then Some 50
      else case go_atoi (query r ''limit'') of
        None \<Rightarrow> None
      | Some n \<Rightarrow> if n < 1 \<or> n > 100 then None else Some n)"

definition with_limit :: "writer \<Rightarrow> api_request \<Rightarrow> (int \<Rightarrow> ('s world, writer) go_io) \<Rightarrow> ('s world, writer) go_io" where
  "with_limit w r k =
     (case query_limit r of
        None \<Rightarrow> io_return (writeError w 400 ''invalid_request'' ''limit must be between 1 and 100'')
      | Some n \<Rightarrow> k n)"

definition with_payouts ::
  "'s server \<Rightarrow> writer \<Rightarrow> ((go_context \<Rightarrow> 's payouts) \<Rightarrow> ('s world, writer) go_io) \<Rightarrow> ('s world, writer) go_io" where
  "with_payouts sv w k =
     (case sx_payouts sv of
        None \<Rightarrow> io_return (writeError w 422 ''payout_not_supported'' ''payouts are not configured'')
      | Some y \<Rightarrow> k y)"

text \<open>201 for a new refund or payout, 200 and a header for a replay.\<close>

definition created :: "writer \<Rightarrow> bool \<Rightarrow> json \<Rightarrow> writer" where
  "created w replayed v =
     (if replayed then writeJSON (set_header ''Idempotent-Replayed'' ''true'' w) 200 v else writeJSON w 201 v)"

section \<open>The handlers\<close>

definition payment_of_request :: "principal \<Rightarrow> create_request \<Rightarrow> create_payment" where
  "payment_of_request p req = \<lparr>cp_MerchantID = cq_MerchantID req, cp_AccountID = pr_AccountID p, cp_ExternalID = cq_ExternalID req,
     cp_Amount = cq_Amount req, cp_Currency = cq_Currency req, cp_PaymentMethod = cq_PaymentMethod req, cp_Rail = cq_Rail req,
     cp_DestinationMode = cq_DestinationMode req, cp_Description = cq_Description req, cp_Customer = cq_Customer req,
     cp_SuccessURL = cq_SuccessURL req, cp_CancelURL = cq_CancelURL req, cp_ExpirationDate = cq_ExpirationDate req,
     cp_Metadata = cq_Metadata req\<rparr>"

definition api_create :: "api_codec \<Rightarrow> 's server \<Rightarrow> time \<Rightarrow> go_context \<Rightarrow> api_request \<Rightarrow> writer \<Rightarrow> ('s world, writer) go_io" where
  "api_create ax sv now ctx r w =
     with_principal sv w r ''payments:write'' (\<lambda>p.
     with_body w (ax_payment ax) r (\<lambda>req.
     answer w (Payments_Create (sx_payments sv ctx) now p (payment_of_request p req) (header (ar_Header r) ''Idempotency-Key''))
       (\<lambda>(result, replayed).
          writeJSON (if replayed then set_header ''Idempotent-Replayed'' ''true'' w else w) 201 (json_payment (ax_time ax) result))))"

definition api_list :: "api_codec \<Rightarrow> 's server \<Rightarrow> go_context \<Rightarrow> api_request \<Rightarrow> writer \<Rightarrow> ('s world, writer) go_io" where
  "api_list ax sv ctx r w =
     with_principal sv w r ''payments:read'' (\<lambda>p.
     with_limit w r (\<lambda>limit.
     answer w (Payments_List (sx_payments sv ctx) p \<lparr>plo_Limit = limit, plo_Cursor = query r ''cursor''\<rparr>)
       (\<lambda>result. writeJSON w 200 (json_payment_page (ax_time ax) result))))"

definition api_get :: "api_codec \<Rightarrow> 's server \<Rightarrow> go_context \<Rightarrow> string \<Rightarrow> api_request \<Rightarrow> writer \<Rightarrow> ('s world, writer) go_io" where
  "api_get ax sv ctx transactionId r w =
     with_principal sv w r ''payments:read'' (\<lambda>p.
     answer w (Payments_Get (sx_payments sv ctx) p transactionId)
       (\<lambda>result. writeJSON w 200 (json_payment (ax_time ax) result)))"

definition api_createRefund :: "api_codec \<Rightarrow> 's server \<Rightarrow> go_context \<Rightarrow> string \<Rightarrow> api_request \<Rightarrow> writer \<Rightarrow> ('s world, writer) go_io" where
  "api_createRefund ax sv ctx transactionId r w =
     with_principal sv w r ''refunds:write'' (\<lambda>p.
     with_body w (ax_refund ax) r (\<lambda>inp.
     answer w (Refunds_Create (sx_refunds sv ctx) p (bearer r) transactionId (header (ar_Header r) ''Idempotency-Key'') inp)
       (\<lambda>(result, replayed). created w replayed (json_refund (ax_time ax) result))))"

definition api_listRefunds :: "api_codec \<Rightarrow> 's server \<Rightarrow> go_context \<Rightarrow> string \<Rightarrow> api_request \<Rightarrow> writer \<Rightarrow> ('s world, writer) go_io" where
  "api_listRefunds ax sv ctx transactionId r w =
     with_principal sv w r ''refunds:read'' (\<lambda>p.
     answer w (Refunds_List (sx_refunds sv ctx) p (bearer r) transactionId)
       (\<lambda>result. writeJSON w 200 (json_refund_list (ax_time ax) result)))"

definition api_getRefund :: "api_codec \<Rightarrow> 's server \<Rightarrow> go_context \<Rightarrow> string \<Rightarrow> api_request \<Rightarrow> writer \<Rightarrow> ('s world, writer) go_io" where
  "api_getRefund ax sv ctx refundId r w =
     with_principal sv w r ''refunds:read'' (\<lambda>p.
     answer w (Refunds_Get (sx_refunds sv ctx) p (bearer r) refundId)
       (\<lambda>result. writeJSON w 200 (json_refund (ax_time ax) result)))"

definition api_createPayout :: "api_codec \<Rightarrow> 's server \<Rightarrow> go_context \<Rightarrow> api_request \<Rightarrow> writer \<Rightarrow> ('s world, writer) go_io" where
  "api_createPayout ax sv ctx r w =
     with_payouts sv w (\<lambda>payouts.
     with_principal sv w r ''payouts:write'' (\<lambda>p.
     with_body w (ax_payout ax) r (\<lambda>inp.
     answer w (Payouts_Create (payouts ctx) p (header (ar_Header r) ''Idempotency-Key'') inp)
       (\<lambda>(result, replayed). created w replayed (json_payout (ax_time ax) result)))))"

definition api_getPayout :: "api_codec \<Rightarrow> 's server \<Rightarrow> go_context \<Rightarrow> string \<Rightarrow> api_request \<Rightarrow> writer \<Rightarrow> ('s world, writer) go_io" where
  "api_getPayout ax sv ctx payoutId r w =
     with_payouts sv w (\<lambda>payouts.
     with_principal sv w r ''payouts:read'' (\<lambda>p.
     answer w (Payouts_Get (payouts ctx) p payoutId)
       (\<lambda>result. writeJSON w 200 (json_payout (ax_time ax) result))))"

definition api_listPayouts :: "api_codec \<Rightarrow> 's server \<Rightarrow> go_context \<Rightarrow> api_request \<Rightarrow> writer \<Rightarrow> ('s world, writer) go_io" where
  "api_listPayouts ax sv ctx r w =
     with_payouts sv w (\<lambda>payouts.
     with_principal sv w r ''payouts:read'' (\<lambda>p.
     with_limit w r (\<lambda>limit.
     answer w (Payouts_List (payouts ctx) p \<lparr>polo_Limit = limit, polo_Cursor = query r ''cursor'', polo_Status = query r ''status'',
         polo_ExternalID = query r ''externalId''\<rparr>)
       (\<lambda>result. writeJSON w 200 (json_payout_page (ax_time ax) result)))))"

definition api_providerEvent :: "api_codec \<Rightarrow> 's server \<Rightarrow> api_request \<Rightarrow> writer \<Rightarrow> ('s world, writer) go_io" where
  "api_providerEvent ax sv r w =
     (if sx_serviceToken sv = '''' \<or> bearer r \<noteq> sx_serviceToken sv
      then io_return (writeError w 401 ''unauthorized'' ''invalid service credentials'')
      else with_body w (ax_event ax) r (\<lambda>event.
        answer w (on_store (ProviderEvents_Handle (sx_events sv) event)) (\<lambda>result. writeJSON w 202 (json_event_result result))))"

definition internalOnly :: "api_request \<Rightarrow> (writer \<Rightarrow> writer) \<Rightarrow> writer \<Rightarrow> writer" where
  "internalOnly r nxt w =
     (if header (ar_Header r) ''X-Forwarded-For'' \<noteq> '''' \<or> header (ar_Header r) ''X-Real-IP'' \<noteq> ''''
      then http_NotFound w else nxt w)"

definition metrics_Handler :: "'f floats \<Rightarrow> 'f metrics \<Rightarrow> writer \<Rightarrow> writer" where
  "metrics_Handler fl m w = write_body (BodyText (metrics_text fl m))
     (set_header ''Content-Type'' ''text/plain; version=0.0.4; charset=utf-8'' w)"

section \<open>The routes\<close>

datatype route = Health | Ready | ShowMetrics | CreatePayment | ListPayments | GetPayment string | CreateRefund string
  | ListRefunds string | GetRefund string | CreatePayout | ListPayouts | GetPayout string | PostEvent

text \<open>
  The patterns that match a path: method, the text of the pattern's path, and the route. A wildcard does not match an empty
  segment.
\<close>

definition path_routes :: "string list \<Rightarrow> (string \<times> string \<times> route) list" where
  "path_routes path =
     (case path of
        [a] \<Rightarrow>
          if a = ''health'' then [(''GET'', ''/health'', Health)]
          else if a = ''ready'' then [(''GET'', ''/ready'', Ready)]
          else if a = ''metrics'' then [(''GET'', ''/metrics'', ShowMetrics)] else []
      | [a, b] \<Rightarrow>
          if a = ''v2'' \<and> b = ''payments'' then [(''POST'', ''/v2/payments'', CreatePayment), (''GET'', ''/v2/payments'', ListPayments)]
          else if a = ''v2'' \<and> b = ''payouts'' then [(''POST'', ''/v2/payouts'', CreatePayout), (''GET'', ''/v2/payouts'', ListPayouts)]
          else []
      | [a, b, c] \<Rightarrow>
          if a = ''v2'' \<and> b = ''payments'' \<and> c \<noteq> '''' then [(''GET'', ''/v2/payments/{transactionId}'', GetPayment c)]
          else if a = ''v2'' \<and> b = ''refunds'' \<and> c \<noteq> '''' then [(''GET'', ''/v2/refunds/{refundId}'', GetRefund c)]
          else if a = ''v2'' \<and> b = ''payouts'' \<and> c \<noteq> '''' then [(''GET'', ''/v2/payouts/{payoutId}'', GetPayout c)]
          else if a = ''internal'' \<and> b = ''v1'' \<and> c = ''provider-events'' then [(''POST'', ''/internal/v1/provider-events'', PostEvent)]
          else []
      | [a, b, c, d] \<Rightarrow>
          if a = ''v2'' \<and> b = ''payments'' \<and> c \<noteq> '''' \<and> d = ''refunds''
          then [(''POST'', ''/v2/payments/{transactionId}/refunds'', CreateRefund c), (''GET'', ''/v2/payments/{transactionId}/refunds'', ListRefunds c)]
          else []
      | _ \<Rightarrow> [])"

text \<open>A pattern for \<^verbatim>\<open>GET\<close> also matches \<^verbatim>\<open>HEAD\<close>.\<close>

definition method_matches :: "string \<Rightarrow> string \<Rightarrow> bool" where
  "method_matches pattern method \<longleftrightarrow> pattern = method \<or> (pattern = ''GET'' \<and> method = ''HEAD'')"

definition find_route :: "string \<Rightarrow> string list \<Rightarrow> (string \<times> route) option" where
  "find_route method path =
     map_option (\<lambda>(m, pattern, rt). (m @ '' '' @ pattern, rt)) (find (\<lambda>(m, _). method_matches m method) (path_routes path))"

definition allowed_methods :: "string list \<Rightarrow> string" where
  "allowed_methods path =
     (let ms = map fst (path_routes path)
      in strings_join '', '' (sort (remdups (ms @ (if ''GET'' \<in> set ms then [''HEAD''] else [])))))"

definition handle_route ::
  "api_codec \<Rightarrow> 'f floats \<Rightarrow> 's server \<Rightarrow> 'f metrics \<Rightarrow> time \<Rightarrow> go_context \<Rightarrow> route \<Rightarrow> api_request \<Rightarrow> writer \<Rightarrow> ('s world, writer) go_io" where
  "handle_route ax fl sv m now ctx rt r w =
     (case rt of
        Health \<Rightarrow> io_return (writeJSON w 200 (JObj [(''status'', JStr ''up'')]))
      | Ready \<Rightarrow> io_return (writeJSON w 200 (JObj [(''status'', JStr ''ready'')]))
      | ShowMetrics \<Rightarrow> io_return (internalOnly r (metrics_Handler fl m) w)
      | CreatePayment \<Rightarrow> api_create ax sv now ctx r w
      | ListPayments \<Rightarrow> api_list ax sv ctx r w
      | GetPayment i \<Rightarrow> api_get ax sv ctx i r w
      | CreateRefund i \<Rightarrow> api_createRefund ax sv ctx i r w
      | ListRefunds i \<Rightarrow> api_listRefunds ax sv ctx i r w
      | GetRefund i \<Rightarrow> api_getRefund ax sv ctx i r w
      | CreatePayout \<Rightarrow> api_createPayout ax sv ctx r w
      | ListPayouts \<Rightarrow> api_listPayouts ax sv ctx r w
      | GetPayout i \<Rightarrow> api_getPayout ax sv ctx i r w
      | PostEvent \<Rightarrow> api_providerEvent ax sv r w)"

text \<open>\<^verbatim>\<open>mux.ServeHTTP\<close>; a path that matches with another method is answered with 405.\<close>

definition mux_ServeHTTP ::
  "api_codec \<Rightarrow> 'f floats \<Rightarrow> 's server \<Rightarrow> 'f metrics \<Rightarrow> time \<Rightarrow> go_context \<Rightarrow> api_request \<Rightarrow> writer \<Rightarrow> ('s world, writer) go_io" where
  "mux_ServeHTTP ax fl sv m now ctx r w =
     (case find_route (ar_Method r) (ar_Path r) of
        Some (_, rt) \<Rightarrow> handle_route ax fl sv m now ctx rt r w
      | None \<Rightarrow>
          if path_routes (ar_Path r) = [] then io_return (http_NotFound w)
          else io_return (http_error ''Method Not Allowed'' 405 (set_header ''Allow'' (allowed_methods (ar_Path r)) w)))"

section \<open>The middleware\<close>

definition validRequestID :: "string \<Rightarrow> bool" where
  "validRequestID i \<longleftrightarrow> i \<noteq> '''' \<and> length i \<le> 128 \<and>
     list_all (\<lambda>c. let n = (of_char c :: nat) in
       (97 \<le> n \<and> n \<le> 122) \<or> (65 \<le> n \<and> n \<le> 90) \<or> (48 \<le> n \<and> n \<le> 57) \<or> c = CHR ''-'' \<or> c = CHR ''_'' \<or> c = CHR ''.'') i"

definition validTraceparent :: "string \<Rightarrow> bool" where
  "validTraceparent v \<longleftrightarrow> length v = 55 \<and> v ! 2 = CHR ''-'' \<and> v ! 35 = CHR ''-'' \<and> v ! 52 = CHR ''-'' \<and>
     list_all (\<lambda>i. i \<in> {2, 35, 52} \<or> (let n = (of_char (v ! i) :: nat) in (48 \<le> n \<and> n \<le> 57) \<or> (97 \<le> n \<and> n \<le> 102))) [0..<55] \<and>
     take 32 (drop 3 v) \<noteq> replicate 32 CHR ''0'' \<and> take 16 (drop 36 v) \<noteq> replicate 16 CHR ''0''"

text \<open>
  What a request gets from its surroundings: random bytes (\<open>None\<close> when the source fails), the clock at its start, when an
  identifier is stamped, in the handler and at its end.
\<close>

record surroundings =
  su_id :: "byte list option"
  su_trace :: "byte list option"
  su_span :: "byte list option"
  su_started :: time
  su_stamp :: time
  su_now :: time
  su_finished :: time

definition unix_nanos :: "time \<Rightarrow> int" where
  "unix_nanos t = t - 62135596800 * second_ns"

definition newRequestID :: "surroundings \<Rightarrow> string" where
  "newRequestID su =
     (case su_id su of
        None \<Rightarrow> ''req-'' @ decimal_int (unix_nanos (su_stamp su))
      | Some raw \<Rightarrow> hex_encode (take 4 raw) @ ''-'' @ hex_encode (take 2 (drop 4 raw)) @ ''-'' @ hex_encode (take 2 (drop 6 raw)) @
          ''-'' @ hex_encode (take 2 (drop 8 raw)) @ ''-'' @ hex_encode (take 6 (drop 10 raw)))"

definition newTraceparent :: "surroundings \<Rightarrow> string" where
  "newTraceparent su =
     (case (su_trace su, su_span su) of
        (Some traceID, Some spanID) \<Rightarrow> ''00-'' @ hex_encode traceID @ ''-'' @ hex_encode spanID @ ''-01''
      | _ \<Rightarrow> '''')"

definition request_id :: "surroundings \<Rightarrow> api_request \<Rightarrow> string" where
  "request_id su r = (if validRequestID (header (ar_Header r) ''X-Request-Id'') then header (ar_Header r) ''X-Request-Id'' else newRequestID su)"

definition request_trace :: "surroundings \<Rightarrow> api_request \<Rightarrow> string" where
  "request_trace su r = (if validTraceparent (header (ar_Header r) ''traceparent'') then header (ar_Header r) ''traceparent'' else newTraceparent su)"

definition new_writer :: "string \<Rightarrow> string \<Rightarrow> writer" where
  "new_writer i traceparent = \<lparr>wr_Header = mput ''traceparent'' traceparent (mput ''X-Request-Id'' i []), wr_status = 200,
     wr_wroteHeader = False, wr_sent = None, wr_Body = []\<rparr>"

text \<open>\<^verbatim>\<open>withRequestID\<close> around the multiplexer; no answer and no observation when the handler panics.\<close>

definition serve ::
  "api_codec \<Rightarrow> 'f floats \<Rightarrow> 's server \<Rightarrow> surroundings \<Rightarrow> api_request \<Rightarrow> 'f metrics \<times> 's world \<Rightarrow> writer option \<times> 'f metrics \<times> 's world" where
  "serve ax fl sv su r = (\<lambda>(m, w).
     let i = request_id su r; traceparent = request_trace su r
     in case mux_ServeHTTP ax fl sv m (su_now su) (WithObservability [] i traceparent) r (new_writer i traceparent) w of
          (Inl _, w') \<Rightarrow> (None, m, w')
        | (Inr wr, w') \<Rightarrow>
            (Some wr, ObserveHTTP fl (ar_Method r) (case find_route (ar_Method r) (ar_Path r) of Some (pattern, _) \<Rightarrow> pattern | None \<Rightarrow> '''')
               (wr_status wr) (su_finished su - su_started su) m, w'))"

end
