(* ===== verification/Http_Client.thy ===== *)
theory Http_Client
  imports Wire
begin

text \<open>
  \<^verbatim>\<open>internal/adapters/httpclient\<close>: the clients of the router, of the connectors and of the V1 refund service, as implementations
  of the interfaces of \<open>Ports\<close>. \<^verbatim>\<open>json.Decoder\<close> on the DTOs and the JSON form of a time are the
  parameters of \<open>codec\<close>; an object that does not decode is an error.
\<close>

section \<open>Parameters\<close>

text \<open>The DTO of the V1 refund service.\<close>

record legacy_refund =
  lv_RefundID :: string
  lv_PaymentID :: string
  lv_ExternalID :: string
  lv_Amount :: string
  lv_Currency :: string
  lv_Reason :: string
  lv_Status :: string
  lv_ProviderRefundID :: string
  lv_ErrorCode :: string
  lv_ErrorMessage :: string
  lv_CreatedAt :: time
  lv_CompletedAt :: "time option"

record codec =
  cd_time :: "time \<Rightarrow> json"
  cd_route :: "string \<Rightarrow> go_error + route_decision"
  cd_payment :: "string \<Rightarrow> go_error + provider_payment"
  cd_refund :: "string \<Rightarrow> go_error + provider_refund"
  cd_payout :: "string \<Rightarrow> go_error + provider_payout"
  cd_legacy :: "string \<Rightarrow> go_error + legacy_refund"
  cd_legacy_list :: "string \<Rightarrow> go_error + legacy_refund list"

section \<open>Posting JSON\<close>

definition http_WithTraceparent :: "go_context \<Rightarrow> string \<Rightarrow> go_context" where
  "http_WithTraceparent ctx v = (TraceKey, v) # ctx"

definition http_Traceparent :: "go_context \<Rightarrow> string" where
  "http_Traceparent ctx = (if Traceparent ctx \<noteq> '''' then Traceparent ctx else ctx_value ctx TraceKey)"

text \<open>A response outside 2xx: \<^verbatim>\<open>fmt.Errorf\<close> with at most 4096 bytes of the body.\<close>

definition upstream_error :: "http_response \<Rightarrow> go_error" where
  "upstream_error resp = ErrOther (''upstream status '' @ decimal_int (hs_Status resp) @ '': '' @ take 4096 (hs_Body resp))"

text \<open>The statuses by which a provider definitely refuses.\<close>

definition refusal :: "int \<Rightarrow> bool" where
  "refusal st \<longleftrightarrow> st = 400 \<or> st = 401 \<or> st = 403 \<or> st = 404 \<or> st = 409 \<or> st = 422"

definition set_unless_empty :: "string \<Rightarrow> string \<Rightarrow> string gomap \<Rightarrow> string gomap" where
  "set_unless_empty k v h = (if v = '''' then h else mput k v h)"

definition post_request :: "go_context \<Rightarrow> string \<Rightarrow> string \<Rightarrow> string \<Rightarrow> json \<Rightarrow> http_request" where
  "post_request ctx url token idempotencyKey body = \<lparr>hq_Method = ''POST'', hq_URL = url,
     hq_Header = set_unless_empty ''traceparent'' (http_Traceparent ctx)
       (set_unless_empty ''Idempotency-Key'' idempotencyKey (set_unless_empty ''X-Request-Id'' (RequestID ctx)
       ((if token = '''' then id else mput ''Authorization'' (''Bearer '' @ token)) (mput ''Content-Type'' ''application/json'' [])))),
     hq_Body = Some body\<rparr>"

definition postJSON ::
  "transport \<Rightarrow> go_context \<Rightarrow> string \<Rightarrow> string \<Rightarrow> string \<Rightarrow> json \<Rightarrow> (string \<Rightarrow> go_error + 'a) \<Rightarrow> go_error + 'a" where
  "postJSON tr ctx url token idempotencyKey body decode =
     (case tr (post_request ctx url token idempotencyKey body) of
        Inl e \<Rightarrow> Inl e
      | Inr resp \<Rightarrow>
          if \<not> status_ok (hs_Status resp) then
            (if refusal (hs_Status resp)
             then Inl (ErrWrap '''' ErrProviderRejected ('': '' @ err_text (upstream_error resp)))
             else Inl (upstream_error resp))
          else decode (hs_Body resp))"

text \<open>A \<^verbatim>\<open>GET\<close> of the connectors sends token and connection, whatever they are.\<close>

definition get_request :: "string \<Rightarrow> string \<Rightarrow> string \<Rightarrow> http_request" where
  "get_request url token connection = \<lparr>hq_Method = ''GET'', hq_URL = url,
     hq_Header = mput ''Provider-Connection-Id'' connection (mput ''Authorization'' (''Bearer '' @ token) []), hq_Body = None\<rparr>"

definition getJSON :: "transport \<Rightarrow> string \<Rightarrow> string \<Rightarrow> string \<Rightarrow> (string \<Rightarrow> go_error + 'a) \<Rightarrow> go_error + 'a" where
  "getJSON tr url token connection decode =
     (case tr (get_request url token connection) of
        Inl e \<Rightarrow> Inl e
      | Inr resp \<Rightarrow> if \<not> status_ok (hs_Status resp) then Inl (upstream_error resp) else decode (hs_Body resp))"

section \<open>The router\<close>

record router_client =
  rc_baseURL :: string
  rc_token :: string

definition NewRouter :: "string \<Rightarrow> string \<Rightarrow> router_client" where
  "NewRouter baseURL token = \<lparr>rc_baseURL = trim_right baseURL CHR ''/'', rc_token = token\<rparr>"

definition router_Resolve :: "codec \<Rightarrow> transport \<Rightarrow> go_context \<Rightarrow> router_client \<Rightarrow> route_request \<Rightarrow> go_error + route_decision" where
  "router_Resolve cd tr ctx r inp =
     postJSON tr ctx (rc_baseURL r @ ''/v1/routes/resolve'') (rc_token r) '''' (json_route_request inp) (cd_route cd)"

definition http_router :: "codec \<Rightarrow> (history \<Rightarrow> transport) \<Rightarrow> go_context \<Rightarrow> router_client \<Rightarrow> router" where
  "http_router cd tr ctx r = \<lparr>ro_Resolve = (\<lambda>h. router_Resolve cd (tr h) ctx r)\<rparr>"

section \<open>The connectors\<close>

record connectors =
  cs_urls :: "string gomap"
  cs_token :: string

definition NewConnectors :: "string gomap \<Rightarrow> string \<Rightarrow> connectors" where
  "NewConnectors urls token = \<lparr>cs_urls = urls, cs_token = token\<rparr>"

text \<open>The look-up of the connector that every operation begins with.\<close>

definition with_connector :: "connectors \<Rightarrow> route_decision \<Rightarrow> (string \<Rightarrow> go_error + 'a) \<Rightarrow> go_error + 'a" where
  "with_connector c route f =
     (case mget (cs_urls c) (rd_ConnectorID route) of
        None \<Rightarrow> Inl (ErrOther (''unknown connector '' @ go_quote (rd_ConnectorID route)))
      | Some base \<Rightarrow> f (trim_right base CHR ''/''))"

definition binding_field :: "route_decision \<Rightarrow> jmap" where
  "binding_field route = (case rd_Binding route of None \<Rightarrow> [] | Some b \<Rightarrow> [(''binding'', json_binding b)])"

definition payment_operation :: "payment \<Rightarrow> string" where
  "payment_operation p = ''payment:'' @ pay_TransactionID p @ '':create''"

definition payment_command :: "codec \<Rightarrow> route_decision \<Rightarrow> payment \<Rightarrow> string \<Rightarrow> string \<Rightarrow> json" where
  "payment_command cd route p successURL cancelURL = JObj (
     [(''operationId'', JStr (payment_operation p)), (''transactionId'', JStr (pay_TransactionID p)),
      (''provider'', JStr (rd_Provider route)), (''providerConnectionId'', JStr (rd_ProviderConnectionID route)),
      (''amount'', JStr (pay_Amount p)), (''currency'', JStr (pay_Currency p)), (''paymentMethod'', JStr (pay_PaymentMethod p)),
      (''rail'', JStr (rd_Rail route)), (''destinationMode'', JStr (rd_DestinationMode route)), (''customer'', JObj (pay_Customer p))] @
     omit_empty ''description'' (pay_Description p) @ omit_empty_map ''metadata'' (pay_Metadata p) @ binding_field route @
     (if pay_ExpirationDate p = 0 then [] else [(''expiresAt'', cd_time cd (pay_ExpirationDate p))]) @
     omit_empty_map ''returnUrls'' (omit_empty ''success'' successURL @ omit_empty ''cancel'' cancelURL))"

definition connectors_CreatePayment ::
  "codec \<Rightarrow> transport \<Rightarrow> go_context \<Rightarrow> connectors \<Rightarrow> route_decision \<Rightarrow> payment \<Rightarrow> string \<Rightarrow> string \<Rightarrow> go_error + provider_payment" where
  "connectors_CreatePayment cd tr ctx c route p successURL cancelURL = with_connector c route (\<lambda>base.
     postJSON tr ctx (base @ ''/v1/payments'') (cs_token c) (payment_operation p)
       (payment_command cd route p successURL cancelURL) (cd_payment cd))"

definition refund_command :: "route_decision \<Rightarrow> payment \<Rightarrow> refund \<Rightarrow> json" where
  "refund_command route p r = JObj (
     [(''operationId'', JStr (''refund:'' @ rf_RefundID r @ '':create'')), (''refundId'', JStr (rf_RefundID r)),
      (''transactionId'', JStr (pay_TransactionID p)), (''providerConnectionId'', JStr (rd_ProviderConnectionID route)),
      (''amount'', JStr (rf_Amount r)), (''currency'', JStr (rf_Currency r))] @
     omit_empty ''reason'' (rf_Reason r) @ omit_empty_map ''metadata'' (rf_Metadata r))"

definition connectors_CreateRefund ::
  "codec \<Rightarrow> transport \<Rightarrow> go_context \<Rightarrow> connectors \<Rightarrow> route_decision \<Rightarrow> payment \<Rightarrow> refund \<Rightarrow> string \<Rightarrow> go_error + provider_refund" where
  "connectors_CreateRefund cd tr ctx c route p r key = with_connector c route (\<lambda>base.
     postJSON tr ctx (base @ ''/v1/payments/'' @ pay_ProviderPaymentID p @ ''/refunds'') (cs_token c) key
       (refund_command route p r) (cd_refund cd))"

definition connectors_GetRefund :: "codec \<Rightarrow> transport \<Rightarrow> connectors \<Rightarrow> route_decision \<Rightarrow> refund \<Rightarrow> go_error + provider_refund" where
  "connectors_GetRefund cd tr c route r = with_connector c route (\<lambda>base.
     getJSON tr (base @ ''/v1/refunds/'' @ rf_RefundID r) (cs_token c) (rd_ProviderConnectionID route) (cd_refund cd))"

definition payout_command :: "route_decision \<Rightarrow> payout \<Rightarrow> json" where
  "payout_command route p = JObj (
     [(''operationId'', JStr (''payout:'' @ po_PayoutID p @ '':create'')), (''payoutId'', JStr (po_PayoutID p)),
      (''accountId'', JStr (po_AccountID p)), (''merchantId'', JStr (po_MerchantID p)), (''provider'', JStr (rd_Provider route)),
      (''providerConnectionId'', JStr (rd_ProviderConnectionID route)), (''source'', json_money (po_Source p)),
      (''destination'', json_destination (po_Destination p))] @
     binding_field route @ omit_empty_map ''remitter'' (po_Remitter p) @ omit_empty ''description'' (po_Description p) @
     omit_empty_map ''metadata'' (po_Metadata p))"

definition connectors_CreatePayout ::
  "codec \<Rightarrow> transport \<Rightarrow> go_context \<Rightarrow> connectors \<Rightarrow> route_decision \<Rightarrow> payout \<Rightarrow> string \<Rightarrow> go_error + provider_payout" where
  "connectors_CreatePayout cd tr ctx c route p key = with_connector c route (\<lambda>base.
     postJSON tr ctx (base @ ''/v1/payouts'') (cs_token c) key (payout_command route p) (cd_payout cd))"

text \<open>The provider's identifier, or ours before the provider answered.\<close>

definition payout_resource :: "payout \<Rightarrow> string" where
  "payout_resource p = (if po_ProviderPayoutID p = '''' then po_PayoutID p else po_ProviderPayoutID p)"

definition connectors_GetPayout :: "codec \<Rightarrow> transport \<Rightarrow> connectors \<Rightarrow> route_decision \<Rightarrow> payout \<Rightarrow> go_error + provider_payout" where
  "connectors_GetPayout cd tr c route p = with_connector c route (\<lambda>base.
     getJSON tr (base @ ''/v1/payouts/'' @ payout_resource p) (cs_token c) (rd_ProviderConnectionID route) (cd_payout cd))"

definition cancel_operation :: "payout \<Rightarrow> string" where
  "cancel_operation p = ''payout:'' @ po_PayoutID p @ '':cancel''"

definition connectors_CancelPayout ::
  "codec \<Rightarrow> transport \<Rightarrow> go_context \<Rightarrow> connectors \<Rightarrow> route_decision \<Rightarrow> payout \<Rightarrow> string \<Rightarrow> go_error + provider_payout" where
  "connectors_CancelPayout cd tr ctx c route p reason = with_connector c route (\<lambda>base.
     postJSON tr ctx (base @ ''/v1/payouts/'' @ payout_resource p @ ''/cancel'') (cs_token c) (cancel_operation p)
       (JObj [(''operationId'', JStr (cancel_operation p)), (''payoutId'', JStr (po_PayoutID p)),
              (''providerConnectionId'', JStr (rd_ProviderConnectionID route)), (''reason'', JStr reason)]) (cd_payout cd))"

definition http_connector :: "codec \<Rightarrow> (history \<Rightarrow> transport) \<Rightarrow> go_context \<Rightarrow> connectors \<Rightarrow> connector" where
  "http_connector cd tr ctx c = \<lparr>co_CreatePayment = (\<lambda>h. connectors_CreatePayment cd (tr h) ctx c),
     co_CreateRefund = (\<lambda>h. connectors_CreateRefund cd (tr h) ctx c), co_GetRefund = (\<lambda>h. connectors_GetRefund cd (tr h) c)\<rparr>"

definition http_payout_connector :: "codec \<Rightarrow> (history \<Rightarrow> transport) \<Rightarrow> go_context \<Rightarrow> connectors \<Rightarrow> payout_connector" where
  "http_payout_connector cd tr ctx c = \<lparr>pc_CreatePayout = (\<lambda>h. connectors_CreatePayout cd (tr h) ctx c),
     pc_GetPayout = (\<lambda>h. connectors_GetPayout cd (tr h) c)\<rparr>"

section \<open>The V1 refund service\<close>

definition mapRefundStatus :: "string \<Rightarrow> string" where
  "mapRefundStatus v = (if v = ''succeeded'' then ''succeeded'' else if v = ''failed'' then ''failed'' else ''pending'')"

definition zero_refund :: refund where
  "zero_refund = \<lparr>rf_RefundID = '''', rf_TransactionID = '''', rf_ExternalID = '''', rf_Status = '''', rf_Amount = '''',
     rf_Currency = '''', rf_Reason = '''', rf_CreationDate = 0, rf_CompletionDate = None, rf_ProviderReference = '''',
     rf_Failure = [], rf_Metadata = [], rf_MerchantID = '''', rf_AccountID = '''', rf_ProviderPaymentID = '''',
     rf_Route = zero_route, rf_BalanceDebited = False, rf_ProviderSubmitted = False, rf_ResourceVersion = 0,
     rf_NextAttemptAt = 0, rf_OperationalStatus = ''''\<rparr>"

definition mapLegacyRefund :: "legacy_refund \<Rightarrow> refund" where
  "mapLegacyRefund v = zero_refund\<lparr>rf_RefundID := lv_RefundID v, rf_TransactionID := lv_PaymentID v, rf_ExternalID := lv_ExternalID v,
     rf_Status := mapRefundStatus (lv_Status v), rf_Amount := lv_Amount v, rf_Currency := lv_Currency v, rf_Reason := lv_Reason v,
     rf_CreationDate := lv_CreatedAt v, rf_CompletionDate := lv_CompletedAt v, rf_ProviderReference := lv_ProviderRefundID v,
     rf_Failure := (if lv_ErrorCode v \<noteq> '''' \<or> lv_ErrorMessage v \<noteq> ''''
       then [(''code'', JStr (lv_ErrorCode v)), (''message'', JStr (lv_ErrorMessage v))] else [])\<rparr>"

definition NewLegacyRefundClient :: "string \<Rightarrow> string" where
  "NewLegacyRefundClient base = trim_right base CHR ''/''"

definition legacy_request :: "string \<Rightarrow> string \<Rightarrow> string \<Rightarrow> string \<Rightarrow> json option \<Rightarrow> http_request" where
  "legacy_request meth url credential key body = \<lparr>hq_Method = meth, hq_URL = url,
     hq_Header = set_unless_empty ''Idempotency-Key'' key
       ((if body = None then id else mput ''Content-Type'' ''application/json'') (mput ''Authorization'' (''Bearer '' @ credential) [])),
     hq_Body = body\<rparr>"

definition legacy_error :: "int \<Rightarrow> go_error" where
  "legacy_error st =
     (if st = 400 then ErrWrap '''' ErrInvalid '': legacy refund rejected''
      else if st = 404 then ErrNotFound
      else if st = 409 then ErrConflict
      else if st = 422 then ErrUnsupported
      else ErrOther (''legacy refund http '' @ decimal_int st))"

definition legacy_do ::
  "transport \<Rightarrow> string \<Rightarrow> string \<Rightarrow> string \<Rightarrow> string \<Rightarrow> string \<Rightarrow> json option \<Rightarrow> (string \<Rightarrow> go_error + 'a) \<Rightarrow> go_error + ('a \<times> bool)" where
  "legacy_do tr base meth path credential key body decode =
     (case tr (legacy_request meth (base @ path) credential key body) of
        Inl e \<Rightarrow> Inl e
      | Inr resp \<Rightarrow>
          if \<not> status_ok (hs_Status resp) then Inl (legacy_error (hs_Status resp))
          else (case decode (hs_Body resp) of
              Inl e \<Rightarrow> Inl e
            | Inr x \<Rightarrow> Inr (x, header (hs_Header resp) ''Idempotent-Replayed'' = ''true'')))"

definition legacy_Create ::
  "codec \<Rightarrow> transport \<Rightarrow> string \<Rightarrow> string \<Rightarrow> string \<Rightarrow> string \<Rightarrow> create_refund \<Rightarrow> go_error + (refund \<times> bool)" where
  "legacy_Create cd tr base credential paymentID key inp = map_sum id (map_prod mapLegacyRefund id)
     (legacy_do tr base ''POST'' (''/payments/'' @ paymentID @ ''/refunds'') credential key (Some (json_create_refund inp)) (cd_legacy cd))"

definition legacy_List :: "codec \<Rightarrow> transport \<Rightarrow> string \<Rightarrow> string \<Rightarrow> string \<Rightarrow> go_error + refund list" where
  "legacy_List cd tr base credential paymentID = map_sum id (\<lambda>(vs, _). map mapLegacyRefund vs)
     (legacy_do tr base ''GET'' (''/payments/'' @ paymentID @ ''/refunds'') credential '''' None (cd_legacy_list cd))"

definition legacy_Get :: "codec \<Rightarrow> transport \<Rightarrow> string \<Rightarrow> string \<Rightarrow> string \<Rightarrow> go_error + refund" where
  "legacy_Get cd tr base credential refundID = map_sum id (\<lambda>(v, _). mapLegacyRefund v)
     (legacy_do tr base ''GET'' (''/refunds/'' @ refundID) credential '''' None (cd_legacy cd))"

definition http_legacy_refunds :: "codec \<Rightarrow> (history \<Rightarrow> transport) \<Rightarrow> string \<Rightarrow> legacy_refunds" where
  "http_legacy_refunds cd tr base = \<lparr>lr_Create = (\<lambda>h. legacy_Create cd (tr h) base), lr_List = (\<lambda>h. legacy_List cd (tr h) base),
     lr_Get = (\<lambda>h. legacy_Get cd (tr h) base)\<rparr>"

section \<open>Lemmas\<close>

lemma postJSON_cases:
  assumes "postJSON tr ctx url token key body decode = r"
  obtains (lost) e where "tr (post_request ctx url token key body) = Inl e" "r = Inl e"
    | (refused) resp t where "tr (post_request ctx url token key body) = Inr resp" "refusal (hs_Status resp)"
        "r = Inl (ErrWrap '''' ErrProviderRejected t)"
    | (failed) resp where "tr (post_request ctx url token key body) = Inr resp" "\<not> status_ok (hs_Status resp)"
        "\<not> refusal (hs_Status resp)" "r = Inl (upstream_error resp)"
    | (answered) resp where "tr (post_request ctx url token key body) = Inr resp" "status_ok (hs_Status resp)" "r = decode (hs_Body resp)"
  using assms unfolding postJSON_def by (auto split: sum.splits if_splits)

lemma upstream_not_sentinel [simp]: "errors_is (upstream_error resp) e \<longleftrightarrow> e = upstream_error resp"
  by (auto simp: upstream_error_def)

lemma legacy_do_cases:
  assumes "legacy_do tr base meth path credential key body decode = r"
  obtains (lost) e where "tr (legacy_request meth (base @ path) credential key body) = Inl e" "r = Inl e"
    | (refused) resp where "tr (legacy_request meth (base @ path) credential key body) = Inr resp" "\<not> status_ok (hs_Status resp)"
        "r = Inl (legacy_error (hs_Status resp))"
    | (garbled) resp e where "tr (legacy_request meth (base @ path) credential key body) = Inr resp" "status_ok (hs_Status resp)"
        "decode (hs_Body resp) = Inl e" "r = Inl e"
    | (answered) resp x where "tr (legacy_request meth (base @ path) credential key body) = Inr resp" "status_ok (hs_Status resp)"
        "decode (hs_Body resp) = Inr x" "r = Inr (x, header (hs_Header resp) ''Idempotent-Replayed'' = ''true'')"
  using assms unfolding legacy_do_def by (auto split: sum.splits if_splits)

end
