(* ===== verification/Program.thy ===== *)
theory Program
  imports Http_Api Static_Auth Pg_Events Refund_Decision Http_Client Dinacore Webhooks
begin

text \<open>
  \<^verbatim>\<open>cmd/dinapay-v2/main.go\<close>: the environment variables and the wiring of the two programs they select, with and without a
  database. All connections leave through one transport, a function of the call history.
\<close>

section \<open>The environment\<close>

text \<open>An unset variable is empty.\<close>

definition getenv :: "string gomap \<Rightarrow> string \<Rightarrow> string" where
  "getenv vars key = (case mget vars key of None \<Rightarrow> '''' | Some v \<Rightarrow> v)"

definition env :: "string gomap \<Rightarrow> string \<Rightarrow> string \<Rightarrow> string" where
  "env vars key fallback = (if getenv vars key \<noteq> '''' then getenv vars key else fallback)"

definition envInt :: "string gomap \<Rightarrow> string \<Rightarrow> int \<Rightarrow> int" where
  "envInt vars key fallback =
     (case go_atoi (getenv vars key) of None \<Rightarrow> fallback | Some v \<Rightarrow> if v < 1 then fallback else v)"

definition connector_urls :: "string gomap \<Rightarrow> string gomap" where
  "connector_urls vars =
     fold (\<lambda>entry urls. case split2 CHR ''='' entry of [k, v] \<Rightarrow> mput k v urls | _ \<Rightarrow> urls)
       (split_on CHR '','' (getenv vars ''CONNECTORS'')) []"

section \<open>The clients\<close>

definition main_router :: "codec \<Rightarrow> (history \<Rightarrow> transport) \<Rightarrow> string gomap \<Rightarrow> go_context \<Rightarrow> router" where
  "main_router cd tr vars ctx =
     http_router cd tr ctx (NewRouter (env vars ''ROUTER_URL'' ''http://localhost:8091'') (getenv vars ''SERVICE_TOKEN''))"

definition main_connectors :: "string gomap \<Rightarrow> connectors" where
  "main_connectors vars = NewConnectors (connector_urls vars) (getenv vars ''SERVICE_TOKEN'')"

definition main_legacy :: "codec \<Rightarrow> (history \<Rightarrow> transport) \<Rightarrow> string gomap \<Rightarrow> legacy_refunds" where
  "main_legacy cd tr vars = http_legacy_refunds cd tr (NewLegacyRefundClient (env vars ''LEGACY_DINAPAY_URL'' ''http://localhost:8090''))"

definition main_ledger :: "string gomap \<Rightarrow> ledger_client option" where
  "main_ledger vars =
     (if getenv vars ''DINACORE_BASE_URL'' \<noteq> '''' \<and> getenv vars ''DINACORE_API_KEY'' \<noteq> ''''
      then Some (ledger_New (getenv vars ''DINACORE_BASE_URL'') (getenv vars ''DINACORE_API_KEY'')) else None)"

section \<open>Without a database\<close>

definition memory_server ::
  "codec \<Rightarrow> (history \<Rightarrow> transport) \<Rightarrow> digest \<Rightarrow> (create_payment \<Rightarrow> string) \<Rightarrow> string gomap \<Rightarrow> mem_store server" where
  "memory_server cd tr sha256 marshal vars =
     (let keys = static_NewAuth (getenv vars ''API_KEYS'') in http_New
        (\<lambda>ctx. memory_payments (main_router cd tr vars ctx) (http_connector cd tr ctx (main_connectors vars)) keys
           (getenv vars ''CHECKOUT_BASE_URL'') sha256 marshal)
        (\<lambda>ctx. \<lparr>fs_store = memory_store, fs_native = None, fs_legacy = Some (main_legacy cd tr vars),
           fs_connector = http_connector cd tr ctx (main_connectors vars), fs_ledger = map_option (http_ledger tr) (main_ledger vars)\<rparr>)
        None (memory_events sha256) (static_auth keys) (getenv vars ''SERVICE_TOKEN''))"

section \<open>With PostgreSQL\<close>

definition main_payouts ::
  "pg_env \<Rightarrow> codec \<Rightarrow> (history \<Rightarrow> transport) \<Rightarrow> (create_payout \<Rightarrow> string) \<Rightarrow> string gomap \<Rightarrow> go_context \<Rightarrow> pgstate payouts" where
  "main_payouts E cd tr marshal vars ctx =
     pg_payouts E (pg_NewAuth [env vars ''DINARIA_ENVIRONMENT'' ''sandbox'']) (main_router cd tr vars ctx)
       (http_payout_connector cd tr ctx (main_connectors vars)) (map_option (http_payout_ledger tr) (main_ledger vars)) marshal"

definition main_refunds :: "pg_env \<Rightarrow> codec \<Rightarrow> (history \<Rightarrow> transport) \<Rightarrow> string gomap \<Rightarrow> go_context \<Rightarrow> pgstate refunds" where
  "main_refunds E cd tr vars ctx =
     pg_refunds E (Some (main_legacy cd tr vars)) (http_connector cd tr ctx (main_connectors vars))
       (map_option (http_ledger tr) (main_ledger vars))"

definition pg_server ::
  "pg_env \<Rightarrow> codec \<Rightarrow> (history \<Rightarrow> transport) \<Rightarrow> (create_payment \<Rightarrow> string) \<Rightarrow> (create_payout \<Rightarrow> string) \<Rightarrow> string gomap \<Rightarrow> pgstate server" where
  "pg_server E cd tr marshal marshal_payout vars =
     (let cfg = pg_NewAuth [env vars ''DINARIA_ENVIRONMENT'' ''sandbox''] in http_New
        (\<lambda>ctx. pg_payments E cfg (main_router cd tr vars ctx) (http_connector cd tr ctx (main_connectors vars))
           (getenv vars ''CHECKOUT_BASE_URL'') marshal)
        (main_refunds E cd tr vars) (Some (main_payouts E cd tr marshal_payout vars))
        (postgres_events E)
        (pg_auth E cfg) (getenv vars ''SERVICE_TOKEN''))"

text \<open>The loops that \<^verbatim>\<open>main\<close> starts beside the server.\<close>

datatype loop = RefundLoop | PayoutLoop | CreditLoop | WebhookLoop nat | MetricsLoop

definition main_loops :: "string gomap \<Rightarrow> loop list" where
  "main_loops vars =
     (if getenv vars ''DB_URL'' = '''' then []
      else (if main_ledger vars \<noteq> None then [RefundLoop, PayoutLoop, CreditLoop] else []) @
        [WebhookLoop (webhook_NewWorker [envInt vars ''WEBHOOK_DISPATCH_CONCURRENCY'' 8]), MetricsLoop])"

end
