(* ===== verification/Api_Properties.thy ===== *)
theory Api_Properties
  imports Program
begin

text \<open>
  What the HTTP interface guarantees: one answer to each request, identifiers on it, credentials before anything else,
  limits, and the guarantees of the services as a client sees them.
\<close>

section \<open>What a handler returns\<close>

text \<open>Every writer that \<open>m\<close> returns satisfies \<open>P\<close>.\<close>

definition returns :: "('a \<Rightarrow> bool) \<Rightarrow> ('s, 'a) go_io \<Rightarrow> bool" where
  "returns P m \<longleftrightarrow> (\<forall>s x s'. m s = (Inr x, s') \<longrightarrow> P x)"

lemma returns_return [simp]: "returns P (io_return x) \<longleftrightarrow> P x"
  by (auto simp: returns_def io_return_def)

lemma returns_fail [simp]: "returns P (io_fail e)"
  by (simp add: returns_def io_fail_def)

lemma returns_bind: "(\<And>x. returns P (k x)) \<Longrightarrow> returns P (io_bind m k)"
  unfolding returns_def by (blast elim: io_bind_InrE)

lemma returns_principal:
  assumes "\<And>st code msg. P (writeError w st code msg)" and "\<And>p. returns P (k p)"
  shows "returns P (with_principal sv w r sc k)"
  unfolding with_principal_def by (rule returns_bind) (auto simp: assms split: sum.split)

lemma returns_body:
  assumes "\<And>st code msg. P (writeError w st code msg)" and "\<And>x. returns P (k x)"
  shows "returns P (with_body w d r k)"
  by (auto simp: with_body_def assms split: sum.split)

lemma returns_limit:
  assumes "\<And>st code msg. P (writeError w st code msg)" and "\<And>n. returns P (k n)"
  shows "returns P (with_limit w r k)"
  by (auto simp: with_limit_def assms split: option.split)

lemma returns_payouts:
  assumes "\<And>st code msg. P (writeError w st code msg)" and "\<And>y. returns P (k y)"
  shows "returns P (with_payouts sv w k)"
  by (auto simp: with_payouts_def assms split: option.split)

lemma returns_answer:
  assumes "\<And>st code msg. P (writeError w st code msg)" and "\<And>x. P (f x)"
  shows "returns P (answer w m f)"
  unfolding answer_def by (rule returns_bind) (auto simp: assms mapError_def split: sum.split)

lemmas returns_intros = returns_principal returns_body returns_limit returns_payouts returns_answer

section \<open>One answer to each request\<close>

text \<open>The writer before its handler, and after it: one status, the one that was captured, and one body.\<close>

definition fresh_writer :: "writer \<Rightarrow> bool" where
  "fresh_writer w \<longleftrightarrow> wr_status w = 200 \<and> \<not> wr_wroteHeader w \<and> wr_sent w = None \<and> wr_Body w = []"

definition answered :: "writer \<Rightarrow> writer \<Rightarrow> bool" where
  "answered w0 w \<longleftrightarrow> wr_sent w = Some (wr_status w) \<and> length (wr_Body w) = 1 \<and>
     (\<forall>k \<in> {''X-Request-Id'', ''traceparent''}. header (wr_Header w) k = header (wr_Header w0) k)"

lemma header_mput [simp]: "header (mput k v h) k' = (if k' = k then v else header h k')"
  by (simp add: header_def)

lemma writeJSON_answered: "fresh_writer w \<Longrightarrow> answered w (writeJSON w st v)"
  by (simp add: fresh_writer_def answered_def writeJSON_def write_body_def WriteHeader_def set_header_def)

lemma writeError_answered: "fresh_writer w \<Longrightarrow> answered w (writeError w st code msg)"
  by (simp add: writeError_def writeJSON_answered)

lemma replayed_answered: "fresh_writer w \<Longrightarrow> answered w (writeJSON (set_header ''Idempotent-Replayed'' ''true'' w) st v)"
  by (simp add: fresh_writer_def answered_def writeJSON_def write_body_def WriteHeader_def set_header_def)

lemma http_error_answered: "fresh_writer w \<Longrightarrow> answered w (http_error msg st w)"
  by (simp add: fresh_writer_def answered_def http_error_def write_body_def WriteHeader_def set_header_def)

lemma allow_answered: "fresh_writer w \<Longrightarrow> answered w (http_error msg st (set_header ''Allow'' v w))"
  by (simp add: fresh_writer_def answered_def http_error_def write_body_def WriteHeader_def set_header_def)

lemma metrics_answered: "fresh_writer w \<Longrightarrow> answered w (metrics_Handler fl m w)"
  by (simp add: fresh_writer_def answered_def metrics_Handler_def write_body_def set_header_def)

lemma created_answered: "fresh_writer w \<Longrightarrow> answered w (created w b v)"
  by (simp add: created_def writeJSON_answered replayed_answered)

lemmas answered_intros = writeJSON_answered writeError_answered replayed_answered created_answered

lemma handle_route_answered:
  assumes "fresh_writer w"
  shows "returns (answered w) (handle_route ax fl sv m now ctx rt r w)"
proof -
  note handlers = api_create_def api_list_def api_get_def api_createRefund_def api_listRefunds_def api_getRefund_def
    api_createPayout_def api_getPayout_def api_listPayouts_def api_providerEvent_def
  show ?thesis
    unfolding handle_route_def handlers internalOnly_def http_NotFound_def
    by (cases rt) (auto intro!: returns_intros answered_intros [OF assms] http_error_answered [OF assms]
        metrics_answered [OF assms] split: prod.split)
qed

lemma mux_answered: "fresh_writer w \<Longrightarrow> returns (answered w) (mux_ServeHTTP ax fl sv m now ctx r w)"
  by (auto simp: mux_ServeHTTP_def http_NotFound_def handle_route_answered http_error_answered allow_answered split: option.split)

section \<open>The identifiers\<close>

lemma hex_char_id: "is_hex c \<Longrightarrow> (48 \<le> (of_char c :: nat) \<and> (of_char c :: nat) \<le> 57) \<or> (97 \<le> (of_char c :: nat) \<and> (of_char c :: nat) \<le> 102)"
  by (auto simp: is_hex_def)

lemma hex_encode_id: "list_all (\<lambda>c. let n = (of_char c :: nat) in
   (97 \<le> n \<and> n \<le> 122) \<or> (65 \<le> n \<and> n \<le> 90) \<or> (48 \<le> n \<and> n \<le> 57) \<or> c = CHR ''-'' \<or> c = CHR ''_'' \<or> c = CHR ''.'') (hex_encode bs)"
  using hex_char_id hex_encode_is_hex by (fastforce simp: list_all_iff Let_def)

lemma newRequestID_valid:
  assumes "su_id su = Some raw" and "length raw = 16"
  shows "validRequestID (newRequestID su)"
  using assms by (simp add: validRequestID_def newRequestID_def hex_encode_id)

lemma hex_digit_zero: "hex_digit n = CHR ''0'' \<Longrightarrow> n mod 16 = 0"
proof -
  assume zero: "hex_digit n = CHR ''0''"
  have "distinct ''0123456789abcdef''" by simp
  moreover have "n mod 16 < length ''0123456789abcdef''" by simp
  ultimately have "n mod 16 = 0 \<longleftrightarrow> ''0123456789abcdef'' ! (n mod 16) = ''0123456789abcdef'' ! 0"
    by (subst nth_eq_iff_index_eq) simp_all
  with zero show ?thesis by (simp add: hex_digit_def)
qed

lemma hex_byte_zero: "hex_byte b = ''00'' \<Longrightarrow> b = 0"
proof -
  assume "hex_byte b = ''00''"
  then have "hex_digit (unat b div 16) = CHR ''0''" "hex_digit (unat b mod 16) = CHR ''0''" by (simp_all add: hex_byte_def)
  then have "unat b div 16 mod 16 = 0" "unat b mod 16 = 0" by (auto dest!: hex_digit_zero)
  moreover have "unat b < 256" using unsigned_less [of b] by simp
  then have "unat b div 16 < 16" by (simp add: less_mult_imp_div_less)
  ultimately have "unat b div 16 = 0" "unat b mod 16 = 0" by simp_all
  then have "unat b = 0" by (metis div_mult_mod_eq add_0 mult_0)
  then show ?thesis by (simp add: unat_eq_0)
qed

lemma hex_encode_zeros: "hex_encode bs = replicate (2 * length bs) CHR ''0'' \<Longrightarrow> \<forall>b \<in> set bs. b = 0"
proof (induction bs)
  case (Cons b bs)
  let ?zs = "replicate (2 * length bs) CHR ''0''"
  from Cons.prems have "hex_byte b @ hex_encode bs = ''00'' @ replicate (2 * length bs) CHR ''0''" by simp
  moreover have "length (hex_byte b) = 2" by (simp add: hex_byte_def)
  ultimately have "hex_byte b = ''00''" "hex_encode bs = replicate (2 * length bs) CHR ''0''"
    using append_eq_append_conv [of "hex_byte b" "''00''" "hex_encode bs" ?zs] by simp_all
  with Cons.IH hex_byte_zero show ?case by simp
qed simp

lemma traceparent_valid:
  assumes "length H = 32" and "length K = 16" and hex: "\<And>c. c \<in> set H \<union> set K \<Longrightarrow> is_hex c"
    and "H \<noteq> replicate 32 CHR ''0''" and "K \<noteq> replicate 16 CHR ''0''"
  shows "validTraceparent (''00-'' @ H @ ''-'' @ K @ ''-01'')"
proof -
  let ?v = "''00-'' @ H @ ''-'' @ K @ ''-01''"
  have ok: "is_hex (?v ! i)" if "i < 55" "i \<notin> {2, 35, 52}" for i
  proof -
    have "i < 2 \<or> (3 \<le> i \<and> i < 35) \<or> (36 \<le> i \<and> i < 52) \<or> i = 53 \<or> i = 54" using that by auto
    then consider "i < 2" | "3 \<le> i" "i < 35" | "36 \<le> i" "i < 52" | "i = 53" | "i = 54" by blast
    then show ?thesis
    proof cases
      case 1
      then show ?thesis by (auto simp: less_Suc_eq numeral_2_eq_2 is_hex_def)
    next
      case 2
      then obtain j where "i = 3 + j" "j < length H" using assms(1) le_Suc_ex by fastforce
      moreover from this have "?v ! i = H ! j" by (simp add: nth_append)
      ultimately show ?thesis using hex [of "H ! j"] nth_mem by simp
    next
      case 3
      then obtain j where j: "i = 3 + (length H + Suc j)" "j < length K"
        using assms(1,2) le_Suc_ex [of 36 i] by fastforce
      then have "?v ! i = K ! j" by (simp add: nth_append)
      with j show ?thesis using hex [of "K ! j"] nth_mem by simp
    qed (simp_all add: nth_append nth_Cons' assms(1,2) is_hex_def)
  qed
  have "list_all (\<lambda>i. i \<in> {2, 35, 52} \<or> (let n = (of_char (?v ! i) :: nat) in (48 \<le> n \<and> n \<le> 57) \<or> (97 \<le> n \<and> n \<le> 102))) [0..<55]"
    unfolding list_all_iff Let_def
  proof
    fix i :: nat
    assume "i \<in> set [0..<55]"
    then have "i \<notin> {2, 35, 52} \<Longrightarrow> is_hex (?v ! i)" using ok by simp
    then show "i \<in> {2, 35, 52} \<or> (48 \<le> (of_char (?v ! i) :: nat) \<and> (of_char (?v ! i) :: nat) \<le> 57) \<or>
        (97 \<le> (of_char (?v ! i) :: nat) \<and> (of_char (?v ! i) :: nat) \<le> 102)"
      using hex_char_id by blast
  qed
  moreover have "?v ! 2 = CHR ''-''" "?v ! 35 = CHR ''-''" "?v ! 52 = CHR ''-''"
    by (simp_all add: nth_append nth_Cons' assms(1,2))
  ultimately show ?thesis
    unfolding validTraceparent_def using assms by simp
qed

lemma newTraceparent_valid:
  assumes "su_trace su = Some ts" "length ts = 16" "\<exists>b \<in> set ts. b \<noteq> 0"
    and "su_span su = Some ss" "length ss = 8" "\<exists>b \<in> set ss. b \<noteq> 0"
  shows "validTraceparent (newTraceparent su)"
proof -
  have "hex_encode ts \<noteq> replicate 32 CHR ''0''" "hex_encode ss \<noteq> replicate 16 CHR ''0''"
    using assms hex_encode_zeros [of ts] hex_encode_zeros [of ss] by auto
  then have "validTraceparent (''00-'' @ hex_encode ts @ ''-'' @ hex_encode ss @ ''-01'')"
    using assms(2,5) hex_encode_is_hex by (intro traceparent_valid) auto
  then show ?thesis using assms(1,4) by (simp add: newTraceparent_def)
qed

lemma new_writer_fresh: "fresh_writer (new_writer i t)"
  by (simp add: fresh_writer_def new_writer_def)

lemma new_writer_headers [simp]:
  "header (wr_Header (new_writer i t)) ''X-Request-Id'' = i" "header (wr_Header (new_writer i t)) ''traceparent'' = t"
  by (simp_all add: new_writer_def)

lemma serveE:
  assumes "serve ax fl sv su r (m, w) = (ans, m', w')"
  obtains (aborted) e where "mux_ServeHTTP ax fl sv m (su_now su) (WithObservability [] (request_id su r) (request_trace su r)) r
        (new_writer (request_id su r) (request_trace su r)) w = (Inl e, w')" "ans = None" "m' = m"
    | (written) wr route where "mux_ServeHTTP ax fl sv m (su_now su) (WithObservability [] (request_id su r) (request_trace su r)) r
        (new_writer (request_id su r) (request_trace su r)) w = (Inr wr, w')" "ans = Some wr"
        "m' = ObserveHTTP fl (ar_Method r) route (wr_status wr) (su_finished su - su_started su) m"
        "route = (case find_route (ar_Method r) (ar_Path r) of Some (pattern, _) \<Rightarrow> pattern | None \<Rightarrow> '''')"
  using assms by (auto simp: serve_def Let_def split: prod.splits sum.splits)

section \<open>Credentials first\<close>

text \<open>The scope that a route asks of an API key.\<close>

definition required_scope :: "route \<Rightarrow> string option" where
  "required_scope rt =
     (case rt of
        CreatePayment \<Rightarrow> Some ''payments:write'' | ListPayments \<Rightarrow> Some ''payments:read'' | GetPayment _ \<Rightarrow> Some ''payments:read''
      | CreateRefund _ \<Rightarrow> Some ''refunds:write'' | ListRefunds _ \<Rightarrow> Some ''refunds:read'' | GetRefund _ \<Rightarrow> Some ''refunds:read''
      | CreatePayout \<Rightarrow> Some ''payouts:write'' | ListPayouts \<Rightarrow> Some ''payouts:read'' | GetPayout _ \<Rightarrow> Some ''payouts:read''
      | _ \<Rightarrow> None)"

definition payout_route :: "route \<Rightarrow> bool" where
  "payout_route rt \<longleftrightarrow> rt = CreatePayout \<or> rt = ListPayouts \<or> (\<exists>i. rt = GetPayout i)"

definition refused :: "go_error + principal \<Rightarrow> string \<Rightarrow> bool" where
  "refused a sc \<longleftrightarrow> (case a of Inl _ \<Rightarrow> True | Inr p \<Rightarrow> pr_Scopes p \<noteq> [] \<and> sc \<notin> set (pr_Scopes p))"

lemma status_writeError [simp]: "fresh_writer w \<Longrightarrow> wr_status (writeError w st code msg) = st"
  by (simp add: fresh_writer_def writeError_def writeJSON_def write_body_def WriteHeader_def set_header_def)

lemma principal_refused:
  assumes "au_Authenticate (sx_auth sv) (bearer r) (wstore w) = (a, st)" and "refused a sc" and "fresh_writer wr"
  shows "\<exists>wr'. with_principal sv wr r sc k w = (Inr wr', w\<lparr>wstore := st\<rparr>) \<and> wr_status wr' = (if isl a then 401 else 403)"
  using assms
  by (auto simp: with_principal_def io_bind_def io_try_def on_store_def refused_def io_return_def split: sum.splits)

lemma route_refused:
  assumes "au_Authenticate (sx_auth sv) (bearer r) (wstore w) = (a, st)" and "refused a sc" and "fresh_writer wr"
    and "required_scope rt = Some sc"
  shows "\<exists>wr' w'. handle_route ax fl sv m now ctx rt r wr w = (Inr wr', w') \<and> wcalls w' = wcalls w \<and>
    (if payout_route rt \<and> sx_payouts sv = None then wr_status wr' = 422 \<and> w' = w
     else wr_status wr' = (if isl a then 401 else 403) \<and> wstore w' = st)"
proof -
  note handlers = api_create_def api_list_def api_get_def api_createRefund_def api_listRefunds_def api_getRefund_def
    api_createPayout_def api_getPayout_def api_listPayouts_def with_payouts_def
  from principal_refused [OF assms(1-3)] have *:
    "\<exists>wr' w'. with_principal sv wr r sc k w = (Inr wr', w') \<and> wcalls w' = wcalls w \<and> wr_status wr' = (if isl a then 401 else 403) \<and> wstore w' = st"
    for k :: "principal \<Rightarrow> ('a world, writer) go_io" by fastforce
  from assms(4) show ?thesis
    by (cases rt; cases "sx_payouts sv") (simp_all add: handle_route_def handlers required_scope_def payout_route_def * io_return_def assms(3))
qed

section \<open>Inside a handler\<close>

lemma principalE:
  assumes "with_principal sv wr r sc k w = (Inr wr', w')" and "fresh_writer wr"
  obtains (refused) "wr_status wr' \<in> {401, 403}"
    | (accepted) p st where "au_Authenticate (sx_auth sv) (bearer r) (wstore w) = (Inr p, st)"
        "pr_Scopes p \<noteq> [] \<longrightarrow> sc \<in> set (pr_Scopes p)" "k p (w\<lparr>wstore := st\<rparr>) = (Inr wr', w')"
  using assms
  by (auto simp: with_principal_def io_bind_def io_try_def on_store_def io_return_def split: prod.splits sum.splits if_splits)

lemma status_mapError: "fresh_writer w \<Longrightarrow> wr_status (mapError w e) \<in> {400, 403, 404, 409, 422, 503}"
  by (simp add: mapError_def)

lemma answerE:
  assumes "answer wr m f w = (Inr wr', w')" and "fresh_writer wr"
  obtains (failed) e where "m w = (Inl e, w')" "wr_status wr' \<in> {400, 403, 404, 409, 422, 503}"
    | (ok) x where "m w = (Inr x, w')" "wr' = f x"
  using assms status_mapError [OF assms(2)]
  by (auto simp: answer_def io_bind_def io_try_def io_return_def io_fail_def split: prod.splits sum.splits if_splits)

lemma bodyE:
  assumes "with_body wr d r k w = (Inr wr', w')" and "fresh_writer wr"
  obtains (garbled) "wr_status wr' = 400" | (ok) x where "d (limited_body r) = Inr x" "k x w = (Inr wr', w')"
  using assms by (auto simp: with_body_def io_return_def split: sum.splits)

lemma limitE:
  assumes "with_limit wr r k w = (Inr wr', w')" and "fresh_writer wr"
  obtains (unusable) "wr_status wr' = 400" | (ok) n where "query_limit r = Some n" "k n w = (Inr wr', w')"
  using assms by (auto simp: with_limit_def io_return_def split: option.splits)

lemma query_limit_bounds: "query_limit r = Some n \<Longrightarrow> 1 \<le> n \<and> n \<le> 100"
  by (auto simp: query_limit_def split: if_splits option.splits)

lemma writeJSON_status [simp]:
  "fresh_writer w \<Longrightarrow> wr_status (writeJSON w st v) = st"
  "fresh_writer w \<Longrightarrow> wr_status (writeJSON (set_header k h w) st v) = st"
  "wr_Body (writeJSON w st v) = wr_Body w @ [BodyJSON v]"
  "k \<noteq> ''Content-Type'' \<Longrightarrow> header (wr_Header (writeJSON w st v)) k = header (wr_Header w) k"
  by (simp_all add: fresh_writer_def writeJSON_def write_body_def WriteHeader_def set_header_def)

lemma set_header_parts [simp]:
  "wr_Body (set_header k v w) = wr_Body w" "header (wr_Header (set_header k v w)) k' = (if k' = k then v else header (wr_Header w) k')"
  by (simp_all add: set_header_def)

section \<open>Creating a payment twice\<close>

text \<open>A successful creation, seen through the handler.\<close>

lemma api_create_201:
  assumes "api_create ax sv now ctx r wr w = (Inr wr', w')" and "fresh_writer wr" and "wr_status wr' = 201"
  obtains p st req pay replayed where
    "au_Authenticate (sx_auth sv) (bearer r) (wstore w) = (Inr p, st)" "pr_Scopes p \<noteq> [] \<longrightarrow> ''payments:write'' \<in> set (pr_Scopes p)"
    "ax_payment ax (limited_body r) = Inr req"
    "Payments_Create (sx_payments sv ctx) now p (payment_of_request p req) (header (ar_Header r) ''Idempotency-Key'')
       (w\<lparr>wstore := st\<rparr>) = (Inr (pay, replayed), w')"
    "wr' = writeJSON (if replayed then set_header ''Idempotent-Replayed'' ''true'' wr else wr) 201 (json_payment (ax_time ax) pay)"
proof -
  from assms(1) obtain p st where p: "au_Authenticate (sx_auth sv) (bearer r) (wstore w) = (Inr p, st)"
    "pr_Scopes p \<noteq> [] \<longrightarrow> ''payments:write'' \<in> set (pr_Scopes p)"
    and body: "with_body wr (ax_payment ax) r (\<lambda>req. answer wr
       (Payments_Create (sx_payments sv ctx) now p (payment_of_request p req) (header (ar_Header r) ''Idempotency-Key''))
       (\<lambda>(result, replayed). writeJSON (if replayed then set_header ''Idempotent-Replayed'' ''true'' wr else wr) 201
          (json_payment (ax_time ax) result))) (w\<lparr>wstore := st\<rparr>) = (Inr wr', w')"
    unfolding api_create_def by (rule principalE [OF _ assms(2)]) (use assms(3) in auto)
  from bodyE [OF body assms(2)] assms(3) obtain req where req: "ax_payment ax (limited_body r) = Inr req"
    and run: "answer wr
       (Payments_Create (sx_payments sv ctx) now p (payment_of_request p req) (header (ar_Header r) ''Idempotency-Key''))
       (\<lambda>(result, replayed). writeJSON (if replayed then set_header ''Idempotent-Replayed'' ''true'' wr else wr) 201
          (json_payment (ax_time ax) result)) (w\<lparr>wstore := st\<rparr>) = (Inr wr', w')"
    by auto
  from run show thesis
  proof (cases rule: answerE [OF _ assms(2), consumes 1, case_names failed ok])
    case (ok x)
    with that [OF p req, of "fst x" "snd x"] show ?thesis by (simp add: split_beta)
  qed (use assms(3) in auto)
qed

lemma api_create_run:
  assumes "au_Authenticate (sx_auth sv) (bearer r) (wstore w) = (Inr p, st)" "pr_Scopes p \<noteq> [] \<longrightarrow> ''payments:write'' \<in> set (pr_Scopes p)"
    and "ax_payment ax (limited_body r) = Inr req"
    and "Payments_Create (sx_payments sv ctx) now p (payment_of_request p req) (header (ar_Header r) ''Idempotency-Key'') (w\<lparr>wstore := st\<rparr>) = (Inr (pay, b), w')"
  shows "api_create ax sv now ctx r wr w =
    (Inr (writeJSON (if b then set_header ''Idempotent-Replayed'' ''true'' wr else wr) 201 (json_payment (ax_time ax) pay)), w')"
  using assms
  by (auto simp: api_create_def with_principal_def with_body_def answer_def io_bind_def io_try_def on_store_def io_return_def)

lemma memory_replays:
  assumes "mem_inv (wstore w)"
    and "Payments_Create (memory_payments rt cn keys b sha marshal) now pr inp key w = (Inr (pay, False), w1)"
  shows "Payments_Create (memory_payments rt' cn' keys b sha marshal) later pr inp key w1 = (Inr (pay, True), w1)"
proof -
  have inv: "mem_inv (wstore w1)" using mem_payments.create_keeps [OF assms(2) _ _ assms(1)] by simp
  from mem_payments.create_success_slot [OF assms(2) _ _ assms(1), of keys, simplified]
  obtain m s1 where res: "au_ResolveMerchant (static_auth keys) pr (cp_MerchantID inp) (wstore w) = (Inr m, s1)"
    and slot: "mem_slot (wstore w1) m key =
      Some (requestHash sha marshal inp, request_tx (memory_payments rt cn keys b sha marshal) m key, True)"
    and saved: "mem_saved (wstore w1) m (request_tx (memory_payments rt cn keys b sha marshal) m key) = Some pay"
    by auto
  have "static_ResolveMerchant pr (cp_MerchantID inp) (wstore w1) = (Inr m, wstore w1)"
    using res by (auto simp: static_auth_def static_resolve_cases split: if_splits)
  with memory_taken [OF inv create_valid [OF assms(2)] _ slot] saved show ?thesis by auto
qed

lemma static_authenticates:
  fixes keys :: "principal gomap" and au :: "'s authenticator"
  defines "au \<equiv> static_auth keys"
  assumes "au_Authenticate au token s = (Inr p, s')"
  shows "s' = s \<and> (\<forall>t. au_Authenticate au token t = (Inr p, t))"
  using assms(2) by (auto simp: au_def static_auth_def static_Authenticate_def split: option.splits)

lemma mux_create:
  assumes "find_route (ar_Method r) (ar_Path r) = Some (pattern, CreatePayment)"
  shows "mux_ServeHTTP ax fl sv m now ctx r wr w = api_create ax sv now ctx r wr w"
  by (simp add: mux_ServeHTTP_def handle_route_def assms)

lemma memory_server_parts [simp]:
  "sx_auth (memory_server cd tr sha marshal vars) = static_auth (static_NewAuth (getenv vars ''API_KEYS''))"
  "sx_payouts (memory_server cd tr sha marshal vars) = None"
  "sx_payments (memory_server cd tr sha marshal vars) ctx = memory_payments (main_router cd tr vars ctx)
     (http_connector cd tr ctx (main_connectors vars)) (static_NewAuth (getenv vars ''API_KEYS'')) (getenv vars ''CHECKOUT_BASE_URL'') sha marshal"
  "fs_native (sx_refunds (memory_server cd tr sha marshal vars) ctx) = None"
  "fs_store (sx_refunds (memory_server cd tr sha marshal vars) ctx) = memory_store"
  by (simp_all add: memory_server_def Let_def http_New_def)

section \<open>Lists\<close>

lemma api_list_200:
  assumes "api_list ax sv ctx r wr w = (Inr wr', w')" and "fresh_writer wr" and "wr_status wr' = 200"
  shows "\<exists>p st limit page. query_limit r = Some limit \<and> wr' = writeJSON wr 200 (json_payment_page (ax_time ax) page) \<and>
    Payments_List (sx_payments sv ctx) p \<lparr>plo_Limit = limit, plo_Cursor = query r ''cursor''\<rparr> (w\<lparr>wstore := st\<rparr>) = (Inr page, w')"
  using assms unfolding api_list_def
  by (elim principalE [OF _ assms(2)] limitE [OF _ assms(2)] answerE [OF _ assms(2)]) auto

lemma api_listPayouts_200:
  assumes "api_listPayouts ax sv ctx r wr w = (Inr wr', w')" and "fresh_writer wr" and "wr_status wr' = 200"
  shows "\<exists>y p st limit page. sx_payouts sv = Some y \<and> query_limit r = Some limit \<and>
    wr' = writeJSON wr 200 (json_payout_page (ax_time ax) page) \<and>
    Payouts_List (y ctx) p \<lparr>polo_Limit = limit, polo_Cursor = query r ''cursor'', polo_Status = query r ''status'',
      polo_ExternalID = query r ''externalId''\<rparr> (w\<lparr>wstore := st\<rparr>) = (Inr page, w')"
proof (cases "sx_payouts sv")
  case None
  with assms show ?thesis by (auto simp: api_listPayouts_def with_payouts_def io_return_def)
next
  case (Some y)
  with assms(1) have "with_principal sv wr r ''payouts:read'' (\<lambda>p. with_limit wr r (\<lambda>limit. answer wr
      (Payouts_List (y ctx) p \<lparr>polo_Limit = limit, polo_Cursor = query r ''cursor'', polo_Status = query r ''status'',
        polo_ExternalID = query r ''externalId''\<rparr>) (\<lambda>result. writeJSON wr 200 (json_payout_page (ax_time ax) result)))) w = (Inr wr', w')"
    by (simp add: api_listPayouts_def with_payouts_def)
  with Some assms(3) show ?thesis
    by (elim principalE [OF _ assms(2)] limitE [OF _ assms(2)] answerE [OF _ assms(2)]) auto
qed

lemma pg_server_parts:
  "sx_payments (pg_server E cd tr marshal marshal_payout vars) ctx =
     pg_payments E (pg_NewAuth [env vars ''DINARIA_ENVIRONMENT'' ''sandbox'']) (main_router cd tr vars ctx)
       (http_connector cd tr ctx (main_connectors vars)) (getenv vars ''CHECKOUT_BASE_URL'') marshal"
  "sx_payouts (pg_server E cd tr marshal marshal_payout vars) = Some (main_payouts E cd tr marshal_payout vars)"
  "sx_auth (pg_server E cd tr marshal marshal_payout vars) = pg_auth E (pg_NewAuth [env vars ''DINARIA_ENVIRONMENT'' ''sandbox''])"
  by (simp_all add: pg_server_def Let_def http_New_def)

definition idempotency_key :: "api_request \<Rightarrow> string" where
  "idempotency_key r = header (ar_Header r) ''Idempotency-Key''"

definition request_ctx :: "surroundings \<Rightarrow> api_request \<Rightarrow> go_context" where
  "request_ctx su r = WithObservability [] (request_id su r) (request_trace su r)"

text \<open>A new payment that was answered with 201, and the answer to a replay.\<close>

lemma serve_created:
  assumes "find_route (ar_Method r) (ar_Path r) = Some (pattern, CreatePayment)"
    and "wr_status wr = 201" and "header (wr_Header wr) ''Idempotent-Replayed'' = ''''"
    and "serve ax fl sv su r (m, w) = (Some wr, m1, w1)"
  shows "\<exists>p st req pay. au_Authenticate (sx_auth sv) (bearer r) (wstore w) = (Inr p, st) \<and>
    (pr_Scopes p \<noteq> [] \<longrightarrow> ''payments:write'' \<in> set (pr_Scopes p)) \<and> ax_payment ax (limited_body r) = Inr req \<and>
    Payments_Create (sx_payments sv (request_ctx su r)) (su_now su) p (payment_of_request p req) (idempotency_key r)
      (w\<lparr>wstore := st\<rparr>) = (Inr (pay, False), w1) \<and>
    wr_Body wr = [BodyJSON (json_payment (ax_time ax) pay)]"
proof -
  let ?w0 = "new_writer (request_id su r) (request_trace su r)"
  have "api_create ax sv (su_now su) (request_ctx su r) r ?w0 w = (Inr wr, w1)"
    using assms(4) by (auto simp: mux_create [OF assms(1)] request_ctx_def elim: serveE)
  then obtain p st req pay replayed where *: "au_Authenticate (sx_auth sv) (bearer r) (wstore w) = (Inr p, st)"
    "pr_Scopes p \<noteq> [] \<longrightarrow> ''payments:write'' \<in> set (pr_Scopes p)" "ax_payment ax (limited_body r) = Inr req"
    "Payments_Create (sx_payments sv (request_ctx su r)) (su_now su) p (payment_of_request p req) (idempotency_key r)
       (w\<lparr>wstore := st\<rparr>) = (Inr (pay, replayed), w1)"
    and wr: "wr = writeJSON (if replayed then set_header ''Idempotent-Replayed'' ''true'' ?w0 else ?w0) 201 (json_payment (ax_time ax) pay)"
    unfolding idempotency_key_def by (rule api_create_201 [OF _ new_writer_fresh assms(2)])
  have "\<not> replayed" using assms(3) by (auto simp: wr)
  with wr have "wr_Body wr = [BodyJSON (json_payment (ax_time ax) pay)]" by (simp add: new_writer_def)
  with * \<open>\<not> replayed\<close> show ?thesis by auto
qed

lemma serve_replayed:
  assumes "find_route (ar_Method r) (ar_Path r) = Some (pattern, CreatePayment)"
    and "au_Authenticate (sx_auth sv) (bearer r) (wstore w) = (Inr p, st)"
    and "pr_Scopes p \<noteq> [] \<longrightarrow> ''payments:write'' \<in> set (pr_Scopes p)" and "ax_payment ax (limited_body r) = Inr req"
    and "Payments_Create (sx_payments sv (request_ctx su r)) (su_now su) p (payment_of_request p req) (idempotency_key r)
      (w\<lparr>wstore := st\<rparr>) = (Inr (pay, True), w')"
  shows "\<exists>wr m'. serve ax fl sv su r (m, w) = (Some wr, m', w') \<and> wr_status wr = 201 \<and>
    header (wr_Header wr) ''Idempotent-Replayed'' = ''true'' \<and> wr_Body wr = [BodyJSON (json_payment (ax_time ax) pay)]"
proof -
  let ?w0 = "new_writer (request_id su r) (request_trace su r)"
  from api_create_run [OF assms(2-4) assms(5) [unfolded idempotency_key_def]]
  have "mux_ServeHTTP ax fl sv m (su_now su) (WithObservability [] (request_id su r) (request_trace su r)) r ?w0 w =
      (Inr (writeJSON (set_header ''Idempotent-Replayed'' ''true'' ?w0) 201 (json_payment (ax_time ax) pay)), w')"
    by (simp add: mux_create [OF assms(1)] request_ctx_def)
  then show ?thesis by (auto simp: serve_def Let_def new_writer_fresh) (simp_all add: new_writer_def)
qed

lemma pg_authenticated:
  assumes "au_Authenticate (pg_auth E cfg) token s = (r, s')"
  shows "pg_db s' = pg_db s \<and> (pg_inv E s \<longrightarrow> pg_inv E s') \<and> (pg_up E s \<longrightarrow> pg_up E s')"
proof -
  from assms have run: "pg_Authenticate E cfg token s = (r, s')" by (simp add: pg_auth_def)
  from pg_Authenticate_db [OF run] ticks_up [OF ticks_pg_Authenticate run] show ?thesis by (simp add: pg_inv_def)
qed

lemma pg_payments_listed:
  assumes "Payments_List (pg_payments E cfg rt cn b marshal) p opts w = (Inr page, w')"
  shows "length (pp_Data page) \<le> nat (list_limit (plo_Limit opts))"
proof -
  from assms obtain page' s' where "pg_List E (pr_AccountID p) (pr_MerchantID p) opts (wstore w) = (Inr page', s')"
    and page: "pp_Data page = map (normalizeRead (trim_right b CHR ''/'')) (pp_Data page')"
    by (auto simp: Payments_List_def pg_store_def io_return_def elim!: io_bindE dest!: on_storeD)
  then have "length (pp_Data page') \<le> nat (list_limit (plo_Limit opts))"
    unfolding pg_List_def Let_def
    by (auto simp: io_fail_def split: sum.splits elim!: db_queryE)
  then show ?thesis by (simp add: page)
qed

lemma pg_payouts_listed:
  assumes "Payouts_List (main_payouts E cd tr marshal vars ctx) p opts w = (Inr page, w')"
  shows "length (pop_Data page) \<le> nat (payout_limit (polo_Limit opts))"
proof -
  from assms obtain s' where "pg_ListPayouts E p opts (wstore w) = (Inr page, s')"
    by (auto simp: main_payouts_def Payouts_List_def pg_payout_store_def dest!: on_storeD)
  then show ?thesis unfolding pg_ListPayouts_def Let_def
    by (elim db_queryE) (auto split: if_splits)
qed

lemma static_no_scopes:
  assumes "mget (static_NewAuth spec) token = Some p"
  shows "pr_Scopes p = []"
proof -
  have "mget (fold (\<lambda>entry keys. case auth_entry entry of None \<Rightarrow> keys | Some (k, p) \<Rightarrow> mput k p keys) entries keys) token = Some p \<Longrightarrow>
      (\<And>q. mget keys token = Some q \<Longrightarrow> pr_Scopes q = []) \<Longrightarrow> pr_Scopes p = []" for entries keys
  proof (induction entries arbitrary: keys)
    case (Cons e entries)
    show ?case
    proof (rule Cons.IH)
      fix q
      assume "mget (case auth_entry e of None \<Rightarrow> keys | Some (k, p) \<Rightarrow> mput k p keys) token = Some q"
      then show "pr_Scopes q = []" using Cons.prems(2)
        by (auto simp: auth_entry_def split: option.splits list.splits if_splits)
    qed (use Cons.prems(1) in simp)
  qed simp
  from this [of "split_on CHR '','' spec" "[]"] assms show ?thesis by (simp add: static_NewAuth_def)
qed

section \<open>Example\<close>

text \<open>One API key, one connector; every service answers 200 and the DTOs decode to those of the examples.\<close>

definition ex_vars :: "string gomap" where
  "ex_vars = [(''API_KEYS'', ''k1=account1:merchant1''), (''CONNECTORS'', ''connector-test=http://c''), (''SERVICE_TOKEN'', ''t'')]"

definition ex_codec :: codec where
  "ex_codec = \<lparr>cd_time = (\<lambda>t. JNull), cd_route = (\<lambda>_. Inr ex_route), cd_payment = (\<lambda>_. Inr ex_provider_payment),
     cd_refund = (\<lambda>_. Inl ErrInvalid), cd_payout = (\<lambda>_. Inl ErrInvalid), cd_legacy = (\<lambda>_. Inl ErrInvalid), cd_legacy_list = (\<lambda>_. Inl ErrInvalid)\<rparr>"

definition ex_transport :: "history \<Rightarrow> transport" where
  "ex_transport h q = Inr \<lparr>hs_Status = 200, hs_Header = [], hs_Body = ''''\<rparr>"

definition ex_order :: create_request where
  "ex_order = \<lparr>cq_MerchantID = '''', cq_ExternalID = ''order1'', cq_Amount = ''0.25'', cq_Currency = ''USDT'',
     cq_PaymentMethod = ''crypto_payment'', cq_Rail = '''', cq_DestinationMode = '''', cq_Description = '''',
     cq_Customer = [(''country'', JStr ''UY'')], cq_SuccessURL = '''', cq_CancelURL = '''', cq_ExpirationDate = 0, cq_Metadata = []\<rparr>"

definition ex_api_codec :: api_codec where
  "ex_api_codec = \<lparr>ax_payment = (\<lambda>_. Inr ex_order), ax_refund = (\<lambda>_. Inl ErrInvalid), ax_payout = (\<lambda>_. Inl ErrInvalid),
     ax_event = (\<lambda>_. Inl ErrInvalid), ax_time = (\<lambda>t. JNum (decimal_int t))\<rparr>"

definition ex_surroundings :: surroundings where
  "ex_surroundings = \<lparr>su_id = Some (replicate 16 1), su_trace = Some (replicate 16 1), su_span = Some (replicate 8 1),
     su_started = 0, su_stamp = 0, su_now = 1000000, su_finished = 5\<rparr>"

definition ex_api_request :: "string \<Rightarrow> string list \<Rightarrow> string \<Rightarrow> api_request" where
  "ex_api_request meth path token = \<lparr>ar_Method = meth, ar_Path = path,
     ar_Header = [(''Authorization'', ''Bearer '' @ token), (''Idempotency-Key'', ''key1'')], ar_Query = [], ar_Body = ''{}''\<rparr>"

definition ex_memory_server :: "mem_store server" where
  "ex_memory_server = memory_server ex_codec ex_transport (\<lambda>_. replicate 32 0) cp_Amount ex_vars"

definition ex_pg_server :: "pgstate server" where
  "ex_pg_server = pg_server ex_flat_env ex_codec ex_transport cp_Amount (\<lambda>_. '''') ex_vars"

definition ex_key_db :: pgdb where
  "ex_key_db = empty_db\<lparr>db_accounts := [\<lparr>ac_id = ''account1'', ac_status = ''active''\<rparr>],
     db_api_keys := [\<lparr>ak_key_hash = hex_encode (replicate 32 0), ak_account_id = ''account1'', ak_merchant_id = Some ''merchant1'',
       ak_scopes = None, ak_revoked_at = None, ak_expires_at = None, ak_environment = None, ak_allowed_api_versions = None\<rparr>]\<rparr>"

definition ex_key_world :: "pgstate world" where
  "ex_key_world = \<lparr>wstore = \<lparr>pg_db = ex_key_db, pg_tick = 0\<rparr>, wcalls = []\<rparr>"

definition ex_paid_world :: "mem_store world" where
  "ex_paid_world = \<lparr>wstore = ex_paid_store ''confirmed''\<lparr>ms_payments := [(''t1'', zero_payment\<lparr>pay_TransactionID := ''t1'',
     pay_MerchantID := ''merchant1'', pay_Origin := ''v2''\<rparr>)]\<rparr>, wcalls = []\<rparr>"

definition ex_serve :: "'s server \<Rightarrow> api_request \<Rightarrow> int metrics \<times> 's world \<Rightarrow> writer option \<times> int metrics \<times> 's world" where
  "ex_serve sv = serve ex_api_codec ex_floats sv ex_surroundings"

lemma ex_main_values:
  "static_NewAuth (getenv ex_vars ''API_KEYS'') = [(''k1'', ex_principal)]"
  "connector_urls ex_vars = [(''connector-test'', ''http://c'')]"
  by (code_simp, code_simp)

lemma ex_main_services:
  "ro_Resolve (main_router ex_codec ex_transport ex_vars ctx) h rq = Inr ex_route"
  "co_CreatePayment (http_connector ex_codec ex_transport ctx (main_connectors ex_vars)) h ex_route p u v = Inr ex_provider_payment"
  by (simp_all add: main_router_def http_router_def router_Resolve_def postJSON_def ex_transport_def ex_codec_def status_ok_def
      http_connector_def connectors_CreatePayment_def with_connector_def main_connectors_def NewConnectors_def ex_main_values ex_route_def)

lemma ex_order_request: "payment_of_request ex_principal ex_order = ex_request\<lparr>cp_AccountID := ''account1''\<rparr>"
  by (simp add: payment_of_request_def ex_order_def ex_request_def ex_principal_def)

lemma ex_order_created:
  "\<exists>pay w1. Payments_Create (sx_payments ex_memory_server ctx) 1000000 ex_principal (payment_of_request ex_principal ex_order) ''key1'' ex_world =
     (Inr (pay, False), w1)"
  unfolding ex_order_request by (simp add: ex_memory_server_def ex_main_values ex_main_services Payments_Create_def memory_store_def static_auth_def
      mem_BeginCreate_def ex_world_def mem_NewStore_def create_reserved_def create_invalid_def ex_request_def static_resolve_cases ex_principal_def io_bind_def io_on_error_def io_wrap_def
      ext_call_def on_store_def Let_def mem_CompleteCreate_def io_simps completed_payment_def new_payment_def)

definition ex_creation :: api_request where
  "ex_creation = ex_api_request ''POST'' [''v2'', ''payments''] ''k1''"

lemma ex_creation_parts:
  "bearer ex_creation = ''k1''" "idempotency_key ex_creation = ''key1''"
  "find_route (ar_Method ex_creation) (ar_Path ex_creation) = Some (''POST /v2/payments'', CreatePayment)"
  by (code_simp, code_simp, code_simp)

lemma ex_order_stored:
  "\<exists>pay w1. Payments_Create (sx_payments ex_pg_server ctx) 1000000 ex_principal (payment_of_request ex_principal ex_order) ''key1''
     (ex_key_world\<lparr>wstore := st\<rparr>) = (Inr (pay, False), w1) \<and>
     db_api_keys (pg_db (wstore w1)) = db_api_keys ex_key_db \<and> db_accounts (pg_db (wstore w1)) = db_accounts ex_key_db"
  if "pg_db st = ex_key_db"
  unfolding ex_order_request
  by (simp add: that ex_pg_server_def pg_server_parts ex_main_services pg_run_simps ex_key_world_def ex_key_db_def empty_db_def
      ex_principal_def create_invalid_def ex_request_def ex_flat_env_def ex_env_def completed_payment_def new_payment_def created_event_def sql_conflict_def fan_out_def sql_count_def idem_key_def)

text \<open>A creation that succeeds in the service is answered 201.\<close>

lemma ex_create_answer:
  assumes "au_Authenticate (sx_auth sv) ''k1'' (wstore w) = (Inr ex_principal, st)"
    and "Payments_Create (sx_payments sv (request_ctx ex_surroundings ex_creation)) 1000000 ex_principal
      (payment_of_request ex_principal ex_order) ''key1'' (w\<lparr>wstore := st\<rparr>) = (Inr (pay, False), w1)"
  shows "\<exists>wr m1. ex_serve sv ex_creation (no_metrics, w) = (Some wr, m1, w1) \<and> wr_status wr = 201 \<and>
    header (wr_Header wr) ''Idempotent-Replayed'' = ''''"
proof -
  let ?w0 = "new_writer (request_id ex_surroundings ex_creation) (request_trace ex_surroundings ex_creation)"
  let ?ctx = "request_ctx ex_surroundings ex_creation"
  have "au_Authenticate (sx_auth sv) (bearer ex_creation) (wstore w) = (Inr ex_principal, st)" using assms(1) by (simp add: ex_creation_parts)
  moreover have "pr_Scopes ex_principal \<noteq> [] \<longrightarrow> ''payments:write'' \<in> set (pr_Scopes ex_principal)" by (simp add: ex_principal_def)
  moreover have "ax_payment ex_api_codec (limited_body ex_creation) = Inr ex_order" by (simp add: ex_api_codec_def)
  moreover have "Payments_Create (sx_payments sv ?ctx) 1000000 ex_principal (payment_of_request ex_principal ex_order)
      (header (ar_Header ex_creation) ''Idempotency-Key'') (w\<lparr>wstore := st\<rparr>) = (Inr (pay, False), w1)"
    using assms(2) by (simp add: ex_creation_parts(2) [unfolded idempotency_key_def])
  ultimately have "api_create ex_api_codec sv 1000000 ?ctx ex_creation ?w0 w = (Inr (writeJSON ?w0 201 (json_payment (ax_time ex_api_codec) pay)), w1)"
    using api_create_run by fastforce
  moreover have "su_now ex_surroundings = 1000000" by (simp add: ex_surroundings_def)
  ultimately show ?thesis
    by (simp add: ex_serve_def serve_def Let_def mux_create [OF ex_creation_parts(3)] new_writer_fresh request_ctx_def)
       (simp add: new_writer_def header_def)
qed

lemma ex_created:
  "\<exists>wr m1 w1. ex_serve ex_memory_server ex_creation (no_metrics, ex_world) = (Some wr, m1, w1) \<and> wr_status wr = 201 \<and>
     header (wr_Header wr) ''Idempotent-Replayed'' = ''''"
proof -
  have "au_Authenticate (sx_auth ex_memory_server) ''k1'' (wstore ex_world) = (Inr ex_principal, wstore ex_world)"
    by (simp add: ex_memory_server_def ex_main_values static_auth_def static_Authenticate_def)
  note answer = ex_create_answer [where sv = ex_memory_server, OF this]
  obtain pay w1 where "Payments_Create (sx_payments ex_memory_server (request_ctx ex_surroundings ex_creation)) 1000000 ex_principal
      (payment_of_request ex_principal ex_order) ''key1'' ex_world = (Inr (pay, False), w1)"
    using ex_order_created by blast
  then show ?thesis using answer [of pay w1] by auto
qed

lemma ex_key_accepted: "\<exists>st'. au_Authenticate (sx_auth ex_pg_server) ''k1'' st = (Inr ex_principal, st') \<and> pg_db st' = pg_db st"
  if "db_api_keys (pg_db st) = db_api_keys ex_key_db" "db_accounts (pg_db st) = db_accounts ex_key_db"
  by (simp add: that ex_pg_server_def pg_server_parts pg_auth_def pg_Authenticate_def db_call_def Let_def ex_flat_env_def ex_env_def
      ex_key_db_def key_valid_def key_principal_def ex_principal_def coalesce_def io_simps)

lemma ex_stored:
  "\<exists>wr m1 w1. ex_serve ex_pg_server ex_creation (no_metrics, ex_key_world) = (Some wr, m1, w1) \<and> wr_status wr = 201 \<and>
     header (wr_Header wr) ''Idempotent-Replayed'' = '''' \<and>
     fst (au_Authenticate (sx_auth ex_pg_server) (bearer ex_creation) (wstore w1)) =
     fst (au_Authenticate (sx_auth ex_pg_server) (bearer ex_creation) (wstore ex_key_world))"
proof -
  have "pg_db (wstore ex_key_world) = ex_key_db" by (simp add: ex_key_world_def)
  then obtain st where auth: "au_Authenticate (sx_auth ex_pg_server) ''k1'' (wstore ex_key_world) = (Inr ex_principal, st)" "pg_db st = ex_key_db"
    using ex_key_accepted [of "wstore ex_key_world"] by auto
  obtain pay w1 where run: "Payments_Create (sx_payments ex_pg_server (request_ctx ex_surroundings ex_creation)) 1000000 ex_principal
      (payment_of_request ex_principal ex_order) ''key1'' (ex_key_world\<lparr>wstore := st\<rparr>) = (Inr (pay, False), w1)"
    and keys: "db_api_keys (pg_db (wstore w1)) = db_api_keys ex_key_db" "db_accounts (pg_db (wstore w1)) = db_accounts ex_key_db"
    using ex_order_stored [OF auth(2)] by blast
  obtain wr m1 where "ex_serve ex_pg_server ex_creation (no_metrics, ex_key_world) = (Some wr, m1, w1)" "wr_status wr = 201"
    "header (wr_Header wr) ''Idempotent-Replayed'' = ''''" using ex_create_answer [where sv = ex_pg_server, OF auth(1) run] by blast
  moreover have "fst (au_Authenticate (sx_auth ex_pg_server) (bearer ex_creation) (wstore w1)) = Inr ex_principal"
    using ex_key_accepted [OF keys] by (auto simp: ex_creation_parts)
  moreover have "fst (au_Authenticate (sx_auth ex_pg_server) (bearer ex_creation) (wstore ex_key_world)) = Inr ex_principal"
    using auth(1) by (simp add: ex_creation_parts)
  ultimately show ?thesis by auto
qed

lemma ex_list_status:
  "map_option wr_status (fst (ex_serve ex_pg_server (ex_api_request ''GET'' [''v2'', ''payments''] ''k1'') (no_metrics, ex_key_world))) = Some 200"
  by code_simp

section \<open>Properties\<close>

text \<open>
  C25: every request is answered once and is identified. Whatever the route and whatever the services do, a handler that
  does not panic sends one status and one body; the status is the one that is counted. The answer carries a valid request
  identifier and a valid trace context: those of the request when it sent valid ones, otherwise new ones.
\<close>

theorem api_answers_once:
  assumes "serve ax fl sv su r (m, w) = (Some wr, m', w')"
    and "su_id su = Some raw" "length raw = 16"
    and "su_trace su = Some ts" "length ts = 16" "\<exists>b \<in> set ts. b \<noteq> 0"
    and "su_span su = Some ss" "length ss = 8" "\<exists>b \<in> set ss. b \<noteq> 0"
  shows "wr_sent wr = Some (wr_status wr) \<and> length (wr_Body wr) = 1 \<and>
    validRequestID (header (wr_Header wr) ''X-Request-Id'') \<and> validTraceparent (header (wr_Header wr) ''traceparent'') \<and>
    (validRequestID (header (ar_Header r) ''X-Request-Id'') \<longrightarrow>
       header (wr_Header wr) ''X-Request-Id'' = header (ar_Header r) ''X-Request-Id'') \<and>
    (validTraceparent (header (ar_Header r) ''traceparent'') \<longrightarrow>
       header (wr_Header wr) ''traceparent'' = header (ar_Header r) ''traceparent'') \<and>
    (\<exists>route. m' = ObserveHTTP fl (ar_Method r) route (wr_status wr) (su_finished su - su_started su) m)"
  using assms(1)
proof (cases rule: serveE)
  case (written wr' route)
  let ?w0 = "new_writer (request_id su r) (request_trace su r)"
  have "answered ?w0 wr"
    using mux_answered [OF new_writer_fresh] written(1,2) unfolding returns_def by blast
  then have "header (wr_Header wr) ''X-Request-Id'' = request_id su r" "header (wr_Header wr) ''traceparent'' = request_trace su r"
    "wr_sent wr = Some (wr_status wr)" "length (wr_Body wr) = 1"
    by (simp_all add: answered_def)
  moreover have "validRequestID (request_id su r)" "validTraceparent (request_trace su r)"
    using newRequestID_valid [OF assms(2,3)] newTraceparent_valid [OF assms(4-9)]
    by (simp_all add: request_id_def request_trace_def)
  moreover have "\<exists>route. m' = ObserveHTTP fl (ar_Method r) route (wr_status wr) (su_finished su - su_started su) m"
    using written(2,3) by blast
  ultimately show ?thesis by (simp add: request_id_def request_trace_def)
qed simp

theorem api_answers_once_witness:
  "\<exists>wr m w. ex_serve ex_memory_server (ex_api_request ''GET'' [''v2'', ''nothing''] ''k1'') (no_metrics, ex_world) = (Some wr, m, w) \<and>
     wr_sent wr = Some 404 \<and> validRequestID (header (wr_Header wr) ''X-Request-Id'') \<and>
     validTraceparent (header (wr_Header wr) ''traceparent'')"
proof -
  let ?r = "ex_api_request ''GET'' [''v2'', ''nothing''] ''k1''"
  have "path_routes (ar_Path ?r) = []" by code_simp
  then obtain wr m w where run: "ex_serve ex_memory_server ?r (no_metrics, ex_world) = (Some wr, m, w)" and "wr_status wr = 404"
    by (simp add: ex_serve_def serve_def Let_def mux_ServeHTTP_def find_route_def http_NotFound_def io_return_def http_error_def
        write_body_def WriteHeader_def set_header_def new_writer_def)
  with api_answers_once [OF run [unfolded ex_serve_def], of "replicate 16 1" "replicate 16 1" "replicate 8 1"] show ?thesis
    by (simp add: ex_surroundings_def)
qed

text \<open>
  C12: credentials come first. On every route for merchants, a request whose key is refused is answered with 401, and one whose
  key lacks the scope of the route with 403, before its body is read or a service is called: no call leaves the process,
  and the store is as the authenticator left it. Only where no payout store is configured the answer of the payout routes
  is 422, without a look at the key. A provider event without the service token is answered with 401 and changes nothing.
\<close>

theorem api_credentials_first:
  assumes "find_route (ar_Method r) (ar_Path r) = Some (pattern, rt)"
    and "au_Authenticate (sx_auth sv) (bearer r) (wstore w) = (a, st)"
  shows "\<exists>ans m' w'. serve ax fl sv su r (m, w) = (ans, m', w') \<and>
    (required_scope rt = Some sc \<and> refused a sc \<longrightarrow> wcalls w' = wcalls w \<and> (\<exists>wr. ans = Some wr \<and>
       (if payout_route rt \<and> sx_payouts sv = None then wr_status wr = 422 \<and> w' = w
        else wr_status wr = (if isl a then 401 else 403) \<and> wstore w' = st))) \<and>
    (rt = PostEvent \<and> (sx_serviceToken sv = '''' \<or> bearer r \<noteq> sx_serviceToken sv) \<longrightarrow>
       w' = w \<and> (\<exists>wr. ans = Some wr \<and> wr_status wr = 401))"
proof -
  obtain ans m' w' where run: "serve ax fl sv su r (m, w) = (ans, m', w')" by (metis prod_cases3)
  let ?w0 = "new_writer (request_id su r) (request_trace su r)" and ?ctx = "WithObservability [] (request_id su r) (request_trace su r)"
  have mux: "mux_ServeHTTP ax fl sv m (su_now su) ?ctx r ?w0 w = handle_route ax fl sv m (su_now su) ?ctx rt r ?w0 w"
    by (simp add: mux_ServeHTTP_def assms(1))
  have merchant: "wcalls w' = wcalls w \<and> (\<exists>wr. ans = Some wr \<and>
       (if payout_route rt \<and> sx_payouts sv = None then wr_status wr = 422 \<and> w' = w
        else wr_status wr = (if isl a then 401 else 403) \<and> wstore w' = st))"
    if "required_scope rt = Some sc" "refused a sc"
    using route_refused [OF assms(2) that(2) new_writer_fresh that(1), of ax fl m "su_now su" ?ctx "request_id su r" "request_trace su r"] run
    by (auto simp: mux elim!: serveE)
  have provider: "w' = w \<and> (\<exists>wr. ans = Some wr \<and> wr_status wr = 401)"
    if "rt = PostEvent" "sx_serviceToken sv = '''' \<or> bearer r \<noteq> sx_serviceToken sv"
    using run that by (auto simp: mux handle_route_def api_providerEvent_def io_return_def new_writer_fresh elim!: serveE)
  show ?thesis using run merchant provider by blast
qed

theorem api_credentials_first_witness:
  "\<exists>wr m w. ex_serve ex_memory_server (ex_api_request ''GET'' [''v2'', ''payments'', ''t1''] ''wrong'') (no_metrics, ex_paid_world) = (Some wr, m, w) \<and>
     wr_status wr = 401 \<and> wstore w = wstore ex_paid_world"
proof -
  let ?r = "ex_api_request ''GET'' [''v2'', ''payments'', ''t1''] ''wrong''"
  have route: "find_route (ar_Method ?r) (ar_Path ?r) = Some (''GET /v2/payments/{transactionId}'', GetPayment ''t1'')" by code_simp
  have "bearer ?r = ''wrong''" by code_simp
  then have "au_Authenticate (sx_auth ex_memory_server) (bearer ?r) (wstore ex_paid_world) =
      (Inl (ErrOther ''invalid api key''), wstore ex_paid_world)"
    by (simp add: ex_memory_server_def ex_main_values static_auth_def static_Authenticate_def)
  from api_credentials_first [OF route this, of ex_api_codec ex_floats ex_surroundings no_metrics "''payments:read''"] show ?thesis
    by (auto simp: ex_serve_def required_scope_def refused_def payout_route_def)
qed

text \<open>
  C11: creation through HTTP is idempotent, in the program without a database and in the program with PostgreSQL. When a
  creation was answered with a new payment, the same request sent again next, at whatever time, is answered 201 and marked
  as a replay, no call leaves the process and no payment or key changes. Without a database the body is the same; with
  PostgreSQL, while it answers and accepts the API key as before, the body is the same but for the dates, which are read
  back in microseconds (\<^term>\<open>pg_reread\<close>).
\<close>

theorem api_create_idempotent:
  assumes "find_route (ar_Method r) (ar_Path r) = Some (pattern, CreatePayment)"
    and "wr_status wr = 201" and "header (wr_Header wr) ''Idempotent-Replayed'' = ''''"
  shows "(mem_inv (wstore v) \<and> serve ax fl (memory_server cd tr sha marshal vars) su r (m, v) = (Some wr, m1, v1) \<longrightarrow>
      (\<exists>wr2 m3. serve ax fl (memory_server cd tr sha marshal vars) later r (m2, v1) = (Some wr2, m3, v1) \<and>
        wr_status wr2 = 201 \<and> wr_Body wr2 = wr_Body wr \<and> header (wr_Header wr2) ''Idempotent-Replayed'' = ''true'')) \<and>
    (pg_inv E (wstore w) \<and> pg_up E (wstore w) \<and> digest_ok E \<and>
      serve ax fl (pg_server E cd tr marshal marshal_payout vars) su r (m, w) = (Some wr, m1, w1) \<and>
      fst (au_Authenticate (sx_auth (pg_server E cd tr marshal marshal_payout vars)) (bearer r) (wstore w1)) =
      fst (au_Authenticate (sx_auth (pg_server E cd tr marshal marshal_payout vars)) (bearer r) (wstore w)) \<longrightarrow>
      (\<exists>wr2 m3 w2 pay. serve ax fl (pg_server E cd tr marshal marshal_payout vars) later r (m2, w1) = (Some wr2, m3, w2) \<and>
        wr_status wr2 = 201 \<and> header (wr_Header wr2) ''Idempotent-Replayed'' = ''true'' \<and>
        wr_Body wr = [BodyJSON (json_payment (ax_time ax) pay)] \<and> wr_Body wr2 = [BodyJSON (json_payment (ax_time ax) (pg_reread pay))] \<and>
        wcalls w2 = wcalls w1 \<and> pg_db (wstore w2) = pg_db (wstore w1)))"
proof (intro conjI impI, goal_cases)
  case 1
  let ?sv = "memory_server cd tr sha marshal vars"
  obtain p st req pay where auth: "au_Authenticate (sx_auth ?sv) (bearer r) (wstore v) = (Inr p, st)"
    and rest: "pr_Scopes p \<noteq> [] \<longrightarrow> ''payments:write'' \<in> set (pr_Scopes p)" "ax_payment ax (limited_body r) = Inr req"
    and run: "Payments_Create (sx_payments ?sv (request_ctx su r)) (su_now su) p (payment_of_request p req) (idempotency_key r)
      (v\<lparr>wstore := st\<rparr>) = (Inr (pay, False), v1)"
    and body: "wr_Body wr = [BodyJSON (json_payment (ax_time ax) pay)]"
    using 1 serve_created [OF assms] by blast
  from auth have st: "st = wstore v" "\<And>t. au_Authenticate (sx_auth ?sv) (bearer r) t = (Inr p, t)"
    using static_authenticates [OF auth [unfolded memory_server_parts]] unfolding memory_server_parts by blast+
  with run 1 have "Payments_Create (sx_payments ?sv c) now p (payment_of_request p req) (idempotency_key r) (v1\<lparr>wstore := wstore v1\<rparr>) =
      (Inr (pay, True), v1)" for c now
    using memory_replays [of v] by simp
  from serve_replayed [OF assms(1) st(2) rest this, of fl later m2] show ?case by (auto simp: body)
next
  case 2
  let ?sv = "pg_server E cd tr marshal marshal_payout vars"
  obtain p st req pay where auth: "au_Authenticate (sx_auth ?sv) (bearer r) (wstore w) = (Inr p, st)"
    and rest: "pr_Scopes p \<noteq> [] \<longrightarrow> ''payments:write'' \<in> set (pr_Scopes p)" "ax_payment ax (limited_body r) = Inr req"
    and run: "Payments_Create (sx_payments ?sv (request_ctx su r)) (su_now su) p (payment_of_request p req) (idempotency_key r)
      (w\<lparr>wstore := st\<rparr>) = (Inr (pay, False), w1)"
    and body: "wr_Body wr = [BodyJSON (json_payment (ax_time ax) pay)]"
    using 2 serve_created [OF assms] by blast
  obtain st2 where auth2: "au_Authenticate (sx_auth ?sv) (bearer r) (wstore w1) = (Inr p, st2)"
    using auth 2 by (metis fst_conv prod.collapse)
  note ticking = auth auth2
  have st: "pg_inv E st" "pg_up E st" using pg_authenticated [OF auth [unfolded pg_server_parts]] 2 by auto
  with run have up1: "pg_up E (wstore w1)"
    using pg_service.create_keeps [OF run [unfolded pg_server_parts] pg_payments_parts(1,2)] by simp
  have st2: "pg_db st2 = pg_db (wstore w1)" "pg_up E st2"
    using pg_authenticated [OF auth2 [unfolded pg_server_parts]] up1 by auto
  obtain w2 where again: "Payments_Create (sx_payments ?sv (request_ctx later r)) (su_now later) p (payment_of_request p req) (idempotency_key r)
      (w1\<lparr>wstore := st2\<rparr>) = (Inr (pg_reread pay, True), w2)" and same: "wcalls w2 = wcalls w1" "pg_db (wstore w2) = pg_db (wstore w1)"
    using pg_replays [of E "w\<lparr>wstore := st\<rparr>", OF _ _ _ run [unfolded pg_server_parts], of "w1\<lparr>wstore := st2\<rparr>"
        "main_router cd tr vars (request_ctx later r)" "http_connector cd tr (request_ctx later r) (main_connectors vars)" "su_now later"] st st2 2
    unfolding pg_server_parts by auto
  from serve_replayed [OF assms(1) auth2 rest again, of fl m2] same show ?case by (auto simp: body)
qed

theorem api_create_idempotent_witness:
  "(\<exists>wr wr2 m1 w1 m2. ex_serve ex_memory_server ex_creation (no_metrics, ex_world) = (Some wr, m1, w1) \<and>
     ex_serve ex_memory_server ex_creation (m1, w1) = (Some wr2, m2, w1) \<and>
     wr_Body wr2 = wr_Body wr \<and> header (wr_Header wr2) ''Idempotent-Replayed'' = ''true'') \<and>
   (\<exists>wr wr2 m1 w1 m2 w2. ex_serve ex_pg_server ex_creation (no_metrics, ex_key_world) = (Some wr, m1, w1) \<and>
     ex_serve ex_pg_server ex_creation (m1, w1) = (Some wr2, m2, w2) \<and>
     header (wr_Header wr2) ''Idempotent-Replayed'' = ''true'' \<and> pg_db (wstore w2) = pg_db (wstore w1))"
proof (rule conjI, goal_cases)
  case 1
  obtain wr m1 w1 where run: "ex_serve ex_memory_server ex_creation (no_metrics, ex_world) = (Some wr, m1, w1)" "wr_status wr = 201"
    "header (wr_Header wr) ''Idempotent-Replayed'' = ''''" using ex_created by blast
  have inv: "mem_inv (wstore ex_world)" by (simp add: ex_world_def mem_inv_new)
  from api_create_idempotent [OF ex_creation_parts(3) run(2,3), THEN conjunct1, rule_format, OF conjI,
      OF inv run(1) [unfolded ex_serve_def ex_memory_server_def], of ex_surroundings m1] run(1)
  show ?case unfolding ex_serve_def ex_memory_server_def by blast
next
  case 2
  obtain wr m1 w1 where run: "ex_serve ex_pg_server ex_creation (no_metrics, ex_key_world) = (Some wr, m1, w1)" "wr_status wr = 201"
    "header (wr_Header wr) ''Idempotent-Replayed'' = ''''"
    and key: "fst (au_Authenticate (sx_auth ex_pg_server) (bearer ex_creation) (wstore w1)) =
      fst (au_Authenticate (sx_auth ex_pg_server) (bearer ex_creation) (wstore ex_key_world))" using ex_stored by blast
  have inv: "pg_inv ex_flat_env (wstore ex_key_world)"
    using ex_flat_laws(1) by (simp add: ex_key_world_def ex_key_db_def pg_inv_def pg_inv_db_def empty_db_def)
  from api_create_idempotent [OF ex_creation_parts(3) run(2,3), THEN conjunct2, rule_format, OF conjI, OF inv conjI, OF ex_flat_up conjI,
      OF ex_flat_laws(2) conjI, OF run(1) [unfolded ex_serve_def ex_pg_server_def] key [unfolded ex_pg_server_def], of ex_surroundings m1] run(1)
  show ?case unfolding ex_serve_def ex_pg_server_def by blast
qed

text \<open>
  C24: pages are bounded. A list of payments or payouts that the program with a database answers with 200 has at most as
  many entries as the request asked for, which is between 1 and 100, and 50 when it did not ask.
\<close>

theorem api_pages_bounded:
  assumes "find_route (ar_Method r) (ar_Path r) = Some (pattern, rt)" and "rt = ListPayments \<or> rt = ListPayouts"
    and "serve ax fl (pg_server E cd tr marshal marshal_payout vars) su r (m, w) = (Some wr, m1, w1)"
    and "wr_status wr = 200"
  shows "\<exists>limit j items. query_limit r = Some limit \<and> 1 \<le> limit \<and> limit \<le> 100 \<and> wr_Body wr = [BodyJSON j] \<and>
    json_field j ''data'' = Some (JArr items) \<and> length items \<le> nat limit"
proof -
  let ?sv = "pg_server E cd tr marshal marshal_payout vars"
  let ?w0 = "new_writer (request_id su r) (request_trace su r)" and ?ctx = "WithObservability [] (request_id su r) (request_trace su r)"
  have run: "handle_route ax fl ?sv m (su_now su) ?ctx rt r ?w0 w = (Inr wr, w1)"
    using assms(3) by (auto simp: mux_ServeHTTP_def assms(1) elim: serveE)
  show ?thesis
    using assms(2)
  proof
    assume "rt = ListPayments"
    with run have "api_list ax ?sv ?ctx r ?w0 w = (Inr wr, w1)" by (simp add: handle_route_def)
    from api_list_200 [OF this new_writer_fresh assms(4)] obtain p st limit page where
      limit: "query_limit r = Some limit" and page: "wr = writeJSON ?w0 200 (json_payment_page (ax_time ax) page)"
      and list: "Payments_List (sx_payments ?sv ?ctx) p \<lparr>plo_Limit = limit, plo_Cursor = query r ''cursor''\<rparr> (w\<lparr>wstore := st\<rparr>) = (Inr page, w1)"
      by blast
    have "length (pp_Data page) \<le> nat limit"
      using pg_payments_listed [OF list [unfolded pg_server_parts]] query_limit_bounds [OF limit]
      by (simp add: list_limit_def)
    then show ?thesis using limit query_limit_bounds [OF limit]
      by (auto simp: page json_payment_page_def json_field_def new_writer_def)
  next
    assume "rt = ListPayouts"
    with run have "api_listPayouts ax ?sv ?ctx r ?w0 w = (Inr wr, w1)" by (simp add: handle_route_def)
    from api_listPayouts_200 [OF this new_writer_fresh assms(4)] obtain y p st limit page where
      limit: "query_limit r = Some limit" and page: "wr = writeJSON ?w0 200 (json_payout_page (ax_time ax) page)"
      and y: "y = main_payouts E cd tr marshal_payout vars"
      and list: "Payouts_List (y ?ctx) p \<lparr>polo_Limit = limit, polo_Cursor = query r ''cursor'', polo_Status = query r ''status'',
         polo_ExternalID = query r ''externalId''\<rparr> (w\<lparr>wstore := st\<rparr>) = (Inr page, w1)"
      by (auto simp: pg_server_parts)
    have "length (pop_Data page) \<le> nat limit"
      using pg_payouts_listed [OF list [unfolded y]] query_limit_bounds [OF limit]
      by (simp add: payout_limit_def)
    then show ?thesis using limit query_limit_bounds [OF limit]
      by (auto simp: page json_payout_page_def json_field_def new_writer_def)
  qed
qed

theorem api_pages_bounded_witness:
  "\<exists>wr m w j items. ex_serve ex_pg_server (ex_api_request ''GET'' [''v2'', ''payments''] ''k1'') (no_metrics, ex_key_world) = (Some wr, m, w) \<and>
     wr_Body wr = [BodyJSON j] \<and> json_field j ''data'' = Some (JArr items) \<and> length items \<le> 50"
proof -
  let ?r = "ex_api_request ''GET'' [''v2'', ''payments''] ''k1''"
  obtain wr m w where run: "ex_serve ex_pg_server ?r (no_metrics, ex_key_world) = (Some wr, m, w)" "wr_status wr = 200"
    using ex_list_status by (cases "ex_serve ex_pg_server ?r (no_metrics, ex_key_world)") auto
  have route: "find_route (ar_Method ?r) (ar_Path ?r) = Some (''GET /v2/payments'', ListPayments)" by code_simp
  have "query_limit ?r = Some 50" by code_simp
  with api_pages_bounded [OF route _ run(1) [unfolded ex_serve_def ex_pg_server_def] run(2)] run(1) show ?thesis by auto
qed

text \<open>
  C40: without a database, listing the refunds of a payment brings the handler down. For a payment that exists and that its
  merchant may see, \<^verbatim>\<open>GET /v2/payments/{id}/refunds\<close> calls the refund store that is not there; the client gets no answer,
  and the request is not counted.
\<close>

theorem api_memory_refund_list_panics:
  assumes "find_route (ar_Method r) (ar_Path r) = Some (pattern, ListRefunds i)"
    and "mget (static_NewAuth (getenv vars ''API_KEYS'')) (bearer r) = Some p"
    and "mem_Get (pr_AccountID p) (pr_MerchantID p) i (wstore w) = (Inr pay, wstore w)" and "pay_Origin pay \<noteq> ''v1''"
  shows "serve ax fl (memory_server cd tr sha marshal vars) su r (m, w) = (None, m, w)"
  using assms static_no_scopes [OF assms(2)]
  by (simp add: serve_def Let_def mux_ServeHTTP_def handle_route_def api_listRefunds_def with_principal_def answer_def Refunds_List_def
      static_auth_def static_Authenticate_def memory_store_def io_bind_def io_try_def on_store_def io_return_def io_fail_def)


theorem api_memory_refund_list_panics_witness:
  "\<exists>m w. ex_serve ex_memory_server (ex_api_request ''GET'' [''v2'', ''payments'', ''t1'', ''refunds''] ''k1'') (no_metrics, ex_paid_world) = (None, m, w)"
proof -
  let ?r = "ex_api_request ''GET'' [''v2'', ''payments'', ''t1'', ''refunds''] ''k1''"
  have "find_route (ar_Method ?r) (ar_Path ?r) = Some (''GET /v2/payments/{transactionId}/refunds'', ListRefunds ''t1'')" by code_simp
  moreover have "mget (static_NewAuth (getenv ex_vars ''API_KEYS'')) (bearer ?r) = Some ex_principal" by code_simp
  moreover have "mem_Get (pr_AccountID ex_principal) (pr_MerchantID ex_principal) ''t1'' (wstore ex_paid_world) =
      (Inr (zero_payment\<lparr>pay_TransactionID := ''t1'', pay_MerchantID := ''merchant1'', pay_Origin := ''v2''\<rparr>), wstore ex_paid_world)"
    by (simp add: mem_Get_def ex_paid_world_def ex_principal_def)
  ultimately show ?thesis
    using api_memory_refund_list_panics unfolding ex_serve_def ex_memory_server_def by fastforce
qed

end
