(* ===== verification/Cashin_System.thy ===== *)
theory Cashin_System
  imports Webhooks Worker Pg_Refunds
begin

text \<open>
  The credit of confirmed payments as a system of concurrent parts over one database: payments are created, provider
  events confirm them and put a row into the balance outbox, refunds settle, and any number of outbox workers claim rows, call
  the balance service and mark the rows. Crashes between any two of these are steps of their own.
\<close>

section \<open>The system\<close>

text \<open>A claimed row, and the row with the answer of the balance service.\<close>

type_synonym credit_update = "outbox_row \<times> (go_error + unit)"
type_synonym cashin_system = "(pgstate, outbox_row, credit_update) worker_state"

definition is_credit_call :: "call \<times> bool \<Rightarrow> bool" where
  "is_credit_call c = (case fst c of CallCreditBalance _ _ _ _ \<Rightarrow> True | _ \<Rightarrow> False)"

definition paid :: "string \<Rightarrow> bool" where
  "paid status \<longleftrightarrow> status = ''confirmed'' \<or> status = ''refunded''"

text \<open>What the credits rely on: payments with their money and whether they were paid, and the entries of the outbox.\<close>

type_synonym credit_money = "string \<times> string \<times> string \<times> string"

definition payment_money :: "payment_row \<Rightarrow> credit_money" where
  "payment_money p = (py_transaction_id p, py_account_id p, py_amount p, py_currency p)"

definition payment_credit :: "payment_row \<Rightarrow> credit_money \<times> bool" where
  "payment_credit p = (payment_money p, paid (py_status p))"

definition row_money :: "outbox_row \<Rightarrow> credit_money" where
  "row_money b = (ob_ref_id b, ob_account_id b, ob_amount b, ob_currency b)"

definition row_entry :: "outbox_row \<Rightarrow> nat \<times> string \<times> credit_money" where
  "row_entry b = (ob_id b, ob_ref_type b, row_money b)"

definition payment_credits :: "pgdb \<Rightarrow> (credit_money \<times> bool) list" where
  "payment_credits db = map payment_credit (db_payments db)"

definition outbox_entries :: "pgdb \<Rightarrow> (nat \<times> string \<times> credit_money) list" where
  "outbox_entries db = map row_entry (db_balance_outbox db)"

definition refunded_ids :: "pgdb \<Rightarrow> string set" where
  "refunded_ids db = rr_transaction_id ` set (db_refunds db)"

text \<open>
  The operations on the store. \<open>elsewhere\<close>: other components use the database and make other calls; they leave the outbox,
  the money and the status of the payments, and the payments of the refunds alone.
\<close>

inductive cashin_serve :: "pg_env \<Rightarrow> pgstate world \<Rightarrow> outbox_row list \<Rightarrow> pgstate world \<Rightarrow> bool" for E :: pg_env where
  completed: "pay_Status p = ''started'' \<Longrightarrow> on_store (pg_CompleteCreate E p e k) w = (cres, w') \<Longrightarrow> cashin_serve E w [] w'"
| event: "on_store (pg_ApplyProviderEvent E ev i) w = (eres, w') \<Longrightarrow> cashin_serve E w [] w'"
| refund: "on_store (pg_CreateRefund E prin paymentID key inp) w = (rres, w') \<Longrightarrow> cashin_serve E w [] w'"
| settled: "on_store (pg_TransitionRefund E i nx f) w = (tres, w') \<Longrightarrow> cashin_serve E w [] w'"
| claimed: "on_store (claim_credits E) w = (res, w') \<Longrightarrow>
    cashin_serve E w (case res of Inl _ \<Rightarrow> [] | Inr items \<Rightarrow> items) w'"
| elsewhere: "db_balance_outbox (pg_db (wstore w')) = db_balance_outbox (pg_db (wstore w)) \<Longrightarrow>
    payment_credits (pg_db (wstore w')) = payment_credits (pg_db (wstore w)) \<Longrightarrow>
    refunded_ids (pg_db (wstore w')) \<subseteq> refunded_ids (pg_db (wstore w)) \<Longrightarrow>
    wcalls w' = wcalls w @ cs \<Longrightarrow> list_all (\<lambda>c. \<not> is_credit_call c) cs \<Longrightarrow> cashin_serve E w [] w'"

inductive_cases cashin_serveE: "cashin_serve E w ps w'"

definition settle_credit :: "pg_env \<Rightarrow> credit_update \<Rightarrow> (pgstate world, unit) go_io" where
  "settle_credit E = (\<lambda>(b, r). case r of
       Inl e \<Rightarrow> io_ignore (on_store (postpone_credit E (ob_id b) (err_text e)))
     | Inr _ \<Rightarrow> io_ignore (on_store (mark_sent E (ob_id b))))"

definition ask_credit :: "(history \<Rightarrow> transport) \<Rightarrow> ledger_client \<Rightarrow> outbox_row \<Rightarrow> (pgstate world, credit_update option) go_io" where
  "ask_credit tr c b = io_bind (io_try (credit_call tr c b)) (\<lambda>r. io_return (Some (b, r)))"

definition cashin_worker :: "pg_env \<Rightarrow> (history \<Rightarrow> transport) \<Rightarrow> ledger_client \<Rightarrow> (pgstate, outbox_row, credit_update) worker" where
  "cashin_worker E tr c = \<lparr>wk_serve = cashin_serve E, wk_decide = ask_credit tr c, wk_send = settle_credit E\<rparr>"

lemma cashin_worker_parts [simp]:
  "wk_serve (cashin_worker E tr c) = cashin_serve E" "wk_decide (cashin_worker E tr c) = ask_credit tr c"
  "wk_send (cashin_worker E tr c) = settle_credit E"
  by (simp_all add: cashin_worker_def)

abbreviation cashin_run :: "pg_env \<Rightarrow> (history \<Rightarrow> transport) \<Rightarrow> ledger_client \<Rightarrow> cashin_system \<Rightarrow> cashin_system \<Rightarrow> bool" where
  "cashin_run E tr c \<equiv> worker_run (cashin_worker E tr c)"

section \<open>The handlers are runs\<close>

lemma cashin_turn: "worker_turn (cashin_worker E tr c) = send_credit E tr c"
  by (rule ext, rule ext)
     (auto simp: worker_turn_def ask_credit_def send_credit_def settle_credit_def io_bind_def io_try_def io_simps
       split: prod.splits sum.splits)

lemma settle_credit_done: "\<exists>w'. settle_credit E u w = (Inr (), w')"
  by (cases u) (auto simp: settle_credit_def io_ignore_def split: sum.splits)

lemma send_credit_done: "\<exists>w'. send_credit E tr c b w = (Inr (), w')"
  by (auto simp: send_credit_def io_bind_def io_try_def io_ignore_def split: prod.splits sum.splits)

lemma outbox_flush_run:
  assumes "outbox_flush E tr c w = (r, w')" and "yy_world s = w"
  shows "cashin_run E tr c s (s\<lparr>yy_world := w'\<rparr>)"
proof -
  obtain res w1 where cl: "on_store (claim_credits E) w = (res, w1)" by force
  let ?items = "case res of Inl _ \<Rightarrow> [] | Inr items \<Rightarrow> items" and ?s1 = "s\<lparr>yy_world := w1, yy_read := (case res of Inl _ \<Rightarrow> [] | Inr items \<Rightarrow> items) @ yy_read s\<rparr>"
  have first: "worker_step (cashin_worker E tr c) s ?s1"
    by (rule worker_step.served) (use cashin_serve.claimed [OF cl] assms(2) in simp)
  have rest: "io_each (worker_turn (cashin_worker E tr c)) ?items w1 = (r, w')"
    using assms(1) cl unfolding cashin_turn outbox_flush_def
    by (auto simp: io_bind_def io_try_def io_simps split: sum.splits)
  have always: "decides_always (cashin_worker E tr c)"
    by (auto simp: decides_always_def ask_credit_def io_bind_def io_try_def io_simps split: prod.splits)
  have "worker_run (cashin_worker E tr c) ?s1 (?s1\<lparr>yy_world := w', yy_read := yy_read s\<rparr>)"
    by (rule batch_run [OF rest _ _ always]) (simp_all add: cashin_turn send_credit_done)
  moreover have "?s1\<lparr>yy_world := w', yy_read := yy_read s\<rparr> = s\<lparr>yy_world := w'\<rparr>" by (cases s) simp
  ultimately show ?thesis using first by (metis converse_rtranclp_into_rtranclp)
qed

lemma OutboxWorker_Run_run:
  assumes "\<forall>others. Tick others \<in> set signals \<longrightarrow> (\<forall>w. quiet_run (cashin_worker E tr c) w (others w))"
  shows "cashin_run E tr c s (s\<lparr>yy_world := snd (OutboxWorker_Run E tr c signals (yy_world s))\<rparr>)"
  unfolding OutboxWorker_Run_def by (rule loop_run [OF _ assms]) (auto simp: quiet_run_def intro: outbox_flush_run)

lemma OutboxWorker_Run_ends: "fst (OutboxWorker_Run E tr c signals w) = Inr (Cancelled \<in> set signals)"
  unfolding OutboxWorker_Run_def
proof (rule ticker_loop_ends)
  fix w
  have "\<exists>w'. io_each (send_credit E tr c) items w = (Inr (), w')" for items w
    by (rule io_each_returns send_credit_done)+
  then show "\<exists>w'. outbox_flush E tr c w = (Inr (), w')"
    by (auto simp: outbox_flush_def io_bind_def io_try_def io_simps split: prod.split sum.split)
qed

section \<open>The invariant\<close>

text \<open>
  One outbox entry for each paid payment, with its money; refunds are of paid payments.
\<close>

definition credits_ok :: "pg_env \<Rightarrow> pgdb \<Rightarrow> bool" where
  "credits_ok E db \<longleftrightarrow>
     distinct (map (fst \<circ> fst) (payment_credits db)) \<and> (\<forall>m \<in> fst ` set (payment_credits db). canonical E (fst m)) \<and>
     map fst (outbox_entries db) = [0..<length (outbox_entries db)] \<and>
     distinct (map (fst \<circ> snd \<circ> snd) (outbox_entries db)) \<and>
     (\<forall>(i, ty, m) \<in> set (outbox_entries db). ty = ''cashin'') \<and>
     (\<forall>m. m \<in> (snd \<circ> snd) ` set (outbox_entries db) \<longleftrightarrow> (m, True) \<in> set (payment_credits db)) \<and>
     refunded_ids db \<subseteq> (fst \<circ> snd \<circ> snd) ` set (outbox_entries db)"

lemma credits_ok_frame:
  "credits_ok E db \<Longrightarrow> payment_credits db' = payment_credits db \<Longrightarrow> outbox_entries db' = outbox_entries db \<Longrightarrow>
   refunded_ids db' \<subseteq> refunded_ids db \<Longrightarrow> credits_ok E db'"
  by (auto simp: credits_ok_def)

lemma credits_okD:
  assumes "credits_ok E db"
  shows "p \<in> set (db_payments db) \<Longrightarrow> canonical E (py_transaction_id p)"
    and "p \<in> set (db_payments db) \<Longrightarrow> q \<in> set (db_payments db) \<Longrightarrow> py_transaction_id p = py_transaction_id q \<Longrightarrow> p = q"
    and "b \<in> set (db_balance_outbox db) \<Longrightarrow> ob_ref_type b = ''cashin''"
    and "b \<in> set (db_balance_outbox db) \<Longrightarrow> (row_money b, True) \<in> set (payment_credits db)"
    and "p \<in> set (db_payments db) \<Longrightarrow> paid (py_status p) \<Longrightarrow> \<exists>b \<in> set (db_balance_outbox db). row_money b = payment_money p"
    and "r \<in> set (db_refunds db) \<Longrightarrow> \<exists>b \<in> set (db_balance_outbox db). ob_ref_id b = rr_transaction_id r"
    and "distinct (map ob_id (db_balance_outbox db))" and "distinct (map ob_ref_id (db_balance_outbox db))"
proof -
  note ok = assms [unfolded credits_ok_def]
  have ids: "distinct (map py_transaction_id (db_payments db))"
    using ok by (simp add: payment_credits_def payment_credit_def payment_money_def comp_def)
  show "distinct (map ob_ref_id (db_balance_outbox db))"
    using ok by (simp add: outbox_entries_def row_entry_def row_money_def comp_def)
  have "map ob_id (db_balance_outbox db) = [0..<length (outbox_entries db)]"
    using ok by (simp add: outbox_entries_def row_entry_def comp_def)
  then show "distinct (map ob_id (db_balance_outbox db))" by simp
  show "p = q" if "p \<in> set (db_payments db)" "q \<in> set (db_payments db)" "py_transaction_id p = py_transaction_id q"
    using that ids by (metis distinct_key_unique)
  show "canonical E (py_transaction_id p)" if "p \<in> set (db_payments db)"
    using that ok by (auto simp: payment_credits_def payment_credit_def payment_money_def)
  show "ob_ref_type b = ''cashin''" if "b \<in> set (db_balance_outbox db)"
    using that ok by (auto simp: outbox_entries_def row_entry_def)
  have eq: "m \<in> (snd \<circ> snd) ` set (outbox_entries db) \<longleftrightarrow> (m, True) \<in> set (payment_credits db)" for m
    using ok by blast
  show "(row_money b, True) \<in> set (payment_credits db)" if "b \<in> set (db_balance_outbox db)"
    unfolding eq [symmetric] using that by (force simp: outbox_entries_def row_entry_def)
  show "\<exists>b \<in> set (db_balance_outbox db). row_money b = payment_money p" if "p \<in> set (db_payments db)" "paid (py_status p)"
  proof -
    have "(payment_money p, True) \<in> set (payment_credits db)"
      using that by (force simp: payment_credits_def payment_credit_def)
    then show ?thesis unfolding eq [symmetric] by (auto simp: outbox_entries_def row_entry_def)
  qed
  show "\<exists>b \<in> set (db_balance_outbox db). ob_ref_id b = rr_transaction_id r" if "r \<in> set (db_refunds db)"
  proof -
    have "rr_transaction_id r \<in> refunded_ids db" using that by (simp add: refunded_ids_def)
    with ok have "rr_transaction_id r \<in> (fst \<circ> snd \<circ> snd) ` set (outbox_entries db)" by blast
    then show ?thesis by (auto simp: outbox_entries_def row_entry_def row_money_def)
  qed
qed

text \<open>The tables after each operation, as the invariant sees them.\<close>

lemma credits_complete:
  assumes "credits_ok E (pg_db s)" and "uuid_laws E" and "pay_Status p = ''started''" and "pg_CompleteCreate E p e k s = (r, s')"
  shows "credits_ok E (pg_db s') \<and> db_balance_outbox (pg_db s') = db_balance_outbox (pg_db s)"
  using assms(4)
proof (cases rule: pg_completeE)
  case (ok now t body)
  have c: "payment_credits (pg_db s') = payment_credits (pg_db s) @ [((t, pay_AccountID p, pay_Amount p, pay_Currency p), False)]"
    by (simp add: ok(6) payment_credits_def payment_credit_def payment_money_def row_of_payment_def paid_def assms(3))
  have "canonical E t" using ok(2) assms(2) by (auto simp: uuid_laws_def)
  moreover have "t \<notin> (fst \<circ> fst) ` set (payment_credits (pg_db s))"
    using ok(4) by (auto simp: payment_credits_def payment_credit_def payment_money_def)
  ultimately show ?thesis
    using assms(1) unfolding credits_ok_def c by (simp add: ok(6) outbox_entries_def refunded_ids_def)
qed (use assms(1) in \<open>simp add: pg_same_def\<close>)

lemma credits_refund:
  assumes "credits_ok E (pg_db s)" and "pg_CreateRefund E prin paymentID key inp s = (r, s')"
  shows "credits_ok E (pg_db s') \<and> db_balance_outbox (pg_db s') = db_balance_outbox (pg_db s)"
  using assms(2)
proof (cases rule: pg_CreateRefundE)
  case (created now row u t wall ds)
  then have row: "row \<in> set (db_payments (pg_db s))" "py_transaction_id row = t" "paid (py_status row)"
    by (auto simp: refund_accepted_def paid_def)
  from credits_okD(5) [OF assms(1) row(1,3)] row(2) obtain b where "b \<in> set (db_balance_outbox (pg_db s))" "ob_ref_id b = t"
    by (auto simp: row_money_def payment_money_def)
  then have "t \<in> (fst \<circ> snd \<circ> snd) ` set (outbox_entries (pg_db s))"
    by (force simp: outbox_entries_def row_entry_def row_money_def)
  with assms(1) show ?thesis
    by (auto simp: credits_ok_def created(3) payment_credits_def outbox_entries_def refunded_ids_def new_refund_row_def)
qed (use assms(1) in simp)

lemma credits_transition:
  assumes "credits_ok E (pg_db s)" and "pg_TransitionRefund E i nx f s = (r, s')"
  shows "credits_ok E (pg_db s') \<and> db_balance_outbox (pg_db s') = db_balance_outbox (pg_db s)"
  using assms(2)
proof (cases rule: transition_refundE)
  case (moved now u row db1 ps ds)
  let ?refunds = "sql_update (refund_hit u (as_string (mget f ''expectedStatus''))) (transitioned_refund now nx f) (db_refunds (pg_db s))"
  have ids: "rr_transaction_id ` set ?refunds = rr_transaction_id ` set (db_refunds (pg_db s))"
    using arg_cong [OF map_sql_update [of "refund_hit u (as_string (mget f ''expectedStatus''))" rr_transaction_id
        "transitioned_refund now nx f" "db_refunds (pg_db s)"], of set] by simp
  from moved(5) obtain t where t: "t \<in> rr_transaction_id ` set ?refunds"
    and ps: "ps = (if nx = ''succeeded'' then settled_payments E t db1 else db_payments (pg_db s))" using moved(4) by auto
  have "map payment_credit (settled_payments E t db1) = map payment_credit (db_payments (pg_db s))"
  proof -
    have "paid (py_status p)" if "p \<in> set (db_payments (pg_db s))" "py_transaction_id p = t" for p
    proof -
      from t ids obtain rr where "rr \<in> set (db_refunds (pg_db s))" "rr_transaction_id rr = t" by auto
      from credits_okD(6) [OF assms(1) this(1)] this(2) obtain b
        where b: "b \<in> set (db_balance_outbox (pg_db s))" "ob_ref_id b = t" by blast
      from credits_okD(4) [OF assms(1) b(1)] obtain q where q: "q \<in> set (db_payments (pg_db s))" "payment_money q = row_money b" "paid (py_status q)"
        by (auto simp: payment_credits_def payment_credit_def)
      then have "py_transaction_id q = t" using b(2) by (simp add: payment_money_def row_money_def)
      with credits_okD(2) [OF assms(1) q(1) that(1)] that(2) q(3) show ?thesis by simp
    qed
    then show ?thesis
      by (auto simp: settled_payments_def sql_update_def moved(4) payment_credit_def payment_money_def paid_def)
  qed
  then have "payment_credits (pg_db s') = payment_credits (pg_db s)" by (simp add: payment_credits_def moved(6) ps)
  then show ?thesis
    by (intro conjI credits_ok_frame [OF assms(1)]) (simp_all add: moved(4,6) outbox_entries_def refunded_ids_def ids)
qed (use assms(1) in simp)

lemma not_paid_before: "PaymentTransitionAllowed st nx \<Longrightarrow> nx \<noteq> st \<Longrightarrow> \<not> paid st"
  by (auto simp: PaymentTransitionAllowed_def paid_def)

lemma public_paid: "PublicStatusFromProvider x = Some nx \<Longrightarrow> paid nx \<longleftrightarrow> nx = ''confirmed''"
  by (auto dest!: public_status_cases simp: paid_def)

text \<open>A confirmation adds the payment's entry; every other event leaves the credits alone.\<close>

lemma credits_confirm:
  assumes "credits_ok E db" and "row \<in> set (db_payments db)" and "\<not> paid (py_status row)" and "paid nx \<longleftrightarrow> nx = ''confirmed''"
    and "db_payments db' = sql_update (\<lambda>r. py_transaction_id r = py_transaction_id row) (updated_row row nx ev) (db_payments db)"
    and "db_balance_outbox db' = (if nx = ''confirmed'' then credited tm (changed_payment row nx) (db_balance_outbox db) else db_balance_outbox db)"
    and "db_refunds db' = db_refunds db"
  shows "credits_ok E db' \<and> (\<exists>new. db_balance_outbox db' = db_balance_outbox db @ new \<and> (\<forall>b \<in> set new. \<not> ob_sent b))"
proof (cases "nx = ''confirmed''")
  case False
  have "payment_credits db' = payment_credits db"
    using credits_okD(2) [OF assms(1) assms(2)] assms(3,4) False
    by (fastforce simp: payment_credits_def assms(5) sql_update_def payment_credit_def payment_money_def)
  with assms False show ?thesis
    by (auto simp: outbox_entries_def refunded_ids_def intro!: credits_ok_frame [OF assms(1)])
next
  case True
  let ?m = "payment_money row" and ?ps = "db_payments db" and ?obs = "db_balance_outbox db"
  have single: "py_transaction_id r = py_transaction_id row \<longleftrightarrow> r = row" if "r \<in> set ?ps" for r
    using credits_okD(2) [OF assms(1) that assms(2)] by auto
  have none: "\<not> (\<exists>b \<in> set ?obs. ob_ref_id b = py_transaction_id row)"
  proof
    assume "\<exists>b \<in> set ?obs. ob_ref_id b = py_transaction_id row"
    then obtain b where b: "b \<in> set ?obs" "ob_ref_id b = py_transaction_id row" by blast
    from credits_okD(4) [OF assms(1) b(1)] obtain q where q: "q \<in> set ?ps" "payment_money q = row_money b" "paid (py_status q)"
      by (auto simp: payment_credits_def payment_credit_def)
    then have "py_transaction_id q = py_transaction_id row" using b(2) by (simp add: payment_money_def row_money_def)
    with single q assms(3) show False by auto
  qed
  then have new: "db_balance_outbox db' = ?obs @ [cashin_row tm (length ?obs) (changed_payment row nx)]"
    using assms(6) True by (auto simp: credited_def sql_conflict_iff outbox_key_def changed_payment_def payment_of_row_def)
  have entry: "row_entry (cashin_row tm n (changed_payment row nx)) = (n, ''cashin'', ?m)" for n
    by (simp add: row_entry_def cashin_row_def row_money_def payment_money_def changed_payment_def payment_of_row_def)
  have keys: "map (fst \<circ> fst) (payment_credits db') = map (fst \<circ> fst) (payment_credits db)"
    by (simp add: payment_credits_def assms(5) sql_update_def payment_credit_def payment_money_def comp_def)
  have paid': "(m, True) \<in> set (payment_credits db') \<longleftrightarrow> m = ?m \<or> (m, True) \<in> set (payment_credits db)" for m
    using single assms(2,4) True
    by (force simp: payment_credits_def assms(5) set_sql_update payment_credit_def payment_money_def image_iff)
  have "map fst (payment_credits db') = map fst (payment_credits db)"
    by (simp add: payment_credits_def assms(5) sql_update_def payment_credit_def payment_money_def comp_def)
  from arg_cong [OF this, of set] have fst': "fst ` set (payment_credits db') = fst ` set (payment_credits db)" by simp
  have entries: "outbox_entries db' = outbox_entries db @ [(length ?obs, ''cashin'', ?m)]"
    by (simp add: outbox_entries_def new entry)
  have fresh: "fst ?m \<notin> (fst \<circ> snd \<circ> snd) ` set (outbox_entries db)"
    using none by (auto simp: outbox_entries_def row_entry_def row_money_def payment_money_def)
  have len: "length (outbox_entries db) = length ?obs" by (simp add: outbox_entries_def)
  note ok = assms(1) [unfolded credits_ok_def]
  have "credits_ok E db'"
    unfolding credits_ok_def keys fst' entries paid'
  proof (intro conjI)
    show "refunded_ids db' \<subseteq> (fst \<circ> snd \<circ> snd) ` set (outbox_entries db @ [(length ?obs, ''cashin'', ?m)])"
      using ok assms(7) by (auto simp: refunded_ids_def)
    show "\<forall>m. (m \<in> (snd \<circ> snd) ` set (outbox_entries db @ [(length ?obs, ''cashin'', ?m)])) = (m = ?m \<or> (m, True) \<in> set (payment_credits db))"
      using ok by simp
    show "distinct (map (fst \<circ> snd \<circ> snd) (outbox_entries db @ [(length ?obs, ''cashin'', ?m)]))"
      using ok fresh by simp
  qed (use ok len in simp_all)
  with new show ?thesis by (simp add: cashin_row_def)
qed

lemma credits_event:
  assumes "credits_ok E (pg_db s)" and "pg_ApplyProviderEvent E ev i s = (r, s')"
  shows "credits_ok E (pg_db s') \<and>
    (\<exists>new. db_balance_outbox (pg_db s') = db_balance_outbox (pg_db s) @ new \<and> (\<forall>b \<in> set new. \<not> ob_sent b))"
  using assms(2)
proof (cases rule: pg_applyE)
  case (kept t row)
  then show ?thesis using credits_ok_frame [OF assms(1), of "pg_db s'"]
    by (simp add: payment_credits_def outbox_entries_def refunded_ids_def)
next
  case (changed t t' row nx tm)
  have row: "row \<in> set (db_payments (pg_db s))" using changed(3) by (auto dest: find_SomeD)
  have "py_transaction_id row = t'" using changed(9) credits_okD(1) [OF assms(1) row] by (simp add: canonical_def)
  then show ?thesis
    using changed(10) by (intro credits_confirm [OF assms(1) row not_paid_before [OF changed(7,6)] public_paid [OF changed(5)]]) simp_all
qed (use assms(1) in \<open>auto simp: pg_same_def\<close>)

text \<open>The worker's own statements keep every entry.\<close>

lemma claim_creditsE:
  assumes "claim_credits E s = (r, s')"
  obtains (error) e where "r = Inl e" "pg_db s' = pg_db s"
    | (rows) now items hit where "r = Inr items"
        "items = filter hit (db_balance_outbox (pg_db s))" "now = pg_time (en_clock E (pg_tick s))"
        "hit = (\<lambda>b. ob_id b \<in> ob_id ` set (take 100 (sort_key ob_created_at (filter (due_credit now (pg_db s)) (db_balance_outbox (pg_db s))))))"
        "pg_db s' = (pg_db s)\<lparr>db_balance_outbox := sql_update hit (\<lambda>b. b\<lparr>ob_next_attempt_at := now + minute_ns\<rparr>) (db_balance_outbox (pg_db s))\<rparr>"
  using assms unfolding claim_credits_def
  by (elim db_callE) (auto simp: Let_def dest: sym [of _ "pg_db s'"])

lemma mark_sentE:
  assumes "mark_sent E i s = (r, s')"
  obtains (error) e where "r = Inl e" "pg_db s' = pg_db s"
    | (marked) now where "r = Inr ()" "pg_db s' = (pg_db s)\<lparr>db_balance_outbox := sql_update (\<lambda>b. ob_id b = i)
        (\<lambda>b. b\<lparr>ob_sent := True, ob_sent_at := Some now, ob_last_error := None\<rparr>) (db_balance_outbox (pg_db s))\<rparr>"
  using assms unfolding mark_sent_def by (elim db_callE) (auto simp: Let_def dest: sym [of _ "pg_db s'"])

lemma postpone_creditE:
  assumes "postpone_credit E i msg s = (r, s')"
  obtains (error) e where "r = Inl e" "pg_db s' = pg_db s"
    | (postponed) now where "r = Inr ()" "pg_db s' = (pg_db s)\<lparr>db_balance_outbox := sql_update (\<lambda>b. ob_id b = i)
        (\<lambda>b. b\<lparr>ob_attempt_count := ob_attempt_count b + 1, ob_last_error := Some msg,
           ob_next_attempt_at := now + backoff (ob_attempt_count b)\<rparr>) (db_balance_outbox (pg_db s))\<rparr>"
  using assms unfolding postpone_credit_def by (elim db_callE) (auto simp: Let_def dest: sym [of _ "pg_db s'"])

section \<open>The invariant of the system\<close>

fun money_call :: "credit_money \<Rightarrow> call" where
  "money_call (t, a, amount, currency) = CallCreditBalance a t amount currency"

definition entry_calls :: "pgdb \<Rightarrow> call set" where
  "entry_calls db = (money_call \<circ> row_money) ` set (db_balance_outbox db)"

definition cashin_ok :: "pg_env \<Rightarrow> pgstate world \<Rightarrow> bool" where
  "cashin_ok E w \<longleftrightarrow> credits_ok E (pg_db (wstore w)) \<and>
     (\<forall>c \<in> set (wcalls w). is_credit_call c \<longrightarrow> fst c \<in> entry_calls (pg_db (wstore w))) \<and>
     (\<forall>b \<in> set (db_balance_outbox (pg_db (wstore w))). ob_sent b \<longrightarrow> (money_call (row_money b), True) \<in> set (wcalls w))"

definition task_ok :: "pgstate world \<Rightarrow> credit_update \<Rightarrow> bool" where
  "task_ok w u \<longleftrightarrow> row_entry (fst u) \<in> set (outbox_entries (pg_db (wstore w))) \<and>
     (\<not> isl (snd u) \<longrightarrow> (money_call (row_money (fst u)), True) \<in> set (wcalls w))"

definition cashin_inv :: "pg_env \<Rightarrow> cashin_system \<Rightarrow> bool" where
  "cashin_inv E s \<longleftrightarrow> cashin_ok E (yy_world s) \<and>
     (\<forall>b \<in> set (yy_read s). row_entry b \<in> set (outbox_entries (pg_db (wstore (yy_world s))))) \<and>
     (\<forall>u \<in> set (yy_send s). task_ok (yy_world s) u)"

text \<open>What a step may do to the world: entries and calls grow, new calls are for entries.\<close>

definition cashin_grows :: "pgstate world \<Rightarrow> pgstate world \<Rightarrow> bool" where
  "cashin_grows w w' \<longleftrightarrow> set (wcalls w) \<subseteq> set (wcalls w') \<and>
     set (outbox_entries (pg_db (wstore w))) \<subseteq> set (outbox_entries (pg_db (wstore w')))"

lemma task_grows: "task_ok w u \<Longrightarrow> cashin_grows w w' \<Longrightarrow> task_ok w' u"
  by (auto simp: task_ok_def cashin_grows_def)

lemma entry_calls_mono:
  "set (outbox_entries db) \<subseteq> set (outbox_entries db') \<Longrightarrow> entry_calls db \<subseteq> entry_calls db'"
proof -
  have eq: "entry_calls db = (money_call \<circ> snd \<circ> snd) ` set (outbox_entries db)" for db
    by (force simp: entry_calls_def outbox_entries_def row_entry_def)
  show "set (outbox_entries db) \<subseteq> set (outbox_entries db') \<Longrightarrow> entry_calls db \<subseteq> entry_calls db'"
    unfolding eq by (rule image_mono)
qed

lemma quiet_step:
  assumes "cashin_ok E w" and "credits_ok E (pg_db (wstore w'))"
    and "set (outbox_entries (pg_db (wstore w))) \<subseteq> set (outbox_entries (pg_db (wstore w')))"
    and "\<And>b'. b' \<in> set (db_balance_outbox (pg_db (wstore w'))) \<Longrightarrow> ob_sent b' \<Longrightarrow>
      (money_call (row_money b'), True) \<in> set (wcalls w) \<or>
      (\<exists>b \<in> set (db_balance_outbox (pg_db (wstore w))). row_money b = row_money b' \<and> ob_sent b)"
    and "wcalls w' = wcalls w @ cs" and "list_all (\<lambda>c. \<not> is_credit_call c) cs"
  shows "cashin_ok E w' \<and> cashin_grows w w'"
proof -
  have "fst c \<in> entry_calls (pg_db (wstore w'))" if "c \<in> set (wcalls w')" "is_credit_call c" for c
    using that assms(1,5,6) entry_calls_mono [OF assms(3)] by (auto simp: cashin_ok_def list_all_iff)
  moreover have "(money_call (row_money b'), True) \<in> set (wcalls w')"
    if "b' \<in> set (db_balance_outbox (pg_db (wstore w')))" "ob_sent b'" for b'
    using assms(4) [OF that] assms(1,5) by (auto simp: cashin_ok_def)
  ultimately show ?thesis using assms(2,3,5) by (simp add: cashin_ok_def cashin_grows_def)
qed

lemma same_entries:
  assumes "\<And>b. row_entry (f b) = row_entry b"
  shows "outbox_entries (db\<lparr>db_balance_outbox := sql_update P f (db_balance_outbox db)\<rparr>) = outbox_entries db"
  unfolding outbox_entries_def by (simp add: map_sql_update [where key = row_entry] assms)

text \<open>Rows that keep their entry and do not become sent.\<close>

lemma update_step:
  assumes "cashin_ok E w" and "wcalls w' = wcalls w"
    and "pg_db (wstore w') = (pg_db (wstore w))\<lparr>db_balance_outbox := sql_update P f (db_balance_outbox (pg_db (wstore w)))\<rparr>"
    and "\<And>b. row_entry (f b) = row_entry b"
    and "\<And>b. b \<in> set (db_balance_outbox (pg_db (wstore w))) \<Longrightarrow> P b \<Longrightarrow> ob_sent (f b) \<Longrightarrow>
      ob_sent b \<or> (money_call (row_money b), True) \<in> set (wcalls w)"
  shows "cashin_ok E w' \<and> cashin_grows w w'"
proof (rule quiet_step [where cs = "[]", OF assms(1)])
  have eq: "outbox_entries (pg_db (wstore w')) = outbox_entries (pg_db (wstore w))"
    unfolding assms(3) by (rule same_entries) (rule assms(4))
  then show "set (outbox_entries (pg_db (wstore w))) \<subseteq> set (outbox_entries (pg_db (wstore w')))" by simp
  show "credits_ok E (pg_db (wstore w'))"
    by (rule credits_ok_frame [of E "pg_db (wstore w)", OF _ _ eq])
      (use assms(1) in \<open>simp_all add: cashin_ok_def assms(3) payment_credits_def refunded_ids_def\<close>)
  have money: "row_money (f b) = row_money b" for b using assms(4) [of b] by (simp add: row_entry_def)
  show "(money_call (row_money b'), True) \<in> set (wcalls w) \<or>
      (\<exists>b \<in> set (db_balance_outbox (pg_db (wstore w))). row_money b = row_money b' \<and> ob_sent b)"
    if "b' \<in> set (db_balance_outbox (pg_db (wstore w')))" "ob_sent b'" for b'
  proof -
    from that(1) obtain x where x: "x \<in> set (db_balance_outbox (pg_db (wstore w)))" "b' = (if P x then f x else x)"
      by (auto simp: assms(3) set_sql_update)
    then show ?thesis using that(2) assms(5) [OF x(1)] money [of x] by (cases "P x") auto
  qed
qed (use assms(2) in simp_all)

lemma same_db_step:
  assumes "cashin_ok E w" and "wcalls w' = wcalls w" and "pg_db (wstore w') = pg_db (wstore w)"
  shows "cashin_ok E w' \<and> cashin_grows w w'"
  using assms by (simp add: cashin_ok_def cashin_grows_def)

text \<open>Operations that leave the outbox alone or append unsent rows.\<close>

lemma appended_step:
  assumes "cashin_ok E w" and "w' = w\<lparr>wstore := s\<rparr>" and "credits_ok E (pg_db s)"
    and "db_balance_outbox (pg_db s) = db_balance_outbox (pg_db (wstore w)) @ new" and "\<forall>b \<in> set new. \<not> ob_sent b"
  shows "cashin_ok E w' \<and> cashin_grows w w'"
proof (rule quiet_step [where cs = "[]", OF assms(1)])
  show "set (outbox_entries (pg_db (wstore w))) \<subseteq> set (outbox_entries (pg_db (wstore w')))"
    by (simp add: assms(2) assms(4) outbox_entries_def)
  show "(money_call (row_money b'), True) \<in> set (wcalls w) \<or>
      (\<exists>b \<in> set (db_balance_outbox (pg_db (wstore w))). row_money b = row_money b' \<and> ob_sent b)"
    if "b' \<in> set (db_balance_outbox (pg_db (wstore w')))" "ob_sent b'" for b'
  proof -
    from that assms(2,4,5) have "b' \<in> set (db_balance_outbox (pg_db (wstore w)))" by auto
    with that(2) show ?thesis by blast
  qed
qed (use assms(2,3) in simp_all)

lemma cashin_serves:
  assumes "cashin_ok E w" and "uuid_laws E" and "cashin_serve E w ps w'"
  shows "cashin_ok E w' \<and> cashin_grows w w' \<and> (\<forall>b \<in> set ps. row_entry b \<in> set (outbox_entries (pg_db (wstore w'))))"
  using assms(3)
proof cases
  case (completed p e k r)
  from on_storeD [OF completed(3)] obtain s where s: "pg_CompleteCreate E p e k (wstore w) = (r, s)" "w' = w\<lparr>wstore := s\<rparr>" by blast
  from credits_complete [OF _ assms(2) completed(2) s(1)] assms(1) appended_step [OF assms(1) s(2), of "[]"] completed(1)
  show ?thesis by (simp add: cashin_ok_def)
next
  case (event ev i r)
  from on_storeD [OF event(2)] obtain s where s: "pg_ApplyProviderEvent E ev i (wstore w) = (r, s)" "w' = w\<lparr>wstore := s\<rparr>" by blast
  from credits_event [OF _ s(1)] assms(1) obtain new where "credits_ok E (pg_db s)"
    "db_balance_outbox (pg_db s) = db_balance_outbox (pg_db (wstore w)) @ new" "\<forall>b \<in> set new. \<not> ob_sent b"
    by (auto simp: cashin_ok_def)
  from appended_step [OF assms(1) s(2) this] event(1) show ?thesis by simp
next
  case (refund prin paymentID key inp r)
  from on_storeD [OF refund(2)] obtain s where s: "pg_CreateRefund E prin paymentID key inp (wstore w) = (r, s)" "w' = w\<lparr>wstore := s\<rparr>" by blast
  from credits_refund [OF _ s(1)] assms(1) appended_step [OF assms(1) s(2), of "[]"] refund(1)
  show ?thesis by (simp add: cashin_ok_def)
next
  case (settled i nx f r)
  from on_storeD [OF settled(2)] obtain s where s: "pg_TransitionRefund E i nx f (wstore w) = (r, s)" "w' = w\<lparr>wstore := s\<rparr>" by blast
  from credits_transition [OF _ s(1)] assms(1) appended_step [OF assms(1) s(2), of "[]"] settled(1)
  show ?thesis by (simp add: cashin_ok_def)
next
  case (claimed res)
  from on_storeD [OF claimed(2)] obtain s where s: "claim_credits E (wstore w) = (res, s)" "w' = w\<lparr>wstore := s\<rparr>" by blast
  from s(1) show ?thesis
  proof (cases rule: claim_creditsE)
    case (error e)
    with same_db_step [OF assms(1), of w'] s claimed(1) show ?thesis by simp
  next
    case (rows now items hit)
    have entry: "row_entry (b\<lparr>ob_next_attempt_at := t\<rparr>) = row_entry b" for b t
      by (simp add: row_entry_def row_money_def)
    have step: "cashin_ok E w' \<and> cashin_grows w w'"
      by (rule update_step [OF assms(1) _ _ entry]) (use s rows(5) in auto)
    have "row_entry b \<in> set (outbox_entries (pg_db (wstore w')))" if "b \<in> set items" for b
      using that step by (auto simp: rows(2) cashin_grows_def outbox_entries_def)
    with step claimed(1) rows(1) show ?thesis by auto
  qed
next
  case (elsewhere cs)
  have "outbox_entries (pg_db (wstore w')) = outbox_entries (pg_db (wstore w))" by (simp add: outbox_entries_def elsewhere(2))
  with elsewhere quiet_step [OF assms(1), of w' cs] credits_ok_frame [of E "pg_db (wstore w)" "pg_db (wstore w')"] assms(1)
  show ?thesis by (auto simp: cashin_ok_def)
qed

lemma asked_credit:
  assumes "ask_credit tr c b w = (Inr u, w')"
  shows "\<exists>r. u = Some (b, r) \<and> w' = w\<lparr>wcalls := wcalls w @ [(money_call (row_money b), \<not> isl r)]\<rparr>"
  using assms
  by (auto simp: ask_credit_def io_bind_def io_try_def credit_call_def ext_call_def Let_def io_simps row_money_def)

lemma ask_step:
  assumes "cashin_ok E w" and "row_entry b \<in> set (outbox_entries (pg_db (wstore w)))" and "ask_credit tr c b w = (Inr u, w')"
  shows "cashin_ok E w' \<and> cashin_grows w w' \<and> (\<exists>r. u = Some (b, r) \<and> task_ok w' (b, r))"
proof -
  from asked_credit [OF assms(3)] obtain r where r: "u = Some (b, r)"
    "w' = w\<lparr>wcalls := wcalls w @ [(money_call (row_money b), \<not> isl r)]\<rparr>" by blast
  have "money_call (row_money b) \<in> entry_calls (pg_db (wstore w))"
  proof -
    from assms(2) obtain b' where "b' \<in> set (db_balance_outbox (pg_db (wstore w)))" "row_money b' = row_money b"
      by (auto simp: outbox_entries_def row_entry_def)
    then show ?thesis unfolding entry_calls_def by (metis comp_apply imageI)
  qed
  with assms(1,2) r show ?thesis by (auto simp: cashin_ok_def cashin_grows_def task_ok_def)
qed

lemma settle_step:
  assumes "cashin_ok E w" and "task_ok w u" and "settle_credit E u w = (ru, w')"
  shows "cashin_ok E w' \<and> cashin_grows w w'"
proof -
  obtain b r where u: "u = (b, r)" by (cases u)
  note upd = update_step [OF assms(1)] and same = same_db_step [OF assms(1)]
  have unique: "row_money b' = row_money b" if "b' \<in> set (db_balance_outbox (pg_db (wstore w)))" "ob_id b' = ob_id b" for b'
  proof -
    from assms(2) obtain b0 where b0: "b0 \<in> set (db_balance_outbox (pg_db (wstore w)))" "row_entry b = row_entry b0"
      by (auto simp: task_ok_def u outbox_entries_def)
    have "distinct (map ob_id (db_balance_outbox (pg_db (wstore w))))"
      using assms(1) credits_okD(7) by (auto simp: cashin_ok_def)
    with that b0 have "b' = b0" by (metis distinct_key_unique row_entry_def fst_conv)
    with b0 show ?thesis by (simp add: row_entry_def)
  qed
  show ?thesis
  proof (cases r)
    case (Inl e)
    obtain pr s where p: "postpone_credit E (ob_id b) (err_text e) (wstore w) = (pr, s)" by force
    then have w': "w' = w\<lparr>wstore := s\<rparr>" using assms(3) u Inl by (simp add: settle_credit_def io_ignore_def on_store_def)
    from p show ?thesis
    proof (cases rule: postpone_creditE)
      case (postponed now)
      from postponed(2) have db: "pg_db (wstore w') = pg_db s" "wcalls w' = wcalls w" by (simp_all add: w')
      show ?thesis by (rule upd [OF db(2) db(1) [unfolded postponed(2)]]) (simp_all add: row_entry_def row_money_def)
    qed (use w' in \<open>simp add: same\<close>)
  next
    case (Inr x)
    obtain pr s where p: "mark_sent E (ob_id b) (wstore w) = (pr, s)" by force
    then have w': "w' = w\<lparr>wstore := s\<rparr>" using assms(3) u Inr by (simp add: settle_credit_def io_ignore_def on_store_def)
    from p show ?thesis
    proof (cases rule: mark_sentE)
      case (marked now)
      from marked(2) have db: "pg_db (wstore w') = pg_db s" "wcalls w' = wcalls w" by (simp_all add: w')
      have sent: "(money_call (row_money b), True) \<in> set (wcalls w)" using assms(2) by (simp add: task_ok_def u Inr)
      show ?thesis
        by (rule upd [OF db(2) db(1) [unfolded marked(2)]]) (use sent unique in \<open>auto simp: row_entry_def row_money_def\<close>)
    qed (use w' in \<open>simp add: same\<close>)
  qed
qed

lemma cashin_step_inv:
  assumes "worker_step (cashin_worker E tr c) s s'" and "uuid_laws E" and "cashin_inv E s"
  shows "cashin_inv E s'"
  using assms(1)
proof cases
  case (served ps w')
  with cashin_serves [of E "yy_world s" ps w'] assms(2,3) show ?thesis
    by (auto simp: cashin_inv_def intro: task_grows) (auto simp: cashin_grows_def)
next
  case (decided p u w')
  with ask_step [of E "yy_world s" p tr c u w'] assms(3) show ?thesis
    by (auto simp: cashin_inv_def intro: task_grows dest!: set_mp [OF set_remove1_subset]) (auto simp: cashin_grows_def)
next
  case (sent u r w')
  with settle_step [of E "yy_world s" u r w'] assms(3) show ?thesis
    by (auto simp: cashin_inv_def intro: task_grows dest!: set_mp [OF set_remove1_subset]) (auto simp: cashin_grows_def)
next
  case (crashed ps us)
  with assms(3) show ?thesis by (auto simp: cashin_inv_def)
qed

lemma cashin_run_inv: "cashin_run E tr c s s' \<Longrightarrow> uuid_laws E \<Longrightarrow> cashin_inv E s \<Longrightarrow> cashin_inv E s'"
  by (induction rule: rtranclp_induct) (auto intro: cashin_step_inv)

end
