(* ===== verification/Cashin_Properties.thy ===== *)
theory Cashin_Properties
  imports Cashin_System
begin

text \<open>
  A whole flush of the balance outbox, and the properties of the credits: one entry for each confirmed payment, requests with the
  payment's own money, and what a flush does to the rows it claims.
\<close>

section \<open>A flush\<close>

text \<open>The rows a flush takes: at most 100 that are due, the oldest first; and what becomes of one.\<close>

definition flush_items :: "pg_env \<Rightarrow> pgstate \<Rightarrow> outbox_row list" where
  "flush_items E s = (let now = pg_time (en_clock E (pg_tick s));
       oldest = take 100 (sort_key ob_created_at (filter (due_credit now (pg_db s)) (db_balance_outbox (pg_db s))))
     in filter (\<lambda>b. ob_id b \<in> ob_id ` set oldest) (db_balance_outbox (pg_db s)))"

definition credit_settled :: "bool \<Rightarrow> outbox_row \<Rightarrow> outbox_row \<Rightarrow> bool" where
  "credit_settled ok b b' \<longleftrightarrow> row_entry b' = row_entry b \<and>
     (if ok then ob_sent b' \<and> ob_attempt_count b' = ob_attempt_count b
      else ob_sent b' = ob_sent b \<and> ob_attempt_count b' = ob_attempt_count b + 1 \<and>
        (\<exists>t. ob_next_attempt_at b' = t + backoff (ob_attempt_count b)))"

lemma settle_up:
  assumes "pg_up E s"
  shows "postpone_credit E i msg s = (r, s') \<Longrightarrow> pg_up E s' \<and> (\<exists>now. pg_db s' = (pg_db s)\<lparr>db_balance_outbox :=
      sql_update (\<lambda>b. ob_id b = i) (\<lambda>b. b\<lparr>ob_attempt_count := ob_attempt_count b + 1, ob_last_error := Some msg,
        ob_next_attempt_at := now + backoff (ob_attempt_count b)\<rparr>) (db_balance_outbox (pg_db s))\<rparr>)"
    and "mark_sent E i s = (r, s') \<Longrightarrow> pg_up E s' \<and> (\<exists>now. pg_db s' = (pg_db s)\<lparr>db_balance_outbox :=
      sql_update (\<lambda>b. ob_id b = i) (\<lambda>b. b\<lparr>ob_sent := True, ob_sent_at := Some now, ob_last_error := None\<rparr>)
        (db_balance_outbox (pg_db s))\<rparr>)"
    and "claim_credits E s = (rc, s') \<Longrightarrow> pg_up E s' \<and> rc = Inr (flush_items E s) \<and>
      list_all2 (\<lambda>b b'. b' = b \<or> b \<in> set (flush_items E s) \<and> (\<exists>t. b' = b\<lparr>ob_next_attempt_at := t\<rparr>))
        (db_balance_outbox (pg_db s)) (db_balance_outbox (pg_db s'))"
  using pg_up_later [OF assms, of s'] pg_up_now [OF assms]
  by (auto simp: postpone_credit_def mark_sent_def claim_credits_def flush_items_def db_call_def Let_def sql_update_def
      list_all2_map2 list_all2_same)

lemma send_credit_effect:
  assumes "send_credit E tr c b w = (r, w')" and "pg_up E (wstore w)"
  shows "\<exists>ok f. wcalls w' = wcalls w @ [(money_call (row_money b), ok)] \<and> pg_up E (wstore w') \<and>
     db_balance_outbox (pg_db (wstore w')) = sql_update (\<lambda>x. ob_id x = ob_id b) f (db_balance_outbox (pg_db (wstore w))) \<and>
     (\<forall>x. credit_settled ok x (f x)) \<and>
     ((\<forall>h q. \<exists>resp. tr h q = Inr resp \<and> status_ok (hs_Status resp)) \<longrightarrow> ok)"
proof -
  let ?a = "ledger_CreditBalance (tr (wcalls w)) c (ob_account_id b) (ob_ref_id b) (ob_amount b) (ob_currency b)"
  have good: "\<not> isl ?a" if "\<forall>h q. \<exists>resp. tr h q = Inr resp \<and> status_ok (hs_Status resp)"
  proof -
    from that obtain resp where "tr (wcalls w) (ledger_request c ''/api/balance/credit'' (ledger_body (ob_account_id b) (ob_ref_id b) (ob_amount b) (ob_currency b) ''cashin'')) = Inr resp"
      "status_ok (hs_Status resp)" by blast
    then show ?thesis by (auto simp: ledger_CreditBalance_def ledger_post_def status_ok_def)
  qed
  have run: "send_credit E tr c b w = (case ?a of Inl e \<Rightarrow> io_ignore (on_store (postpone_credit E (ob_id b) (err_text e)))
      | Inr _ \<Rightarrow> io_ignore (on_store (mark_sent E (ob_id b)))) (w\<lparr>wcalls := wcalls w @ [(money_call (row_money b), \<not> isl ?a)]\<rparr>)"
    by (simp add: send_credit_def io_bind_def io_try_def credit_call_def ext_call_def Let_def row_money_def)
  show ?thesis
  proof (cases ?a)
    case (Inl e)
    obtain pr s where p: "postpone_credit E (ob_id b) (err_text e) (wstore w) = (pr, s)" by force
    from settle_up(1) [OF assms(2) p] obtain now where db: "pg_db s = (pg_db (wstore w))\<lparr>db_balance_outbox :=
        sql_update (\<lambda>x. ob_id x = ob_id b) (\<lambda>x. x\<lparr>ob_attempt_count := ob_attempt_count x + 1, ob_last_error := Some (err_text e),
           ob_next_attempt_at := now + backoff (ob_attempt_count x)\<rparr>) (db_balance_outbox (pg_db (wstore w)))\<rparr>" "pg_up E s" by blast
    have "w' = (w\<lparr>wcalls := wcalls w @ [(money_call (row_money b), False)]\<rparr>)\<lparr>wstore := s\<rparr>"
      using assms(1) run Inl p by (simp add: io_ignore_def on_store_def)
    with db good Inl show ?thesis
      by (intro exI [of _ False] exI [of _ "\<lambda>x. x\<lparr>ob_attempt_count := ob_attempt_count x + 1, ob_last_error := Some (err_text e),
           ob_next_attempt_at := now + backoff (ob_attempt_count x)\<rparr>"]) (auto simp: credit_settled_def row_entry_def row_money_def)
  next
    case (Inr u)
    obtain pr s where p: "mark_sent E (ob_id b) (wstore w) = (pr, s)" by force
    from settle_up(2) [OF assms(2) p] obtain now where db: "pg_db s = (pg_db (wstore w))\<lparr>db_balance_outbox :=
        sql_update (\<lambda>x. ob_id x = ob_id b) (\<lambda>x. x\<lparr>ob_sent := True, ob_sent_at := Some now, ob_last_error := None\<rparr>)
          (db_balance_outbox (pg_db (wstore w)))\<rparr>" "pg_up E s" by blast
    have "w' = (w\<lparr>wcalls := wcalls w @ [(money_call (row_money b), True)]\<rparr>)\<lparr>wstore := s\<rparr>"
      using assms(1) run Inr p by (simp add: io_ignore_def on_store_def)
    with db show ?thesis
      by (intro exI [of _ True] exI [of _ "\<lambda>x. x\<lparr>ob_sent := True, ob_sent_at := Some now, ob_last_error := None\<rparr>"])
        (auto simp: credit_settled_def row_entry_def row_money_def)
  qed
qed

text \<open>The row before and after the loop over the claimed rows.\<close>

definition row_outcome :: "outbox_row list \<Rightarrow> bool list \<Rightarrow> outbox_row \<Rightarrow> outbox_row \<Rightarrow> bool" where
  "row_outcome items oks b b' \<longleftrightarrow>
     (if ob_id b \<in> ob_id ` set items then \<exists>i ok. (i, ok) \<in> set (zip items oks) \<and> ob_id i = ob_id b \<and> credit_settled ok b b' else b' = b)"

lemma send_credits_effect:
  assumes "io_each (send_credit E tr c) items w = (r, w')" and "pg_up E (wstore w)" and "distinct (map ob_id items)"
  shows "r = Inr () \<and> (\<exists>oks. length oks = length items \<and> wcalls w' = wcalls w @ zip (map (money_call \<circ> row_money) items) oks \<and>
     list_all2 (row_outcome items oks) (db_balance_outbox (pg_db (wstore w))) (db_balance_outbox (pg_db (wstore w'))) \<and>
     ((\<forall>h q. \<exists>resp. tr h q = Inr resp \<and> status_ok (hs_Status resp)) \<longrightarrow> list_all (\<lambda>ok. ok) oks))"
  using assms
proof (induction items arbitrary: w)
  case Nil
  then show ?case by (simp add: io_simps row_outcome_def list_all2_refl)
next
  case (Cons b items)
  from send_credit_done obtain w1 where w1: "send_credit E tr c b w = (Inr (), w1)" by blast
  from send_credit_effect [OF w1 Cons.prems(2)] obtain ok f where one: "wcalls w1 = wcalls w @ [(money_call (row_money b), ok)]"
    "pg_up E (wstore w1)"
    "db_balance_outbox (pg_db (wstore w1)) = sql_update (\<lambda>x. ob_id x = ob_id b) f (db_balance_outbox (pg_db (wstore w)))"
    "\<forall>x. credit_settled ok x (f x)" "(\<forall>h q. \<exists>resp. tr h q = Inr resp \<and> status_ok (hs_Status resp)) \<longrightarrow> ok" by blast
  have "io_each (send_credit E tr c) items w1 = (r, w')" using Cons.prems(1) w1 by simp
  moreover have "distinct (map ob_id items)" using Cons.prems(3) by simp
  ultimately obtain oks where rest: "r = Inr ()" "length oks = length items"
    "wcalls w' = wcalls w1 @ zip (map (money_call \<circ> row_money) items) oks"
    "list_all2 (row_outcome items oks) (db_balance_outbox (pg_db (wstore w1))) (db_balance_outbox (pg_db (wstore w')))"
    "(\<forall>h q. \<exists>resp. tr h q = Inr resp \<and> status_ok (hs_Status resp)) \<longrightarrow> list_all (\<lambda>ok. ok) oks"
    using Cons.IH [OF _ one(2)] by blast
  have id: "ob_id (f x) = ob_id x" for x using one(4) by (simp add: credit_settled_def row_entry_def)
  have "row_outcome (b # items) (ok # oks) x x'"
    if "row_outcome items oks (if ob_id x = ob_id b then f x else x) x'" for x x'
  proof (cases "ob_id x = ob_id b")
    case True
    have "ob_id b \<notin> ob_id ` set items" using Cons.prems(3) by auto
    with that True id [of x] have "x' = f x" by (simp add: row_outcome_def)
    with one(4) True show ?thesis by (auto simp: row_outcome_def)
  next
    case False
    with that show ?thesis by (auto simp: row_outcome_def) blast
  qed
  then have "list_all2 (row_outcome (b # items) (ok # oks)) (db_balance_outbox (pg_db (wstore w))) (db_balance_outbox (pg_db (wstore w')))"
    using rest(4) unfolding one(3) sql_update_def list_all2_map1 by (rule list_all2_mono [rotated]) 
  with rest one(1,5) show ?case by (intro conjI exI [of _ "ok # oks"]) (auto simp: comp_def)
qed

lemma list_all2_trans_mono:
  assumes "list_all2 P xs ys" and "list_all2 Q ys zs" and "\<And>x y z. x \<in> set xs \<Longrightarrow> P x y \<Longrightarrow> Q y z \<Longrightarrow> R x z"
  shows "list_all2 R xs zs"
  using assms by (auto simp: list_all2_conv_all_nth)

lemma flush_items_id: "b \<in> set (db_balance_outbox (pg_db s)) \<Longrightarrow> ob_id b \<in> ob_id ` set (flush_items E s) \<longleftrightarrow> b \<in> set (flush_items E s)"
  by (auto simp: flush_items_def Let_def)

lemma outbox_flush_effect:
  assumes "outbox_flush E tr c w = (r, w')" and "pg_up E (wstore w)" and "distinct (map ob_id (db_balance_outbox (pg_db (wstore w))))"
  shows "r = Inr () \<and> (\<exists>oks. length oks = length (flush_items E (wstore w)) \<and>
     wcalls w' = wcalls w @ zip (map (money_call \<circ> row_money) (flush_items E (wstore w))) oks \<and>
     list_all2 (\<lambda>b b'. if b \<in> set (flush_items E (wstore w)) then \<exists>ok. (b, ok) \<in> set (zip (flush_items E (wstore w)) oks) \<and> credit_settled ok b b'
       else b' = b) (db_balance_outbox (pg_db (wstore w))) (db_balance_outbox (pg_db (wstore w'))) \<and>
     ((\<forall>h q. \<exists>resp. tr h q = Inr resp \<and> status_ok (hs_Status resp)) \<longrightarrow> list_all (\<lambda>ok. ok) oks))"
proof -
  let ?items = "flush_items E (wstore w)" and ?obs = "db_balance_outbox (pg_db (wstore w))"
  obtain rc s1 where cl: "claim_credits E (wstore w) = (rc, s1)" by force
  note claim = settle_up(3) [OF assms(2) cl]
  then have "io_each (send_credit E tr c) ?items (w\<lparr>wstore := s1\<rparr>) = (r, w')"
    using assms(1) cl by (simp add: outbox_flush_def io_bind_def io_try_def on_store_def)
  from send_credits_effect [OF this] claim assms(3) obtain oks where rest: "r = Inr ()" "length oks = length ?items"
    "wcalls w' = wcalls w @ zip (map (money_call \<circ> row_money) ?items) oks"
    "list_all2 (row_outcome ?items oks) (db_balance_outbox (pg_db s1)) (db_balance_outbox (pg_db (wstore w')))"
    "(\<forall>h q. \<exists>resp. tr h q = Inr resp \<and> status_ok (hs_Status resp)) \<longrightarrow> list_all (\<lambda>ok. ok) oks"
    by (auto simp: flush_items_def Let_def distinct_map_filter)
  have "list_all2 (\<lambda>b b'. if b \<in> set ?items then \<exists>ok. (b, ok) \<in> set (zip ?items oks) \<and> credit_settled ok b b' else b' = b)
      ?obs (db_balance_outbox (pg_db (wstore w')))"
  proof (rule list_all2_trans_mono [OF _ rest(4)])
    show "list_all2 (\<lambda>b b'. b' = b \<or> b \<in> set ?items \<and> (\<exists>t. b' = b\<lparr>ob_next_attempt_at := t\<rparr>)) ?obs (db_balance_outbox (pg_db s1))"
      using claim by blast
    fix b b1 b'
    assume b: "b \<in> set ?obs" and b1: "b1 = b \<or> b \<in> set ?items \<and> (\<exists>t. b1 = b\<lparr>ob_next_attempt_at := t\<rparr>)"
      and out: "row_outcome ?items oks b1 b'"
    have id: "ob_id b1 = ob_id b" and same: "credit_settled ok b1 b' = credit_settled ok b b'" for ok
      using b1 by (auto simp: credit_settled_def row_entry_def row_money_def)
    show "if b \<in> set ?items then \<exists>ok. (b, ok) \<in> set (zip ?items oks) \<and> credit_settled ok b b' else b' = b"
    proof (cases "b \<in> set ?items")
      case True
      then obtain i ok where i: "(i, ok) \<in> set (zip ?items oks)" "ob_id i = ob_id b" "credit_settled ok b b'"
        using out by (auto simp: row_outcome_def id same)
      from i(1) have "i \<in> set ?obs" by (auto dest: set_zip_leftD simp: flush_items_def Let_def)
      with i(2) b assms(3) have "i = b" by (metis distinct_key_unique)
      with i True show ?thesis by auto
    next
      case False
      then have "ob_id b \<notin> ob_id ` set ?items" using flush_items_id [OF b] by simp
      with out b1 False id show ?thesis by (simp add: row_outcome_def)
    qed
  qed
  with rest show ?thesis by blast
qed

section \<open>The start\<close>

definition cashin_start :: "pg_env \<Rightarrow> cashin_system \<Rightarrow> bool" where
  "cashin_start E s \<longleftrightarrow> uuid_laws E \<and> credits_ok E (pg_db (wstore (yy_world s))) \<and> wcalls (yy_world s) = [] \<and>
     yy_read s = [] \<and> yy_send s = [] \<and> list_all (\<lambda>b. \<not> ob_sent b) (db_balance_outbox (pg_db (wstore (yy_world s))))"

lemma cashin_start_inv: "cashin_start E s \<Longrightarrow> cashin_inv E s"
  by (auto simp: cashin_start_def cashin_inv_def cashin_ok_def list_all_iff)

lemma credits_count:
  assumes "credits_ok E db" and "p \<in> set (db_payments db)"
  shows "sql_count (\<lambda>b. ob_ref_id b = py_transaction_id p) (db_balance_outbox db) = (if paid (py_status p) then 1 else 0)"
proof -
  let ?obs = "db_balance_outbox db"
  have keys: "distinct (map ob_ref_id ?obs)" by (rule credits_okD(8) [OF assms(1)])
  have found: "b \<in> set ?obs \<Longrightarrow> ob_ref_id b = py_transaction_id p \<Longrightarrow> paid (py_status p)" for b
  proof -
    assume b: "b \<in> set ?obs" "ob_ref_id b = py_transaction_id p"
    from credits_okD(4) [OF assms(1) b(1)] obtain q where q: "q \<in> set (db_payments db)" "payment_money q = row_money b" "paid (py_status q)"
      by (auto simp: payment_credits_def payment_credit_def)
    then have "py_transaction_id q = py_transaction_id p" using b(2) by (simp add: payment_money_def row_money_def)
    with credits_okD(2) [OF assms(1) q(1) assms(2)] q(3) show "paid (py_status p)" by simp
  qed
  show ?thesis
  proof (cases "paid (py_status p)")
    case True
    from credits_okD(5) [OF assms this] obtain b where "b \<in> set ?obs" "ob_ref_id b = py_transaction_id p"
      by (auto simp: row_money_def payment_money_def)
    then have "0 < sql_count (\<lambda>b. ob_ref_id b = py_transaction_id p) ?obs" by (auto simp: sql_count_pos)
    with sql_count_key_le_one [OF keys, of "\<lambda>b. ob_ref_id b = py_transaction_id p" "py_transaction_id p"] True show ?thesis by simp
  next
    case False
    with found show ?thesis by (auto simp: sql_count_zero)
  qed
qed

section \<open>Example\<close>

text \<open>Two payments; the provider confirms the first. The balance service refuses its first request.\<close>

definition ex_cashin_payment :: "string \<Rightarrow> payment_row" where
  "ex_cashin_payment i = row_of_payment i (zero_payment\<lparr>pay_AccountID := ''account1'', pay_MerchantID := ''merchant1'',
     pay_Status := ''started'', pay_Amount := ''100'', pay_Currency := ''USD'', pay_ProviderPaymentID := ''provider1'', pay_Route := ex_route\<rparr>)"

definition ex_cashin_world :: "pgstate world" where
  "ex_cashin_world = \<lparr>wstore = \<lparr>pg_db = empty_db\<lparr>db_payments := map ex_cashin_payment [''t1'', ''t2'']\<rparr>, pg_tick = 0\<rparr>, wcalls = []\<rparr>"

definition ex_cashin_start :: cashin_system where
  "ex_cashin_start = \<lparr>yy_world = ex_cashin_world, yy_read = [], yy_send = []\<rparr>"

definition ex_balance :: "history \<Rightarrow> transport" where
  "ex_balance h q = Inr \<lparr>hs_Status = (if length h = 1 then 503 else 200), hs_Header = [], hs_Body = ''''\<rparr>"

definition ex_balance_client :: ledger_client where
  "ex_balance_client = ledger_New ''http://balance/'' ''key''"

definition ex_cashin_event :: "string \<Rightarrow> pgstate world \<Rightarrow> pgstate world" where
  "ex_cashin_event t w = snd (on_store (pg_ApplyProviderEvent ex_flat_env (ex_event\<lparr>ev_EventID := t, ev_TransactionID := t\<rparr>) ''m1'') w)"

definition ex_cashin_flush :: "pgstate world \<Rightarrow> pgstate world" where
  "ex_cashin_flush w = snd (outbox_flush ex_flat_env ex_balance ex_balance_client w)"

lemma en_uuid_flat: "en_uuid ex_flat_env = Some"
  by (simp add: ex_flat_env_def ex_env_def)

lemma ex_cashin_start_ok: "cashin_start ex_flat_env ex_cashin_start"
  by (simp add: cashin_start_def ex_cashin_start_def ex_cashin_world_def credits_ok_def payment_credits_def payment_credit_def payment_money_def
      outbox_entries_def refunded_ids_def empty_db_def ex_cashin_payment_def row_of_payment_def canonical_def paid_def en_uuid_flat)

lemma ex_cashin_event_run:
  "yy_read s = [] \<Longrightarrow> cashin_run ex_flat_env tr c s (s\<lparr>yy_world := ex_cashin_event t (yy_world s)\<rparr>)"
proof -
  assume read: "yy_read s = []"
  obtain r w' where "on_store (pg_ApplyProviderEvent ex_flat_env (ex_event\<lparr>ev_EventID := t, ev_TransactionID := t\<rparr>) ''m1'') (yy_world s) = (r, w')"
    by force
  from worker_step.served [of "cashin_worker ex_flat_env tr c" s "[]" w'] cashin_serve.event [OF this] this read show ?thesis
    by (cases s) (simp add: ex_cashin_event_def r_into_rtranclp)
qed

lemma ex_cashin_flush_run:
  "yy_read s = [] \<Longrightarrow> cashin_run ex_flat_env ex_balance ex_balance_client s (s\<lparr>yy_world := ex_cashin_flush (yy_world s)\<rparr>)"
  using outbox_flush_run [of ex_flat_env ex_balance ex_balance_client "yy_world s" _ _ s] unfolding ex_cashin_flush_def
  by (metis prod.collapse)

definition ex_cashin_end :: cashin_system where
  "ex_cashin_end = ex_cashin_start\<lparr>yy_world := ex_cashin_flush (ex_cashin_event ''t2'' (ex_cashin_flush (ex_cashin_event ''t1'' ex_cashin_world)))\<rparr>"

lemma ex_cashin_end_run: "cashin_run ex_flat_env ex_balance ex_balance_client ex_cashin_start ex_cashin_end"
proof -
  let ?run = "cashin_run ex_flat_env ex_balance ex_balance_client" and ?e = "\<lambda>w. ex_cashin_start\<lparr>yy_world := w\<rparr>"
  have read: "yy_read (?e w) = []" for w by (simp add: ex_cashin_start_def)
  have step: "?run (?e w) (?e (ex_cashin_event t w))" "?run (?e w) (?e (ex_cashin_flush w))" for t w
    using ex_cashin_event_run [OF read] ex_cashin_flush_run [OF read] by auto
  have "?e ex_cashin_world = ex_cashin_start" by (simp add: ex_cashin_start_def)
  with rtranclp_trans [OF rtranclp_trans [OF rtranclp_trans [OF step(1) step(2)] step(1)] step(2), of ex_cashin_world]
  show ?thesis unfolding ex_cashin_end_def by simp
qed

lemma ex_cashin_values:
  "map (\<lambda>b. (ob_ref_id b, ob_sent b)) (db_balance_outbox (pg_db (wstore (yy_world ex_cashin_end)))) = [(''t1'', True), (''t2'', False)]"
  "wcalls (yy_world ex_cashin_end) = [(CallCreditBalance ''account1'' ''t1'' ''100'' ''USD'', True), (CallCreditBalance ''account1'' ''t2'' ''100'' ''USD'', False)]"
  by (code_simp, code_simp)

section \<open>Properties\<close>

text \<open>
  C4: In every interleaving of creations, provider events, refunds, outbox workers and crashes, each payment that was confirmed has
  exactly one row in the balance outbox and no other payment has one; every request to the balance service credits a confirmed payment
  with that payment's account, amount and currency, under the payment's identifier as reference; and a row is marked sent only
  after the balance service accepted such a request.
\<close>

theorem cashin_credited_once:
  assumes "cashin_start E s0" and "cashin_run E tr c s0 s"
  shows "(\<forall>p \<in> set (db_payments (pg_db (wstore (yy_world s)))).
       sql_count (\<lambda>b. ob_ref_id b = py_transaction_id p) (db_balance_outbox (pg_db (wstore (yy_world s)))) =
         (if paid (py_status p) then 1 else 0)) \<and>
    (\<forall>i account amount currency ok. (CallCreditBalance account i amount currency, ok) \<in> set (wcalls (yy_world s)) \<longrightarrow>
       (\<exists>p \<in> set (db_payments (pg_db (wstore (yy_world s)))). paid (py_status p) \<and> py_transaction_id p = i \<and>
          py_account_id p = account \<and> py_amount p = amount \<and> py_currency p = currency)) \<and>
    (\<forall>b \<in> set (db_balance_outbox (pg_db (wstore (yy_world s)))). ob_sent b \<longrightarrow>
       (CallCreditBalance (ob_account_id b) (ob_ref_id b) (ob_amount b) (ob_currency b), True) \<in> set (wcalls (yy_world s)))"
proof -
  have "cashin_inv E s"
    using cashin_run_inv [OF assms(2) _ cashin_start_inv [OF assms(1)]] assms(1) by (simp add: cashin_start_def)
  then have ok: "cashin_ok E (yy_world s)" by (simp add: cashin_inv_def)
  then have credits: "credits_ok E (pg_db (wstore (yy_world s)))" by (simp add: cashin_ok_def)
  have "\<exists>p \<in> set (db_payments (pg_db (wstore (yy_world s)))). paid (py_status p) \<and> payment_money p = (i, account, amount, currency)"
    if "(CallCreditBalance account i amount currency, b) \<in> set (wcalls (yy_world s))" for i account amount currency b
  proof -
    from that ok have "CallCreditBalance account i amount currency \<in> entry_calls (pg_db (wstore (yy_world s)))"
      by (fastforce simp: cashin_ok_def is_credit_call_def)
    then obtain r where r: "r \<in> set (db_balance_outbox (pg_db (wstore (yy_world s))))" "row_money r = (i, account, amount, currency)"
      by (auto simp: entry_calls_def row_money_def)
    from credits_okD(4) [OF credits r(1)] r(2) show ?thesis by (auto simp: payment_credits_def payment_credit_def)
  qed
  with ok credits_count [OF credits] show ?thesis by (fastforce simp: cashin_ok_def payment_money_def row_money_def)
qed

theorem cashin_credited_once_witness:
  "sql_count (\<lambda>b. ob_ref_id b = ''t1'') (db_balance_outbox (pg_db (wstore (yy_world ex_cashin_end)))) = 1 \<and>
   (\<exists>p \<in> set (db_payments (pg_db (wstore (yy_world ex_cashin_end)))). paid (py_status p) \<and> py_transaction_id p = ''t1'') \<and>
   map ob_sent (db_balance_outbox (pg_db (wstore (yy_world ex_cashin_end)))) = [True, False]"
proof -
  note all = cashin_credited_once [OF ex_cashin_start_ok ex_cashin_end_run]
  have "(CallCreditBalance ''account1'' ''t1'' ''100'' ''USD'', True) \<in> set (wcalls (yy_world ex_cashin_end))"
    by (simp add: ex_cashin_values(2))
  with all obtain p where p: "p \<in> set (db_payments (pg_db (wstore (yy_world ex_cashin_end))))" "paid (py_status p)" "py_transaction_id p = ''t1''"
    by blast
  with all have "sql_count (\<lambda>b. ob_ref_id b = ''t1'') (db_balance_outbox (pg_db (wstore (yy_world ex_cashin_end)))) = 1" by fastforce
  moreover have "map ob_sent (db_balance_outbox (pg_db (wstore (yy_world ex_cashin_end)))) = [True, False]"
    using arg_cong [OF ex_cashin_values(1), of "map snd"] by (simp add: comp_def)
  ultimately show ?thesis using p by blast
qed

text \<open>
  C18: With the database up, a flush of the outbox always ends; it asks the balance service once for each row it claimed (at
  most the 100 oldest due ones) and settles exactly these rows: accepted ones are marked sent, the others keep their entry, count
  the attempt and pause for 10 to 2560 seconds. If the balance service accepts everything, all claimed rows end up sent.
\<close>

theorem cashin_flush_outcome:
  assumes "outbox_flush E tr c w = (r, w')" and "pg_up E (wstore w)"
    and "distinct (map ob_id (db_balance_outbox (pg_db (wstore w))))"
  shows "r = Inr () \<and> length (flush_items E (wstore w)) \<le> 100 \<and>
    (\<exists>oks. length oks = length (flush_items E (wstore w)) \<and>
       wcalls w' = wcalls w @ zip (map (\<lambda>b. CallCreditBalance (ob_account_id b) (ob_ref_id b) (ob_amount b) (ob_currency b))
         (flush_items E (wstore w))) oks \<and>
       list_all2 (\<lambda>b b'. if b \<in> set (flush_items E (wstore w))
           then \<exists>ok. (b, ok) \<in> set (zip (flush_items E (wstore w)) oks) \<and> credit_settled ok b b'
           else b' = b) (db_balance_outbox (pg_db (wstore w))) (db_balance_outbox (pg_db (wstore w'))) \<and>
       ((\<forall>h q. \<exists>resp. tr h q = Inr resp \<and> status_ok (hs_Status resp)) \<longrightarrow> list_all (\<lambda>ok. ok) oks)) \<and>
    (\<forall>n. 10 * second_ns \<le> backoff n \<and> backoff n \<le> 2560 * second_ns)"
proof (intro conjI allI)
  let ?items = "flush_items E (wstore w)" and ?obs = "db_balance_outbox (pg_db (wstore w))"
  show "length ?items \<le> 100"
  proof -
    let ?oldest = "take 100 (sort_key ob_created_at (filter (due_credit (pg_time (en_clock E (pg_tick (wstore w)))) (pg_db (wstore w))) ?obs))"
    have "distinct (map ob_id ?items)" using assms(3) by (simp add: flush_items_def Let_def distinct_map_filter)
    then have "length ?items = card (ob_id ` set ?items)" using distinct_card by fastforce
    also have "\<dots> \<le> card (ob_id ` set ?oldest)" by (rule card_mono) (auto simp: flush_items_def Let_def)
    also have "\<dots> \<le> length ?oldest" by (metis card_image_le card_length finite_set le_trans)
    finally show ?thesis by simp
  qed
  have calls: "money_call \<circ> row_money = (\<lambda>b. CallCreditBalance (ob_account_id b) (ob_ref_id b) (ob_amount b) (ob_currency b))"
    by (simp add: fun_eq_iff row_money_def)
  from outbox_flush_effect [OF assms] show "r = Inr ()"
    and "\<exists>oks. length oks = length ?items \<and>
       wcalls w' = wcalls w @ zip (map (\<lambda>b. CallCreditBalance (ob_account_id b) (ob_ref_id b) (ob_amount b) (ob_currency b)) ?items) oks \<and>
       list_all2 (\<lambda>b b'. if b \<in> set ?items then \<exists>ok. (b, ok) \<in> set (zip ?items oks) \<and> credit_settled ok b b' else b' = b)
         ?obs (db_balance_outbox (pg_db (wstore w'))) \<and>
       ((\<forall>h q. \<exists>resp. tr h q = Inr resp \<and> status_ok (hs_Status resp)) \<longrightarrow> list_all (\<lambda>ok. ok) oks)"
    unfolding calls by blast+
  show "10 * second_ns \<le> backoff n" and "backoff n \<le> 2560 * second_ns" for n
    using doubled_bounds [of n] by (simp_all add: backoff_value)
qed

theorem cashin_flush_outcome_witness:
  "\<exists>w w'. outbox_flush ex_flat_env ex_balance ex_balance_client w = (Inr (), w') \<and>
     map (\<lambda>b. (ob_sent b, ob_attempt_count b)) (db_balance_outbox (pg_db (wstore w'))) = [(True, 0), (False, 1)] \<and>
     length (flush_items ex_flat_env (wstore w)) = 2"
proof -
  let ?w = "ex_cashin_event ''t2'' (ex_cashin_event ''t1'' ex_cashin_world)"
  obtain r w' where run: "outbox_flush ex_flat_env ex_balance ex_balance_client ?w = (r, w')" by force
  have ids: "distinct (map ob_id (db_balance_outbox (pg_db (wstore ?w))))" by code_simp
  have "r = Inr ()" using cashin_flush_outcome [OF run ex_flat_up ids] by blast
  moreover have "map (\<lambda>b. (ob_sent b, ob_attempt_count b)) (db_balance_outbox (pg_db (wstore (ex_cashin_flush ?w)))) = [(True, 0), (False, 1)]"
    by code_simp
  moreover have "length (flush_items ex_flat_env (wstore ?w)) = 2" by code_simp
  ultimately show ?thesis using run by (intro exI [of _ ?w] exI [of _ w']) (simp add: ex_cashin_flush_def)
qed

end
