(* ===== verification/Payout_Http.thy ===== *)
theory Payout_Http
  imports Program
begin

text \<open>
  The payout worker of \<^verbatim>\<open>main.go\<close> over HTTP: which answers of the balance service and of the connectors let a payout fail or
  give its money back. What is not an answer (a lost connection, a timeout, a gateway error, an unreadable body) never does.
\<close>

section \<open>The requests of a payout\<close>

definition payout_money_body :: "payout \<Rightarrow> string \<Rightarrow> json" where
  "payout_money_body p refType = ledger_body (po_AccountID p) (po_PayoutID p) (mo_Amount (po_Source p)) (mo_Currency (po_Source p)) refType"

text \<open>The connector's base address, and the two requests about a payout.\<close>

definition payout_base :: "string gomap \<Rightarrow> payout \<Rightarrow> string option" where
  "payout_base vars p = map_option (\<lambda>base. trim_right base CHR ''/'') (mget (connector_urls vars) (rd_ConnectorID (po_Route p)))"

definition payout_create_request :: "string gomap \<Rightarrow> go_context \<Rightarrow> payout \<Rightarrow> string \<Rightarrow> http_request" where
  "payout_create_request vars ctx p base = post_request ctx (base @ ''/v1/payouts'') (getenv vars ''SERVICE_TOKEN'')
     (''payout:'' @ po_PayoutID p) (payout_command (po_Route p) p)"

definition payout_get_request :: "string gomap \<Rightarrow> payout \<Rightarrow> string \<Rightarrow> http_request" where
  "payout_get_request vars p base = get_request (base @ ''/v1/payouts/'' @ payout_resource p) (getenv vars ''SERVICE_TOKEN'')
     (rd_ProviderConnectionID (po_Route p))"

text \<open>Errors of the transport and of the decoder are not the program's own sentinels.\<close>

definition foreign_errors :: "codec \<Rightarrow> (history \<Rightarrow> transport) \<Rightarrow> bool" where
  "foreign_errors cd tr \<longleftrightarrow>
     (\<forall>h q e. tr h q = Inl e \<longrightarrow> \<not> errors_is e ErrInsufficientBalance \<and> \<not> errors_is e ErrProviderRejected) \<and>
     (\<forall>body e. cd_payout cd body = Inl e \<longrightarrow> \<not> errors_is e ErrProviderRejected)"

text \<open>A definite answer: the provider refuses the payout, or names a status that ends it without paying.\<close>

definition refused_by_provider :: "(history \<Rightarrow> transport) \<Rightarrow> string gomap \<Rightarrow> go_context \<Rightarrow> payout \<Rightarrow> bool" where
  "refused_by_provider tr vars ctx p \<longleftrightarrow> (\<exists>base h resp. payout_base vars p = Some base \<and>
     tr h (payout_create_request vars ctx p base) = Inr resp \<and> hs_Status resp \<in> {400, 401, 403, 404, 409, 422})"

definition named_by_provider ::
  "codec \<Rightarrow> (history \<Rightarrow> transport) \<Rightarrow> string gomap \<Rightarrow> go_context \<Rightarrow> payout \<Rightarrow> string set \<Rightarrow> bool" where
  "named_by_provider cd tr vars ctx p statuses \<longleftrightarrow> (\<exists>base h q resp v. payout_base vars p = Some base \<and>
     (q = payout_create_request vars ctx p base \<or> q = payout_get_request vars p base) \<and>
     tr h q = Inr resp \<and> status_ok (hs_Status resp) \<and> cd_payout cd (hs_Body resp) = Inr v \<and> ppo_Status v \<in> statuses)"

section \<open>What the services answer\<close>

lemma main_payouts_parts [simp]:
  "ys_ledger (main_payouts E cd tr marshal vars ctx) = map_option (http_payout_ledger tr) (main_ledger vars)"
  "ys_connector (main_payouts E cd tr marshal vars ctx) = http_payout_connector cd tr ctx (main_connectors vars)"
  by (simp_all add: main_payouts_def)

lemma main_connectors_parts [simp]:
  "cs_urls (main_connectors vars) = connector_urls vars" "cs_token (main_connectors vars) = getenv vars ''SERVICE_TOKEN''"
  by (simp_all add: main_connectors_def NewConnectors_def)

lemma ledger_post_ok: "ledger_post tr c path body = Inr u \<Longrightarrow>
   \<exists>resp. tr (ledger_request c path body) = Inr resp \<and> status_ok (hs_Status resp)"
  by (auto simp: ledger_post_def split: sum.splits if_splits)

lemma ledger_errors [simp]: "\<not> errors_is (ErrOther t) ErrInsufficientBalance" "\<not> errors_is (ErrOther t) ErrProviderRejected"
  by simp_all

lemma created_over_http:
  assumes "foreign_errors cd tr"
    and "pc_CreatePayout (http_payout_connector cd tr ctx (main_connectors vars)) h (po_Route p) p (''payout:'' @ po_PayoutID p) = r"
  shows "r = Inl e \<Longrightarrow> errors_is e ErrProviderRejected \<Longrightarrow> refused_by_provider tr vars ctx p"
    and "r = Inr v \<Longrightarrow> ppo_Status v \<in> statuses \<Longrightarrow> named_by_provider cd tr vars ctx p statuses"
proof -
  have none: "payout_base vars p = None \<Longrightarrow> \<exists>t. r = Inl (ErrOther t)"
    and some: "payout_base vars p = Some base \<Longrightarrow> postJSON (tr h) ctx (base @ ''/v1/payouts'') (getenv vars ''SERVICE_TOKEN'')
      (''payout:'' @ po_PayoutID p) (payout_command (po_Route p) p) (cd_payout cd) = r" for base
    using assms(2) by (auto simp: http_payout_connector_def connectors_CreatePayout_def with_connector_def payout_base_def split: option.splits)
  show "refused_by_provider tr vars ctx p" if "r = Inl e" "errors_is e ErrProviderRejected"
  proof -
    from none that(1,2) obtain base where base: "payout_base vars p = Some base" by (cases "payout_base vars p") auto
    from some [OF base] show ?thesis
    proof (cases rule: postJSON_cases)
      case (refused resp t)
      with base show ?thesis unfolding refused_by_provider_def payout_create_request_def refusal_def by blast
    next
      case (lost e')
      with that assms(1) show ?thesis unfolding foreign_errors_def by blast
    next
      case (failed resp)
      with that(1) have "e = upstream_error resp" by simp
      with that(2) show ?thesis by (simp add: upstream_error_def)
    next
      case (answered resp)
      then have "cd_payout cd (hs_Body resp) = Inl e" using that(1) by simp
      with that(2) assms(1) show ?thesis unfolding foreign_errors_def by blast
    qed
  qed
  show "named_by_provider cd tr vars ctx p statuses" if "r = Inr v" "ppo_Status v \<in> statuses"
  proof -
    from none that(1,2) obtain base where base: "payout_base vars p = Some base" by (cases "payout_base vars p") auto
    from some [OF base] show ?thesis
    proof (cases rule: postJSON_cases)
      case (answered resp)
      with base that show ?thesis unfolding named_by_provider_def payout_create_request_def by metis
    qed (use that(1) in simp_all)
  qed
qed

lemma read_over_http:
  assumes "pc_GetPayout (http_payout_connector cd tr ctx (main_connectors vars)) h (po_Route p) p = Inr v" and "ppo_Status v \<in> statuses"
  shows "named_by_provider cd tr vars ctx p statuses"
proof -
  from assms(1) obtain base where base: "payout_base vars p = Some base"
    and get: "getJSON (tr h) (base @ ''/v1/payouts/'' @ payout_resource p) (getenv vars ''SERVICE_TOKEN'')
      (rd_ProviderConnectionID (po_Route p)) (cd_payout cd) = Inr v"
    by (auto simp: http_payout_connector_def connectors_GetPayout_def with_connector_def payout_base_def split: option.splits)
  from get obtain resp where "tr h (payout_get_request vars p base) = Inr resp" "status_ok (hs_Status resp)" "cd_payout cd (hs_Body resp) = Inr v"
    by (auto simp: getJSON_def payout_get_request_def split: sum.splits if_splits)
  with base assms(2) show ?thesis unfolding named_by_provider_def by metis
qed

text \<open>The status a provider answer leads to.\<close>

definition leading_to :: "string \<Rightarrow> string set" where
  "leading_to nx = {v. Payouts_next v = nx}"

lemma provider_update_next: "provider_update p v = (i, nx, f) \<Longrightarrow> ppo_Status v \<in> leading_to nx"
  by (simp add: provider_update_def leading_to_def)

lemma submit_verdict:
  assumes "foreign_errors cd tr"
    and "decide_submit (main_payouts E cd tr marshal vars ctx) p w = (Inr (Some (i, nx, f)), w')"
  shows "nx = ''provider_unknown'' \<or> named_by_provider cd tr vars ctx p (leading_to nx) \<or>
    nx = ''pending_compensation'' \<and> refused_by_provider tr vars ctx p"
proof -
  let ?sv = "main_payouts E cd tr marshal vars ctx"
  let ?create = "pc_CreatePayout (ys_connector ?sv) (wcalls w) (po_Route p) p (''payout:'' @ po_PayoutID p)"
  note http = created_over_http [OF assms(1), of ctx vars "wcalls w" p "?create"]
  show ?thesis
  proof (cases ?create)
    case (Inr v)
    with assms(2) have "provider_update p v = (i, nx, f)"
      by (simp add: decide_submit_def ask_create_payout_def ext_call_def io_try_def io_bind_def io_simps)
    from http(2) [OF _ Inr provider_update_next [OF this]] show ?thesis by simp
  next
    case (Inl e)
    show ?thesis
    proof (cases "errors_is e ErrProviderRejected")
      case True
      with Inl assms(2) have "nx = ''pending_compensation''"
        by (simp add: decide_submit_def ask_create_payout_def ext_call_def io_try_def io_bind_def io_simps failure_update_def)
      with http(1) [OF _ Inl True] show ?thesis by simp
    next
      case False
      let ?h = "wcalls w @ [(CallCreatePayout (po_Route p) p (''payout:'' @ po_PayoutID p), False)]"
      let ?get = "pc_GetPayout (ys_connector ?sv) ?h (po_Route p) p"
      from False Inl assms(2) have u: "(case ?get of
            Inl _ \<Rightarrow> failure_update p ''pending_provider'' ''provider_unknown'' ''provider create result is ambiguous''
          | Inr v \<Rightarrow> provider_update p v) = (i, nx, f)"
        by (simp add: decide_submit_def ask_create_payout_def ask_get_payout_def ext_call_def io_try_def io_bind_def io_simps Let_def)
      show ?thesis
      proof (cases ?get)
        case (Inl e')
        with u show ?thesis by (simp add: failure_update_def)
      next
        case (Inr v)
        with u have "provider_update p v = (i, nx, f)" by simp
        from read_over_http [OF _ provider_update_next [OF this]] Inr show ?thesis by fastforce
      qed
    qed
  qed
qed

lemma poll_verdict:
  assumes "decide_poll (main_payouts E cd tr marshal vars ctx) p w = (Inr (Some (i, nx, f)), w')"
  shows "named_by_provider cd tr vars ctx p (leading_to nx)"
proof -
  from assms obtain v where v: "pc_GetPayout (http_payout_connector cd tr ctx (main_connectors vars)) (wcalls w) (po_Route p) p = Inr v"
    "provider_update p v = (i, nx, f)"
    by (auto simp: decide_poll_def ask_get_payout_def ext_call_def io_try_def io_bind_def io_simps Let_def split: sum.splits)
  show ?thesis by (rule read_over_http [OF v(1) provider_update_next [OF v(2)]])
qed

lemma debit_verdict:
  assumes "foreign_errors cd tr"
    and "decide_debit (main_payouts E cd tr marshal vars ctx) p w = (Inr (Some (i, nx, f)), w')"
  shows "\<exists>l resp. main_ledger vars = Some l \<and>
    tr (wcalls w) (ledger_request l ''/api/balance/debit'' (payout_money_body p ''payout'')) = Inr resp \<and>
    (nx = ''failed'' \<and> hs_Status resp = 402 \<or> nx = ''pending_provider'' \<and> status_ok (hs_Status resp))"
proof -
  from assms(2) obtain l where l: "main_ledger vars = Some l"
    by (auto simp: decide_debit_def io_simps split: option.splits)
  let ?post = "ledger_post (tr (wcalls w)) l ''/api/balance/debit'' (payout_money_body p ''payout'')"
  from assms(2) l have u: "(case ?post of
        Inl err \<Rightarrow> if errors_is err ErrInsufficientBalance then Some (failure_update p ''pending_debit'' ''failed'' ''insufficient balance'') else None
      | Inr _ \<Rightarrow> Some (po_PayoutID p, ''pending_provider'', mput ''balanceDebited'' (JBool True) (transition ''pending_debit''))) = Some (i, nx, f)"
    by (simp add: decide_debit_def debit_payout_def ext_call_def io_try_def io_bind_def io_simps Let_def http_payout_ledger_def
        ledger_DebitPayout_def payout_money_body_def)
  show ?thesis
  proof (cases ?post)
    case (Inl e)
    with u have e: "errors_is e ErrInsufficientBalance" "nx = ''failed''" by (simp_all add: failure_update_def split: if_splits)
    from ledger_post_402 [OF Inl e(1)] assms(1) e(1) l e(2) show ?thesis by (auto simp: foreign_errors_def)
  next
    case (Inr x)
    from ledger_post_ok [OF Inr] u Inr l show ?thesis by auto
  qed
qed

lemma credit_verdict:
  assumes "decide_credit (main_payouts E cd tr marshal vars ctx) p w = (Inr (Some (i, nx, f)), w')"
  shows "nx = payout_credited (po_OperationalStatus p) \<and> (\<exists>l resp. main_ledger vars = Some l \<and>
    tr (wcalls w) (ledger_request l ''/api/balance/refund'' (payout_money_body p ''payout_reservation_release'')) = Inr resp \<and>
    status_ok (hs_Status resp))"
proof -
  from assms obtain l where l: "main_ledger vars = Some l"
    by (auto simp: decide_credit_def io_simps split: option.splits)
  let ?post = "ledger_post (tr (wcalls w)) l ''/api/balance/refund'' (payout_money_body p ''payout_reservation_release'')"
  from assms l have u: "(case ?post of Inl _ \<Rightarrow> None
      | Inr _ \<Rightarrow> Some (po_PayoutID p, payout_credited (po_OperationalStatus p), transition (po_OperationalStatus p))) = Some (i, nx, f)"
    by (simp add: decide_credit_def credit_payout_def ext_call_def io_try_def io_bind_def io_simps Let_def http_payout_ledger_def
        ledger_CreditFailedPayout_def payout_money_body_def)
  then obtain x where "?post = Inr x" by (cases ?post) auto
  with u ledger_post_ok [OF this] l show ?thesis by auto
qed

section \<open>Property\<close>

text \<open>
  C10: With the wiring of \<^verbatim>\<open>main.go\<close>, what the worker decides about a payout rests on a definite answer. Before the debit it fails the
  payout only on status 402 of the balance service and goes on only on a 2xx. Afterwards it gives the money back only if the
  connector refused the creation with 400, 401, 403, 404, 409 or 422, or answered 2xx with a status that means so; every other
  answer and every lost one leaves the payout where it is or in \<^verbatim>\<open>provider_unknown\<close>. It closes a compensation only after the balance
  service answered 2xx.
\<close>

theorem payout_verdict_definite:
  assumes "foreign_errors cd tr"
    and "payout_decide (main_payouts E cd tr marshal vars ctx) p w = (Inr (Some (i, nx, f)), w')"
  shows "Payouts_process (main_payouts E cd tr marshal vars ctx) p w = send_decided (main_payouts E cd tr marshal vars ctx) (Some (i, nx, f)) w' \<and>
    (if po_OperationalStatus p = ''pending_debit'' then
       \<exists>l resp. main_ledger vars = Some l \<and>
         tr (wcalls w) (ledger_request l ''/api/balance/debit'' (payout_money_body p ''payout'')) = Inr resp \<and>
         (nx = ''failed'' \<and> hs_Status resp = 402 \<or> nx = ''pending_provider'' \<and> 200 \<le> hs_Status resp \<and> hs_Status resp < 300)
     else if po_OperationalStatus p = ''pending_provider'' \<and> nx = ''provider_unknown'' then True
     else if po_OperationalStatus p = ''pending_provider'' \<or> po_OperationalStatus p = ''provider_unknown'' \<or> po_OperationalStatus p = ''processing'' then
       named_by_provider cd tr vars ctx p {v. Payouts_next v = nx} \<or>
       (po_OperationalStatus p = ''pending_provider'' \<and> nx = ''pending_compensation'' \<and> refused_by_provider tr vars ctx p)
     else
       nx = payout_credited (po_OperationalStatus p) \<and> (\<exists>l resp. main_ledger vars = Some l \<and>
         tr (wcalls w) (ledger_request l ''/api/balance/refund'' (payout_money_body p ''payout_reservation_release'')) = Inr resp \<and>
         200 \<le> hs_Status resp \<and> hs_Status resp < 300))"
proof -
  let ?sv = "main_payouts E cd tr marshal vars ctx" and ?st = "po_OperationalStatus p"
  have "Payouts_process ?sv p w = send_decided ?sv (Some (i, nx, f)) w'" using assms(2) by (simp add: process_splits)
  moreover consider "?st = ''pending_debit''" "decide_debit ?sv p w = (Inr (Some (i, nx, f)), w')"
    | "?st = ''pending_provider''" "decide_submit ?sv p w = (Inr (Some (i, nx, f)), w')"
    | "?st = ''provider_unknown'' \<or> ?st = ''processing''" "decide_poll ?sv p w = (Inr (Some (i, nx, f)), w')"
    | "?st \<in> set (sp_compensating payout_saga)" "decide_credit ?sv p w = (Inr (Some (i, nx, f)), w')"
    using assms(2) unfolding payout_decide_def Let_def by (auto simp: io_simps split: if_splits)
  then show ?thesis
  proof cases
    case 1
    with calculation debit_verdict [OF assms(1) 1(2)] show ?thesis by (simp add: status_ok_def)
  next
    case 2
    with calculation submit_verdict [OF assms(1) 2(2)] show ?thesis by (auto simp: leading_to_def)
  next
    case 3
    with calculation poll_verdict [OF 3(2)] show ?thesis by (auto simp: leading_to_def)
  next
    case 4
    with calculation credit_verdict [OF 4(2)] show ?thesis by (auto simp: status_ok_def)
  qed
qed

definition ex_payout_vars :: "string gomap" where
  "ex_payout_vars = [(''CONNECTORS'', ''connector-test=http://c/''), (''SERVICE_TOKEN'', ''t''),
     (''DINACORE_BASE_URL'', ''http://balance''), (''DINACORE_API_KEY'', ''k'')]"

text \<open>The balance service answers 402; the connector cannot be reached.\<close>

definition ex_payout_transport :: "history \<Rightarrow> transport" where
  "ex_payout_transport h q = (if has_prefix (hq_URL q) ''http://balance'' then Inr \<lparr>hs_Status = 402, hs_Header = [], hs_Body = ''''\<rparr>
     else Inl (ErrOther ''connection refused''))"

definition ex_payout_codec :: codec where
  "ex_payout_codec = \<lparr>cd_time = (\<lambda>t. JNull), cd_route = (\<lambda>_. Inl (ErrOther '''')), cd_payment = (\<lambda>_. Inl (ErrOther '''')),
     cd_refund = (\<lambda>_. Inl (ErrOther '''')), cd_payout = (\<lambda>_. Inl (ErrOther '''')), cd_legacy = (\<lambda>_. Inl (ErrOther '''')),
     cd_legacy_list = (\<lambda>_. Inl (ErrOther ''''))\<rparr>"

definition ex_payout_turn :: "string \<Rightarrow> (go_error + payout_update option) \<times> pgstate world" where
  "ex_payout_turn status = payout_decide (main_payouts ex_flat_env ex_payout_codec ex_payout_transport (\<lambda>_. '''') ex_payout_vars [])
     (zero_payout\<lparr>po_PayoutID := ''p1'', po_OperationalStatus := status, po_Route := ex_route\<rparr>)
     \<lparr>wstore = \<lparr>pg_db = empty_db, pg_tick = 0\<rparr>, wcalls = []\<rparr>"

theorem payout_verdict_definite_witness:
  "\<exists>l resp. main_ledger ex_payout_vars = Some l \<and> hs_Status resp = 402 \<and>
     ex_payout_transport [] (ledger_request l ''/api/balance/debit'' (payout_money_body
       (zero_payout\<lparr>po_PayoutID := ''p1'', po_OperationalStatus := ''pending_debit'', po_Route := ex_route\<rparr>) ''payout'')) = Inr resp \<and>
     map_sum id (map_option (fst \<circ> snd)) (fst (ex_payout_turn ''pending_provider'')) = Inr (Some ''provider_unknown'')"
proof -
  have foreign: "foreign_errors ex_payout_codec ex_payout_transport"
    by (auto simp: foreign_errors_def ex_payout_codec_def ex_payout_transport_def split: if_splits)
  have "fst (ex_payout_turn ''pending_debit'') = Inr (Some (''p1'', ''failed'', mput ''lastError'' (JStr ''insufficient balance'') (transition ''pending_debit'')))"
    by code_simp
  then obtain w' where turn: "ex_payout_turn ''pending_debit'' =
      (Inr (Some (''p1'', ''failed'', mput ''lastError'' (JStr ''insufficient balance'') (transition ''pending_debit''))), w')"
    by (metis prod.collapse)
  have other: "map_sum id (map_option (fst \<circ> snd)) (fst (ex_payout_turn ''pending_provider'')) = Inr (Some ''provider_unknown'')"
    by code_simp
  show ?thesis
    using payout_verdict_definite [OF foreign turn [unfolded ex_payout_turn_def]] other by auto
qed

end
