(* ===== verification/Spec2Isabelle.thy ===== *)
theory Spec2Isabelle
  imports Pg_Service Pg_Auth Pg_Legacy Pg_Events Refund_Properties Memory_Store Static_Auth Events_App Payout_Properties Webhooks Api_Properties Cashin_Properties Payout_Http
begin

text \<open>
  \<^bold>\<open>A model of dinapay-v2.\<close>

  dinapay-v2 is a service for payments, refunds and payouts in front of payment providers. A request comes in over HTTP, is
  authenticated, and is served by one of three services; a router picks the provider, a connector talks to it, a balance
  service (Dinacore) keeps the money of the accounts. State is in PostgreSQL, or, for local use, in memory. Providers report
  news as events. Background workers move payouts and refunds on, credit confirmed payments and deliver webhooks. The
  development translates this program and proves what makes it correct, above all about money.

  \<^bold>\<open>How the program is rendered.\<close>
  A Go function with effects is an operation of type \<open>('s, 'a) go_io\<close>: it maps a state to an error or a value and the new
  state (\<open>Prelude\<close>: \<open>io_bind\<close> is "call, return the error, go on"; \<open>io_try\<close> looks at the error, \<open>io_ignore\<close> drops it,
  \<open>io_on_error\<close> is a deferred clean-up). A struct is a record whose fields keep the Go names behind a prefix, a Go map is an
  association list, \<^verbatim>\<open>int64\<close> is \<open>64 word\<close>, a time is in nanoseconds since Go's zero time. An interface is a record of operations
  over an arbitrary store state (\<open>Ports\<close>), so a service is written once and used with either store. A call that leaves the
  process is answered by a function of the whole history of calls and is recorded in it with whether it succeeded
  (\<open>world\<close>); so every behaviour of routers, providers, ledgers and receivers is an instance. A run-time panic is the error
  \<open>Panic\<close>, which no handler turns into an answer.

  A table is the list of its rows (\<open>Pg_Tables\<close>), a statement is one step that may fail, and a transaction is one step that
  rolls back on any error, that of the commit included. \<open>en_down\<close> says which database calls fail; nothing is assumed of it
  unless a theorem says \<open>pg_up\<close>. The clocks are parameters as well. Operations of different requests and workers interleave at
  these steps.

  \<^bold>\<open>Theories and code.\<close> (paths under \<^verbatim>\<open>src/internal\<close> unless they begin with \<^verbatim>\<open>cmd\<close>)
  \<^item> \<open>Prelude\<close>: Go maps, SQL tables, string routines, the combinators, among them the loop on a ticker; \<open>Core_Model\<close>: \<^verbatim>\<open>core/model.go\<close>, \<^verbatim>\<open>errors.go\<close>,
    \<^verbatim>\<open>lifecycle.go\<close>, \<^verbatim>\<open>observability.go\<close>; \<open>Ident\<close>: request hashes and derived identifiers; \<open>Ports\<close>: \<^verbatim>\<open>core/ports.go\<close>.
  \<^item> \<open>Store_Contract\<close>: what the payment service and the event consumer rely on, as the locales \<open>payment_store\<close>,
    \<open>payment_service\<close> and \<open>event_store\<close>. Their client lemmas are proved once (\<open>Payments_App\<close>, \<open>Events_App\<close>) and
    interpreted for the in-memory store (\<open>Memory_Store\<close>, \<^verbatim>\<open>adapters/memory/store.go\<close>) and for PostgreSQL (\<open>Pg_Payments\<close>,
    \<^verbatim>\<open>adapters/postgres/store.go\<close>).
  \<^item> \<open>Completion\<close> and \<open>Payments_App\<close>: \<^verbatim>\<open>app/payments.go\<close>; \<open>Events_App\<close>: \<^verbatim>\<open>app/provider_events.go\<close>; \<open>Static_Auth\<close>:
    \<^verbatim>\<open>adapters/static/auth.go\<close>; \<open>Pg_Auth\<close>: \<^verbatim>\<open>adapters/postgres/auth.go\<close>; \<open>Pg_Service\<close> and \<open>Pg_Events\<close>: the payment service
    and the event consumer as wired with PostgreSQL.
  \<^item> \<open>Pg_Tables\<close>: the schema \<^verbatim>\<open>migrations/001_initial.sql\<close>, statements and transactions; \<open>Pg_Legacy\<close>:
    \<^verbatim>\<open>legacy_payments.go\<close>, the reads of V1 payments and the consolidated pages; \<open>Base64\<close>: the encoding of their cursors.
  \<^item> \<open>Payouts_App\<close> and \<open>Pg_Payouts\<close>: \<^verbatim>\<open>app/payouts.go\<close> and \<^verbatim>\<open>adapters/postgres/payouts.go\<close>; \<open>Refunds_App\<close> and \<open>Pg_Refunds\<close>:
    \<^verbatim>\<open>app/refunds.go\<close> and \<^verbatim>\<open>adapters/postgres/refunds.go\<close>.
  \<^item> \<open>Saga\<close>: the abstract protocol of debit, provider and compensation; \<open>Worker\<close>: workers as concurrent processes with
    stale snapshots, and the locale \<open>saga_worker\<close>, whose interpretations refine the saga. \<open>Payout_Decision\<close>,
    \<open>Payout_System\<close>, \<open>Payout_Progress\<close>, \<open>Payout_Example\<close>, \<open>Payout_Properties\<close> and \<open>Refund_Decision\<close>,
    \<open>Refund_System\<close>, \<open>Refund_Properties\<close> discharge it for the two workers.
  \<^item> \<open>Wire\<close> and \<open>Http_Client\<close>: \<^verbatim>\<open>adapters/httpclient\<close>; \<open>Dinacore\<close>: \<^verbatim>\<open>adapters/dinacore\<close>; \<open>Cashin_System\<close> and
    \<open>Cashin_Properties\<close>: the credit of confirmed payments across \<^verbatim>\<open>store.go\<close>, \<^verbatim>\<open>refunds.go\<close> and \<^verbatim>\<open>dinacore/outbox.go\<close>.
  \<^item> \<open>Webhooks\<close>: \<^verbatim>\<open>adapters/webhooks/outbox.go\<close>; \<open>Metrics\<close>: \<^verbatim>\<open>observability/metrics.go\<close>.
  \<^item> \<open>Api_Json\<close> and \<open>Http_Api\<close>: \<^verbatim>\<open>transport/httpapi/server.go\<close>; \<open>Program\<close>: \<^verbatim>\<open>cmd/dinapay-v2/main.go\<close>, which wires all of
    the above; \<open>Api_Properties\<close> and \<open>Payout_Http\<close>: what holds of the wired programs.

  \<^bold>\<open>What is shown.\<close>
  \<^item> Money: in every interleaving of requests, workers, events and crashes, payouts and refunds are paths of the saga; a
    payout on its way was debited, and one that carries the debit mark and ended otherwise was credited back; the refunds of a
    payment never exceed it; a confirmed payment has exactly one credit entry, and only confirmed payments are credited, with their own money; over
    HTTP only a definite answer lets a payout fail or gives its money back.
  \<^item> Requests: idempotent creation with its conflicts, failures undone, at both stores and over HTTP; reads confined to the
    caller's merchant or account; complete pages; bounded page sizes; credentials before any effect; one answer to each request.
  \<^item> Events: over both stores no event moves a payment against its lifecycle, and a repeated event changes nothing.
  \<^item> Workers: no turn takes a payout away from its end, a turn with definite answers brings it closer, and three of them finish it;
    the webhooks of one registration go out in order of creation; a flush
    ends; the state of a row after each outcome, with the bounds of the pauses; a worker's loop is a run of the system, whatever
    happens between its ticks, and ends only with its context.
  \<^item> Defects, each proved of the model: a debit that is accepted but never marked, so that nothing gives it back; an event that is
    lost; a cursor that leads to the same page for ever; an idempotency key shared by two merchants; a panic without a database.

  \<^bold>\<open>Bounds and parameters.\<close>
  Recursions are structural or have a measure; there is no fuel. A loop that waits for its ticker recurses over the list of
  the signals that arrive. The limits (50 payouts and refunds, 100 credits, 50 deliveries
  in a batch, 100 entries on a page) are those of the code. Parameters are SHA-256, the texts of \<^verbatim>\<open>json.Marshal\<close> and the
  decoders of JSON bodies, the casts of PostgreSQL to \<^verbatim>\<open>numeric\<close> and \<^verbatim>\<open>uuid\<close>, floating-point numbers, random bytes, and everything
  on the other side of a connection. Hypotheses on them are named where they are used: \<open>uuid_laws\<close>
  (a \<^verbatim>\<open>uuid\<close> has one text), \<open>digest_ok\<close> (32 bytes), \<open>foreign_errors\<close> (errors of the network are not the program's own).

  \<^bold>\<open>Not modelled.\<close>
  Logging, the opening of the pool, the listening server and its shutdown, time-outs and sizes of connection pools
  (\<^verbatim>\<open>httpclient/transport.go\<close>), paths that \<^verbatim>\<open>ServeMux\<close> redirects because they are not clean, and
  the rounding of floating-point sums. \<^verbatim>\<open>Migrate\<close> runs the schema, which the row records state.
\<close>

end
